(* ===== verification/Relay_Prelude.thy ===== *)
theory Relay_Prelude
  imports Main "HOL-Library.Word" "HOL-Library.Sublist"
begin

text \<open>
  The vocabulary every component theory shares.

  \<^item> The machine integers of the relay's Rust code as words, a byte buffer as a list of
    8-bit words, a Rust \<open>String\<close> as the list of its UTF-8 bytes (type \<open>string\<close>).
  \<^item> Fallible stateful code: a function from a state to a three-way \<open>result\<close> and the new
    state. \<open>Ok\<close> and \<open>Err\<close> are the two constructors of Rust's \<open>Result\<close>, \<open>Panic\<close> is a
    panic that unwinds the task. \<open>and_then\<close> is the \<open>?\<close> operator, \<open>attempt\<close> a
    \<open>match\<close> on the result, which only a panic passes through.
  \<^item> The locale \<open>step_rel\<close>: a reflexive and transitive relation between the states before
    and after. Every combinator obeys it when its parts do. The component theories
    interpret it for the frames and the invariants they need.
  \<^item> Tables as lists of rows with a key: lookup, update and deletion by key, and the locale
    \<open>unique_key\<close>, the contract of a column that is a primary key or \<open>UNIQUE\<close>.
\<close>

section \<open>Machine types\<close>

type_synonym u8 = "8 word"
type_synonym u16 = "16 word"
type_synonym u64 = "64 word"
type_synonym uuid = "128 word"
type_synonym bytes = "u8 list"

named_theorems frames \<open>what an operation leaves unchanged\<close>
named_theorems steps \<open>which step relations an operation obeys\<close>

section \<open>Fallible stateful operations\<close>

datatype (oks: 'a, errs: 'e) result = Ok 'a | Err 'e | Panic

type_synonym ('s, 'a, 'e) prog = "'s \<Rightarrow> ('a, 'e) result \<times> 's"

definition ret :: "'a \<Rightarrow> ('s, 'a, 'e) prog" where
  "ret x = (\<lambda>s. (Ok x, s))"

definition throw :: "'e \<Rightarrow> ('s, 'a, 'e) prog" where
  "throw e = (\<lambda>s. (Err e, s))"

definition panic :: "('s, 'a, 'e) prog" where
  "panic = (\<lambda>s. (Panic, s))"

definition and_then ::
  "('s, 'a, 'e) prog \<Rightarrow> ('a \<Rightarrow> ('s, 'b, 'e) prog) \<Rightarrow> ('s, 'b, 'e) prog" where
  "and_then m f = (\<lambda>s. case m s of
      (Ok x, t) \<Rightarrow> f x t
    | (Err e, t) \<Rightarrow> (Err e, t)
    | (Panic, t) \<Rightarrow> (Panic, t))"

definition attempt :: "('s, 'a, 'e) prog \<Rightarrow> ('s, 'e + 'a, 'f) prog" where
  "attempt m = (\<lambda>s. case m s of
      (Ok x, t) \<Rightarrow> (Ok (Inr x), t)
    | (Err e, t) \<Rightarrow> (Ok (Inl e), t)
    | (Panic, t) \<Rightarrow> (Panic, t))"

definition map_err :: "('e \<Rightarrow> 'f) \<Rightarrow> ('s, 'a, 'e) prog \<Rightarrow> ('s, 'a, 'f) prog" where
  "map_err g m = (\<lambda>s. case m s of
      (Ok x, t) \<Rightarrow> (Ok x, t)
    | (Err e, t) \<Rightarrow> (Err (g e), t)
    | (Panic, t) \<Rightarrow> (Panic, t))"

text \<open>\<open>let _ = m\<close>, and \<open>m.unwrap_or(d)\<close> (with the empty list, \<open>unwrap_or_default\<close>).\<close>

definition ignore_err :: "('s, 'a, 'e) prog \<Rightarrow> ('s, unit, 'f) prog" where
  "ignore_err m = and_then (attempt m) (\<lambda>_. ret ())"

definition unwrap_or :: "'a \<Rightarrow> ('s, 'a, 'e) prog \<Rightarrow> ('s, 'a, 'f) prog" where
  "unwrap_or d m = and_then (attempt m) (\<lambda>r. ret (case r of Inr x \<Rightarrow> x | Inl _ \<Rightarrow> d))"

definition ok_or :: "'e \<Rightarrow> 'a option \<Rightarrow> ('s, 'a, 'e) prog" where
  "ok_or e v = (case v of Some x \<Rightarrow> ret x | None \<Rightarrow> throw e)"

definition reads :: "('s \<Rightarrow> 'a) \<Rightarrow> ('s, 'a, 'e) prog" where
  "reads f = (\<lambda>s. (Ok (f s), s))"

definition modify :: "('s \<Rightarrow> 's) \<Rightarrow> ('s, unit, 'e) prog" where
  "modify f = (\<lambda>s. (Ok (), f s))"

text \<open>An operation that cannot fail, given as a function to a value and the new state.\<close>

definition total :: "('s \<Rightarrow> 'a \<times> 's) \<Rightarrow> ('s, 'a, 'e) prog" where
  "total f = (\<lambda>s. case f s of (x, t) \<Rightarrow> (Ok x, t))"

primrec for_each :: "('a \<Rightarrow> ('s, unit, 'e) prog) \<Rightarrow> 'a list \<Rightarrow> ('s, unit, 'e) prog" where
  "for_each f [] = ret ()"
| "for_each f (x # xs) = and_then (f x) (\<lambda>_. for_each f xs)"

lemmas prog_defs = ret_def throw_def panic_def and_then_def attempt_def map_err_def
  ignore_err_def unwrap_or_def ok_or_def reads_def modify_def total_def

lemma ret_run [simp]: "ret x s = (Ok x, s)"
  by (simp add: ret_def)

lemma throw_run [simp]: "throw e s = (Err e, s)"
  by (simp add: throw_def)

lemma panic_run [simp]: "panic s = (Panic, s)"
  by (simp add: panic_def)

lemma reads_run [simp]: "reads f s = (Ok (f s), s)"
  by (simp add: reads_def)

lemma modify_run [simp]: "modify f s = (Ok (), f s)"
  by (simp add: modify_def)

lemma total_run [simp]: "total f s = (Ok (fst (f s)), snd (f s))"
  by (simp add: total_def split: prod.split)

lemma and_then_Ok: "m s = (Ok x, t) \<Longrightarrow> and_then m f s = f x t"
  by (simp add: and_then_def)

lemma and_then_Err: "m s = (Err e, t) \<Longrightarrow> and_then m f s = (Err e, t)"
  by (simp add: and_then_def)

lemma and_then_Panic: "m s = (Panic, t) \<Longrightarrow> and_then m f s = (Panic, t)"
  by (simp add: and_then_def)

lemma and_then_ret [simp]: "and_then (ret x) f = f x"
  by (rule ext) (simp add: and_then_def)

lemma and_then_throw [simp]: "and_then (throw e) f = throw e"
  by (rule ext) (simp add: and_then_def)

lemma and_then_reads [simp]: "and_then (reads g) f s = f (g s) s"
  by (simp add: and_then_def)

lemma and_then_modify [simp]: "and_then (modify g) f s = f () (g s)"
  by (simp add: and_then_def)

lemma and_then_total [simp]: "and_then (total g) f s = f (fst (g s)) (snd (g s))"
  by (simp add: and_then_def)

lemma ok_or_simps [simp]: "ok_or e (Some x) = ret x" "ok_or e None = throw e"
  by (simp_all add: ok_or_def)

lemma and_then_assoc: "and_then (and_then m f) g = and_then m (\<lambda>x. and_then (f x) g)"
  by (rule ext) (auto simp: and_then_def split: prod.splits result.splits)

lemma attempt_Ok: "m s = (Ok x, t) \<Longrightarrow> attempt m s = (Ok (Inr x), t)"
  by (simp add: attempt_def)

lemma attempt_Err: "m s = (Err e, t) \<Longrightarrow> attempt m s = (Ok (Inl e), t)"
  by (simp add: attempt_def)

lemma attempt_Panic: "m s = (Panic, t) \<Longrightarrow> attempt m s = (Panic, t)"
  by (simp add: attempt_def)

lemma map_err_Ok: "m s = (Ok x, t) \<Longrightarrow> map_err g m s = (Ok x, t)"
  by (simp add: map_err_def)

lemma map_err_Err: "m s = (Err e, t) \<Longrightarrow> map_err g m s = (Err (g e), t)"
  by (simp add: map_err_def)

lemma ignore_err_Ok: "m s = (Ok x, t) \<Longrightarrow> ignore_err m s = (Ok (), t)"
  by (simp add: ignore_err_def and_then_def attempt_def)

lemma ignore_err_Err: "m s = (Err e, t) \<Longrightarrow> ignore_err m s = (Ok (), t)"
  by (simp add: ignore_err_def and_then_def attempt_def)

lemma unwrap_or_Ok: "m s = (Ok x, t) \<Longrightarrow> unwrap_or d m s = (Ok x, t)"
  by (simp add: unwrap_or_def and_then_def attempt_def)

lemma unwrap_or_Err: "m s = (Err e, t) \<Longrightarrow> unwrap_or d m s = (Ok d, t)"
  by (simp add: unwrap_or_def and_then_def attempt_def)

lemmas prog_runs = and_then_Ok and_then_Err and_then_Panic attempt_Ok attempt_Err attempt_Panic
  map_err_Ok map_err_Err ignore_err_Ok ignore_err_Err unwrap_or_Ok unwrap_or_Err

text \<open>Inversion: an \<open>Ok\<close> result went through every part.\<close>

lemma and_then_eq_Ok:
  "and_then m f s = (Ok y, u) \<longleftrightarrow> (\<exists>x t. m s = (Ok x, t) \<and> f x t = (Ok y, u))"
  by (auto simp: and_then_def split: prod.splits result.splits)

lemma map_err_eq_Ok: "map_err g m s = (Ok x, t) \<longleftrightarrow> m s = (Ok x, t)"
  by (auto simp: map_err_def split: prod.splits result.splits)

lemma ok_or_eq_Ok: "ok_or e v s = (Ok x, t) \<longleftrightarrow> v = Some x \<and> t = s"
  by (auto simp: ok_or_def split: option.splits)

lemma attempt_eq_Ok:
  "attempt m s = (Ok r, t) \<longleftrightarrow>
     (\<exists>x. m s = (Ok x, t) \<and> r = Inr x) \<or> (\<exists>e. m s = (Err e, t) \<and> r = Inl e)"
  by (auto simp: attempt_def split: prod.splits result.splits)

lemma ignore_err_eq_Ok:
  "ignore_err m s = (Ok u, t) \<longleftrightarrow> (\<exists>x. m s = (Ok x, t)) \<or> (\<exists>e. m s = (Err e, t))"
  by (auto simp: ignore_err_def and_then_eq_Ok attempt_eq_Ok)

lemmas prog_inv = and_then_eq_Ok map_err_eq_Ok ok_or_eq_Ok attempt_eq_Ok ignore_err_eq_Ok

section \<open>Relations every step of an operation obeys\<close>

definition obeys :: "('s \<Rightarrow> 's \<Rightarrow> bool) \<Rightarrow> ('s, 'a, 'e) prog \<Rightarrow> bool" where
  "obeys R m \<longleftrightarrow> (\<forall>s. R s (snd (m s)))"

lemma obeysD: "obeys R m \<Longrightarrow> m s = (r, t) \<Longrightarrow> R s t"
  unfolding obeys_def by (metis snd_conv)

lemma obeys_snd: "obeys R m \<Longrightarrow> R s (snd (m s))"
  by (simp add: obeys_def)

lemma obeysI: "(\<And>s. R s (snd (m s))) \<Longrightarrow> obeys R m"
  by (simp add: obeys_def)

locale step_rel =
  fixes R :: "'s \<Rightarrow> 's \<Rightarrow> bool"
  assumes R_refl: "R s s"
    and R_trans: "R s t \<Longrightarrow> R t u \<Longrightarrow> R s u"
begin

lemma ret_step: "obeys R (ret x)"
  by (simp add: obeys_def R_refl)

lemma throw_step: "obeys R (throw e)"
  by (simp add: obeys_def R_refl)

lemma panic_step: "obeys R panic"
  by (simp add: obeys_def R_refl)

lemma reads_step: "obeys R (reads f)"
  by (simp add: obeys_def R_refl)

lemma ok_or_step: "obeys R (ok_or e v)"
  by (cases v) (simp_all add: ret_step throw_step)

lemma modify_step: "(\<And>s. R s (f s)) \<Longrightarrow> obeys R (modify f)"
  by (simp add: obeys_def)

lemma total_step: "(\<And>s. R s (snd (f s))) \<Longrightarrow> obeys R (total f)"
  by (simp add: obeys_def)

lemma and_then_step:
  assumes m: "obeys R m" and f: "\<And>x. obeys R (f x)"
  shows "obeys R (and_then m f)"
proof (rule obeysI)
  fix s
  obtain r t where run: "m s = (r, t)" by (cases "m s")
  with m have st: "R s t" by (rule obeysD)
  show "R s (snd (and_then m f s))"
  proof (cases r)
    case (Ok x)
    with run have "snd (and_then m f s) = snd (f x t)" by (simp add: and_then_def)
    moreover have "R t (snd (f x t))" by (rule obeys_snd [OF f])
    ultimately show ?thesis using st R_trans by metis
  qed (use run st in \<open>simp_all add: and_then_def\<close>)
qed

lemma attempt_step: "obeys R m \<Longrightarrow> obeys R (attempt m)"
  unfolding obeys_def attempt_def by (auto split: prod.split result.split) (metis snd_conv)+

lemma map_err_step: "obeys R m \<Longrightarrow> obeys R (map_err g m)"
  unfolding obeys_def map_err_def by (auto split: prod.split result.split) (metis snd_conv)+

lemma ignore_err_step: "obeys R m \<Longrightarrow> obeys R (ignore_err m)"
  unfolding ignore_err_def by (intro and_then_step attempt_step ret_step)

lemma unwrap_or_step: "obeys R m \<Longrightarrow> obeys R (unwrap_or d m)"
  unfolding unwrap_or_def by (intro and_then_step attempt_step ret_step)

lemma for_each_step: "(\<And>x. obeys R (f x)) \<Longrightarrow> obeys R (for_each f xs)"
  by (induction xs) (simp_all add: ret_step and_then_step)

lemma if_step: "obeys R m \<Longrightarrow> obeys R n \<Longrightarrow> obeys R (if b then m else n)"
  by simp

lemma option_step:
  "obeys R n \<Longrightarrow> (\<And>x. obeys R (f x)) \<Longrightarrow>
    obeys R (case v of None \<Rightarrow> n | Some x \<Rightarrow> f x)"
  by (cases v) simp_all

lemma sum_step:
  "(\<And>x. obeys R (f x)) \<Longrightarrow> (\<And>y. obeys R (g y)) \<Longrightarrow>
    obeys R (case v of Inl x \<Rightarrow> f x | Inr y \<Rightarrow> g y)"
  by (cases v) simp_all

lemma prod_step: "(\<And>x y. obeys R (f x y)) \<Longrightarrow> obeys R (case v of (x, y) \<Rightarrow> f x y)"
  by (cases v) simp

lemmas rules = ret_step throw_step panic_step reads_step ok_or_step and_then_step attempt_step
  map_err_step ignore_err_step unwrap_or_step for_each_step if_step option_step sum_step prod_step

end

section \<open>Rows with a key\<close>

definition lookup_by :: "('r \<Rightarrow> 'k) \<Rightarrow> 'k \<Rightarrow> 'r list \<Rightarrow> 'r option" where
  "lookup_by key k rows = find (\<lambda>r. key r = k) rows"

definition update_by :: "('r \<Rightarrow> 'k) \<Rightarrow> 'k \<Rightarrow> ('r \<Rightarrow> 'r) \<Rightarrow> 'r list \<Rightarrow> 'r list" where
  "update_by key k f rows = map (\<lambda>r. if key r = k then f r else r) rows"

definition delete_by :: "('r \<Rightarrow> 'k) \<Rightarrow> 'k \<Rightarrow> 'r list \<Rightarrow> 'r list" where
  "delete_by key k rows = filter (\<lambda>r. key r \<noteq> k) rows"

lemma lookup_by_Some: "lookup_by key k rows = Some r \<Longrightarrow> r \<in> set rows \<and> key r = k"
  by (auto simp: lookup_by_def find_Some_iff)

lemma lookup_by_None: "lookup_by key k rows = None \<longleftrightarrow> k \<notin> key ` set rows"
  by (auto simp: lookup_by_def find_None_iff)

lemma map_update_by:
  "(\<And>r. g (f r) = g r) \<Longrightarrow> map g (update_by key k f rows) = map g rows"
  by (simp add: update_by_def)

lemma set_update_by:
  "set (update_by key k f rows) = (\<lambda>r. if key r = k then f r else r) ` set rows"
  by (simp add: update_by_def)

lemma update_by_id: "k \<notin> key ` set rows \<Longrightarrow> update_by key k f rows = rows"
  by (induction rows) (auto simp: update_by_def)

lemma set_delete_by: "set (delete_by key k rows) = {r \<in> set rows. key r \<noteq> k}"
  by (auto simp: delete_by_def)

lemma key_delete_by: "key ` set (delete_by key k rows) = key ` set rows - {k}"
  by (auto simp: delete_by_def)

lemma distinct_delete_by: "distinct (map g rows) \<Longrightarrow> distinct (map g (delete_by key k rows))"
  by (simp add: delete_by_def distinct_map_filter)

lemma lookup_by_append_new:
  "k \<notin> key ` set rows \<Longrightarrow> lookup_by key k (rows @ [r]) = (if key r = k then Some r else None)"
  by (induction rows) (auto simp: lookup_by_def)

lemma lookup_by_append_other:
  "key r \<noteq> k \<Longrightarrow> lookup_by key k (rows @ [r]) = lookup_by key k rows"
  by (induction rows) (auto simp: lookup_by_def)

lemma lookup_by_update_by:
  "(\<And>r. key (f r) = key r) \<Longrightarrow>
    lookup_by key k' (update_by key k f rows)
      = (if k' = k then map_option f (lookup_by key k rows) else lookup_by key k' rows)"
  by (induction rows) (auto simp: lookup_by_def update_by_def)

lemma lookup_by_delete_by:
  "lookup_by key k' (delete_by key k rows) = (if k' = k then None else lookup_by key k' rows)"
  by (induction rows) (auto simp: lookup_by_def delete_by_def)

text \<open>
  The contract of a column that is a key: the tables the provider keeps well formed have no
  two rows with the same value in it. Its client gets a lookup that is exact.
\<close>

locale unique_key =
  fixes key :: "'r \<Rightarrow> 'k"
    and rows :: "'t \<Rightarrow> 'r list"
    and wf :: "'t \<Rightarrow> bool"
  assumes key_distinct: "wf t \<Longrightarrow> distinct (map key (rows t))"
begin

lemma lookup_row:
  assumes "wf t" and "r \<in> set (rows t)"
  shows "lookup_by key (key r) (rows t) = Some r"
proof -
  have "distinct (map key xs) \<Longrightarrow> r \<in> set xs \<Longrightarrow> lookup_by key (key r) xs = Some r" for xs
    by (induction xs) (auto simp: lookup_by_def image_iff)
  with key_distinct [OF assms(1)] assms(2) show ?thesis by blast
qed

lemma lookup_iff:
  "wf t \<Longrightarrow> lookup_by key k (rows t) = Some r \<longleftrightarrow> r \<in> set (rows t) \<and> key r = k"
  by (blast dest: lookup_by_Some intro: lookup_row)

lemma same_key_same_row:
  assumes "wf t" "r \<in> set (rows t)" "r' \<in> set (rows t)" "key r = key r'"
  shows "r = r'"
proof -
  from assms(1,2) have "lookup_by key (key r) (rows t) = Some r" by (rule lookup_row)
  moreover from assms(1,3) have "lookup_by key (key r') (rows t) = Some r'" by (rule lookup_row)
  ultimately show ?thesis unfolding assms(4) by (metis option.inject)
qed

end

section \<open>Small library lemmas\<close>

lemma find_not_in_None: "find (\<lambda>p. p \<notin> A) xs = None \<longleftrightarrow> set xs \<subseteq> A"
  by (auto simp: find_None_iff)

lemma count_update_by:
  assumes "distinct (map key rows)" and "r \<in> set rows" and "key r = k" and "P r" and "\<not> P (f r)"
  shows "length (filter P (update_by key k f rows)) + 1 = length (filter P rows)"
  using assms
proof (induction rows)
  case Nil
  then show ?case by simp
next
  case (Cons a rows)
  show ?case
  proof (cases "a = r")
    case True
    with Cons.prems have "k \<notin> key ` set rows" by auto
    then have "update_by key k f rows = rows" by (rule update_by_id)
    with True Cons.prems show ?thesis by (simp add: update_by_def)
  next
    case False
    with Cons.prems have "key a \<noteq> k" by (auto simp: image_iff)
    with False Cons show ?thesis by (auto simp: update_by_def)
  qed
qed

lemma filter_length_0: "length (filter P xs) = 0 \<longleftrightarrow> (\<forall>x \<in> set xs. \<not> P x)"
  by (induction xs) auto

end
