(* ===== verification/Protocol.thy ===== *)
theory Protocol
  imports Relay_Prelude
begin

text \<open>
  The messages of \<open>src/protocol.rs\<close> and the code the relay calls that is not its own.

  The record \<open>ext\<close> holds the third-party functions as parameters of the model: the text
  form of UUIDs (crate uuid), base64, the JSON form of the messages (serde), the
  \<open>to_str\<close> of a header value (axum), and the \<open>Display\<close> of a database error (rusqlite).
  The facts the code relies on are the predicates \<open>uuid_text_ok\<close> and \<open>base64_ok\<close>, which
  the theorems that need them name as hypotheses.
\<close>

section \<open>Messages\<close>

record tunnel_config =
  tc_id :: uuid
  tc_agent_id :: uuid
  tc_name :: string
  tc_local_port :: u16
  tc_protocol :: string
  tc_public_port :: u16
  tc_subdomain :: "string option"
  tc_enabled :: bool

datatype agent_message =
    Auth (auth_token: string) (auth_hostname: string)
  | RequestClaim string
  | AgentData uuid string
  | AgentCloseConnection uuid
  | Ping

datatype relay_message =
    AuthSuccess uuid string string
  | ClaimReady string string "string option"
  | SyncTunnels "tunnel_config list"
  | StartTunnel tunnel_config
  | StopTunnel uuid
  | NewConnection uuid uuid
  | RelayData uuid string
  | CloseConnection uuid
  | Pong
  | ErrorMsg string

section \<open>Database errors\<close>

text \<open>
  The variants of \<open>rusqlite::Error\<close> the relay's statements can raise: the one the source
  constructs itself, the constraint failures of the schema, the two conversions of a stored
  value that fail, and an I/O failure of the database.
\<close>

datatype db_error =
    QueryReturnedNoRows
  | UniqueViolation string
  | ForeignKeyViolation
  | IntegralValueOutOfRange
  | InvalidColumnType
  | IoFailure nat

section \<open>Code outside the repository\<close>

record ext =
  uuid_to_string :: "uuid \<Rightarrow> string"
  uuid_parse_str :: "string \<Rightarrow> uuid option"
  base64_encode :: "bytes \<Rightarrow> string"
  base64_decode :: "string \<Rightarrow> bytes option"
  json_agent_message :: "string \<Rightarrow> agent_message option"
  json_relay_message :: "relay_message \<Rightarrow> string option"
  header_to_str :: "string \<Rightarrow> string option"
  show_db_error :: "db_error \<Rightarrow> string"

definition uuid_text_ok :: "ext \<Rightarrow> bool" where
  "uuid_text_ok x \<longleftrightarrow> (\<forall>u. uuid_parse_str x (uuid_to_string x u) = Some u)"

definition base64_ok :: "ext \<Rightarrow> bool" where
  "base64_ok x \<longleftrightarrow> (\<forall>bs. base64_decode x (base64_encode x bs) = Some bs)"

lemma uuid_text_inject: "uuid_text_ok x \<Longrightarrow> uuid_to_string x u = uuid_to_string x v \<longleftrightarrow> u = v"
  by (metis option.inject uuid_text_ok_def)

lemma uuid_parse_to_string [simp]: "uuid_text_ok x \<Longrightarrow> uuid_parse_str x (uuid_to_string x u) = Some u"
  by (simp add: uuid_text_ok_def)

lemma base64_roundtrip [simp]: "base64_ok x \<Longrightarrow> base64_decode x (base64_encode x bs) = Some bs"
  by (simp add: base64_ok_def)

end
