(* ===== verification/Rust_Std.thy ===== *)
theory Rust_Std
  imports Relay_Prelude
begin

text \<open>
  The part of Rust's standard library the relay calls on strings and hashes, over UTF-8
  bytes.

  \<^item> \<open>str_trim\<close>: \<open>str::trim\<close>, which strips the characters of Unicode's \<open>White_Space\<close>. The
    encodings of these characters are listed, so a byte-wise strip is exact on UTF-8.
  \<^item> \<open>ascii_lower\<close>: SQLite's \<open>LOWER\<close>, and \<open>str::to_lowercase\<close> where the result is
    compared with an ASCII word that no other character lowers to.
  \<^item> \<open>fmt_radix\<close>: the digits that \<open>{}\<close> and \<open>{:x}\<close> print; \<open>pad_zeros\<close>: the width of \<open>{:06}\<close>.
  \<^item> \<open>siphash\<close>: SipHash with its round counts as arguments. \<open>default_hash\<close> is what
    \<open>DefaultHasher::new()\<close> followed by \<open>Hash for str\<close> and \<open>finish\<close> computes: SipHash-1-3
    under the zero key, over the string's bytes and one byte 255.
\<close>

unbundle bit_operations_syntax

section \<open>Trimming\<close>

definition white_space :: "string list" where
  "white_space =
     [[CHR 0x09], [CHR 0x0A], [CHR 0x0B], [CHR 0x0C], [CHR 0x0D], [CHR 0x20],
      [CHR 0xC2, CHR 0x85], [CHR 0xC2, CHR 0xA0], [CHR 0xE1, CHR 0x9A, CHR 0x80]]
     @ map (\<lambda>b. [CHR 0xE2, CHR 0x80, b])
         [CHR 0x80, CHR 0x81, CHR 0x82, CHR 0x83, CHR 0x84, CHR 0x85, CHR 0x86, CHR 0x87,
          CHR 0x88, CHR 0x89, CHR 0x8A, CHR 0xA8, CHR 0xA9, CHR 0xAF]
     @ [[CHR 0xE2, CHR 0x81, CHR 0x9F], [CHR 0xE3, CHR 0x80, CHR 0x80]]"

function strip_front :: "string list \<Rightarrow> string \<Rightarrow> string" where
  "strip_front ws s =
     (case find (\<lambda>w. w \<noteq> [] \<and> prefix w s) ws of
        None \<Rightarrow> s
      | Some w \<Rightarrow> strip_front ws (drop (length w) s))"
  by pat_completeness auto
termination
proof (relation "measure (\<lambda>(ws, s). length s)")
  fix ws s w
  assume "find (\<lambda>w. w \<noteq> [] \<and> prefix w s) ws = Some w"
  then have "w \<noteq> []" and "prefix w s" by (auto simp: find_Some_iff)
  then have "0 < length w" and "0 < length s" by (auto dest: prefix_length_le)
  then show "((ws, drop (length w) s), (ws, s)) \<in> measure (\<lambda>(ws, s). length s)" by simp
qed simp

declare strip_front.simps [simp del]

definition trim_start :: "string \<Rightarrow> string" where
  "trim_start s = strip_front white_space s"

definition trim_end :: "string \<Rightarrow> string" where
  "trim_end s = rev (strip_front (map rev white_space) (rev s))"

definition str_trim :: "string \<Rightarrow> string" where
  "str_trim s = trim_end (trim_start s)"

lemma strip_front_suffix: "suffix (strip_front ws s) s"
proof (induction ws s rule: strip_front.induct)
  case (1 ws s)
  show ?case
  proof (cases "find (\<lambda>w. w \<noteq> [] \<and> prefix w s) ws")
    case None
    then show ?thesis by (simp add: strip_front.simps [of ws s])
  next
    case (Some w)
    with 1 have "suffix (strip_front ws (drop (length w) s)) (drop (length w) s)" by blast
    then have "suffix (strip_front ws (drop (length w) s)) s"
      using suffix_drop suffix_order.trans by blast
    with Some show ?thesis by (simp add: strip_front.simps [of ws s])
  qed
qed

lemma strip_front_none:
  "w \<in> set ws \<Longrightarrow> w \<noteq> [] \<Longrightarrow> \<not> prefix w (strip_front ws s)"
proof (induction ws s rule: strip_front.induct)
  case (1 ws s)
  show ?case
  proof (cases "find (\<lambda>w. w \<noteq> [] \<and> prefix w s) ws")
    case None
    with 1(2,3) have "\<not> prefix w s" by (auto simp: find_None_iff)
    with None show ?thesis by (simp add: strip_front.simps [of ws s])
  next
    case (Some w')
    with 1 show ?thesis by (simp add: strip_front.simps [of ws s])
  qed
qed

lemma strip_front_id:
  "(\<And>w. w \<in> set ws \<Longrightarrow> w \<noteq> [] \<Longrightarrow> \<not> prefix w s) \<Longrightarrow> strip_front ws s = s"
  by (subst strip_front.simps) (auto simp: find_None_iff split: option.splits dest: find_Some_iff [THEN iffD1])

lemma trim_end_prefix: "prefix (trim_end s) s"
  unfolding trim_end_def using strip_front_suffix [of "map rev white_space" "rev s"]
  by (simp add: suffix_to_prefix)

lemma trim_start_suffix: "suffix (trim_start s) s"
  by (simp add: trim_start_def strip_front_suffix)

lemma trim_no_leading: "w \<in> set white_space \<Longrightarrow> w \<noteq> [] \<Longrightarrow> \<not> prefix w (str_trim s)"
  unfolding str_trim_def trim_start_def
  using strip_front_none trim_end_prefix prefix_order.trans by metis

lemma trim_no_trailing: "w \<in> set white_space \<Longrightarrow> w \<noteq> [] \<Longrightarrow> \<not> suffix w (str_trim s)"
  unfolding str_trim_def trim_end_def
  using strip_front_none [of "rev w" "map rev white_space"] by (simp add: suffix_to_prefix)

lemma str_trim_idem: "str_trim (str_trim s) = str_trim s"
proof -
  have "trim_start (str_trim s) = str_trim s"
    using trim_no_leading by (auto simp: trim_start_def intro!: strip_front_id)
  moreover have "trim_end (str_trim s) = str_trim s"
  proof -
    have "\<not> prefix (rev w) (rev (str_trim s))" if "w \<in> set white_space" "w \<noteq> []" for w
      using trim_no_trailing [OF that] by (simp add: suffix_to_prefix)
    then have "strip_front (map rev white_space) (rev (str_trim s)) = rev (str_trim s)"
      by (intro strip_front_id) auto
    then show ?thesis by (simp add: trim_end_def)
  qed
  ultimately show ?thesis by (simp add: str_trim_def)
qed

lemma length_str_trim: "length (str_trim s) \<le> length s"
  unfolding str_trim_def
  using trim_end_prefix [THEN prefix_length_le] trim_start_suffix [THEN suffix_length_le] le_trans
  by blast

text \<open>A text of printable ASCII characters other than the space has nothing to trim.\<close>

definition graphic :: "string \<Rightarrow> bool" where
  "graphic s \<longleftrightarrow> (\<forall>c \<in> set s. (33 :: nat) \<le> of_char c \<and> (of_char c :: nat) \<le> 126)"

lemma white_space_ends:
  "w \<in> set white_space \<Longrightarrow> w \<noteq> [] \<and> \<not> graphic [hd w] \<and> \<not> graphic [last w]"
proof -
  have "list_all (\<lambda>w. w \<noteq> [] \<and> \<not> graphic [hd w] \<and> \<not> graphic [last w]) white_space"
    by (simp add: white_space_def graphic_def)
  then show "w \<in> set white_space \<Longrightarrow> ?thesis" by (auto simp: list_all_iff)
qed

lemma str_trim_graphic:
  assumes "graphic s"
  shows "str_trim s = s"
proof -
  have "trim_start s = s"
    unfolding trim_start_def
  proof (rule strip_front_id, rule notI)
    fix w assume "w \<in> set white_space" "w \<noteq> []" "prefix w s"
    then have "hd w \<in> set s" by (metis hd_in_set set_mono_prefix subset_code(1))
    with assms white_space_ends [OF \<open>w \<in> set white_space\<close>] show False by (simp add: graphic_def)
  qed
  moreover have "trim_end s = s"
  proof -
    have "strip_front (map rev white_space) (rev s) = rev s"
    proof (rule strip_front_id, rule notI)
      fix w assume w: "w \<in> set (map rev white_space)" "w \<noteq> []" "prefix w (rev s)"
      then have v: "rev w \<in> set white_space" by auto
      from w have "hd w \<in> set s" by (metis hd_in_set set_mono_prefix set_rev subset_code(1))
      moreover have "last (rev w) = hd w" using w(2) by (simp add: last_rev)
      ultimately show False using assms white_space_ends [OF v] by (simp add: graphic_def)
    qed
    then show ?thesis by (simp add: trim_end_def)
  qed
  ultimately show ?thesis by (simp add: str_trim_def)
qed
section \<open>ASCII case\<close>

definition lower_char :: "char \<Rightarrow> char" where
  "lower_char c = (let n = of_char c :: nat in if 65 \<le> n \<and> n \<le> 90 then char_of (n + 32) else c)"

definition ascii_lower :: "string \<Rightarrow> string" where
  "ascii_lower s = map lower_char s"

lemma lower_char_idem: "lower_char (lower_char c) = lower_char c"
  by (simp add: lower_char_def Let_def)

lemma ascii_lower_idem: "ascii_lower (ascii_lower s) = ascii_lower s"
  by (simp add: ascii_lower_def lower_char_idem)

section \<open>Number formatting\<close>

definition digit_char :: "nat \<Rightarrow> char" where
  "digit_char d = ''0123456789abcdef'' ! d"

fun fmt_radix :: "nat \<Rightarrow> nat \<Rightarrow> string" where
  "fmt_radix b n =
     (if n < b \<or> b < 2 then [digit_char n] else fmt_radix b (n div b) @ [digit_char (n mod b)])"

declare fmt_radix.simps [simp del]

abbreviation fmt_dec :: "nat \<Rightarrow> string" where "fmt_dec \<equiv> fmt_radix 10"
abbreviation fmt_hex :: "nat \<Rightarrow> string" where "fmt_hex \<equiv> fmt_radix 16"

definition pad_zeros :: "nat \<Rightarrow> string \<Rightarrow> string" where
  "pad_zeros w s = replicate (w - length s) (CHR ''0'') @ s"

definition digit_val :: "char \<Rightarrow> nat" where
  "digit_val c = (let n = of_char c in if n < 58 then n - 48 else n - 87)"

definition parse_radix :: "nat \<Rightarrow> string \<Rightarrow> nat" where
  "parse_radix b s = foldl (\<lambda>acc c. acc * b + digit_val c) 0 s"

lemma digit_val_digit_char:
  assumes "d < 16"
  shows "digit_val (digit_char d) = d"
proof -
  have "\<forall>d \<in> set [0..<16]. digit_val (digit_char d) = d" by code_simp
  with assms show ?thesis by simp
qed

lemma parse_fmt_radix: "2 \<le> b \<Longrightarrow> b \<le> 16 \<Longrightarrow> parse_radix b (fmt_radix b n) = n"
proof (induction b n rule: fmt_radix.induct)
  case (1 b n)
  show ?case
  proof (cases "n < b")
    case True
    with 1(2,3) show ?thesis
      by (simp add: fmt_radix.simps [of b n] parse_radix_def digit_val_digit_char)
  next
    case False
    with 1 have IH: "parse_radix b (fmt_radix b (n div b)) = n div b" by simp
    have "digit_val (digit_char (n mod b)) = n mod b"
    proof (rule digit_val_digit_char)
      have "n mod b < b" using 1(2) by simp
      then show "n mod b < 16" using 1(3) by simp
    qed
    with False 1(2) IH show ?thesis
      by (simp add: fmt_radix.simps [of b n] parse_radix_def)
  qed
qed

lemma fmt_radix_inject: "2 \<le> b \<Longrightarrow> b \<le> 16 \<Longrightarrow> fmt_radix b m = fmt_radix b n \<longleftrightarrow> m = n"
  using parse_fmt_radix by metis

lemma length_fmt_radix: "2 \<le> b \<Longrightarrow> n < b ^ k \<Longrightarrow> 0 < k \<Longrightarrow> length (fmt_radix b n) \<le> k"
proof (induction k arbitrary: n)
  case 0
  then show ?case by simp
next
  case (Suc k)
  show ?case
  proof (cases "n < b")
    case True
    then show ?thesis by (simp add: fmt_radix.simps [of b n])
  next
    case False
    with Suc.prems(2) have "0 < k" by (cases k) auto
    moreover have "n div b < b ^ k"
      using Suc.prems(1,2) by (simp add: less_mult_imp_div_less mult.commute)
    ultimately have "length (fmt_radix b (n div b)) \<le> k" using Suc.IH Suc.prems(1) by blast
    with False Suc.prems(1) show ?thesis by (simp add: fmt_radix.simps [of b n])
  qed
qed

lemma set_fmt_radix: "2 \<le> b \<Longrightarrow> set (fmt_radix b n) \<subseteq> digit_char ` {..<b}"
proof (induction b n rule: fmt_radix.induct)
  case (1 b n)
  show ?case
  proof (cases "n < b")
    case True
    then show ?thesis by (simp add: fmt_radix.simps [of b n])
  next
    case False
    with 1 have "set (fmt_radix b (n div b)) \<subseteq> digit_char ` {..<b}" by simp
    with False 1(2) show ?thesis by (simp add: fmt_radix.simps [of b n])
  qed
qed

lemma set_pad_zeros: "set (pad_zeros w s) \<subseteq> insert (CHR ''0'') (set s)"
  by (auto simp: pad_zeros_def)

lemma parse_pad_zeros: "parse_radix b (pad_zeros w s) = parse_radix b s"
proof -
  have "foldl (\<lambda>acc c. acc * b + digit_val c) 0 (replicate k (CHR ''0'') @ s) = parse_radix b s" for k
    by (induction k) (simp_all add: parse_radix_def digit_val_def)
  then show ?thesis by (simp add: pad_zeros_def parse_radix_def)
qed

lemma length_pad_zeros: "length s \<le> w \<Longrightarrow> length (pad_zeros w s) = w"
  by (simp add: pad_zeros_def)

text \<open>\<open>replace('-', "")\<close> on a string.\<close>

definition remove_dashes :: "string \<Rightarrow> string" where
  "remove_dashes s = filter (\<lambda>c. c \<noteq> CHR ''-'') s"

section \<open>SipHash\<close>

record sip =
  v0 :: u64
  v1 :: u64
  v2 :: u64
  v3 :: u64

definition rotate_left :: "nat \<Rightarrow> u64 \<Rightarrow> u64" where
  "rotate_left n w = push_bit n w OR drop_bit (64 - n) w"

definition sip_round :: "sip \<Rightarrow> sip" where
  "sip_round s =
     (let a0 = v0 s + v1 s; b1 = rotate_left 13 (v1 s) XOR a0; a0 = rotate_left 32 a0;
          a2 = v2 s + v3 s; b3 = rotate_left 16 (v3 s) XOR a2;
          a0 = a0 + b3; b3 = rotate_left 21 b3 XOR a0;
          a2 = a2 + b1; b1 = rotate_left 17 b1 XOR a2; a2 = rotate_left 32 a2
      in \<lparr>v0 = a0, v1 = b1, v2 = a2, v3 = b3\<rparr>)"

definition load_le :: "bytes \<Rightarrow> u64" where
  "load_le bs = foldr (\<lambda>b acc. ucast b OR push_bit 8 acc) bs 0"

definition sip_block :: "nat \<Rightarrow> sip \<Rightarrow> u64 \<Rightarrow> sip" where
  "sip_block c s m =
     (let s = (sip_round ^^ c) (s\<lparr>v3 := v3 s XOR m\<rparr>) in s\<lparr>v0 := v0 s XOR m\<rparr>)"

fun sip_blocks :: "nat \<Rightarrow> sip \<Rightarrow> bytes \<Rightarrow> sip \<times> bytes" where
  "sip_blocks c s bs =
     (if length bs < 8 then (s, bs)
      else sip_blocks c (sip_block c s (load_le (take 8 bs))) (drop 8 bs))"

declare sip_blocks.simps [simp del]

definition siphash :: "nat \<Rightarrow> nat \<Rightarrow> u64 \<Rightarrow> u64 \<Rightarrow> bytes \<Rightarrow> u64" where
  "siphash c d k0 k1 bs =
     (let s0 = \<lparr>v0 = k0 XOR 0x736f6d6570736575, v1 = k1 XOR 0x646f72616e646f6d,
                v2 = k0 XOR 0x6c7967656e657261, v3 = k1 XOR 0x7465646279746573\<rparr>;
          (s, tail) = sip_blocks c s0 bs;
          b = push_bit 56 (of_nat (length bs)) OR load_le tail;
          s = sip_block c s b;
          s = (sip_round ^^ d) (s\<lparr>v2 := v2 s XOR 0xff\<rparr>)
      in v0 s XOR v1 s XOR v2 s XOR v3 s)"

definition str_bytes :: "string \<Rightarrow> bytes" where
  "str_bytes s = map of_char s"

definition default_hash :: "string \<Rightarrow> u64" where
  "default_hash s = siphash 1 3 0 0 (str_bytes s @ [0xff])"

text \<open>
  Evaluation rules that run a hash on literals, and the published vectors: SipHash-2-4 of the
  bytes 0 to 14 under the key 0 to 15, from the paper that defines it, and SipHash-1-3 of the
  empty input under that key, from the tests of Rust's core library.
\<close>

lemma funpow_small:
  "(f ^^ 2) x = f (f x)" "(f ^^ 3) x = f (f (f x))" "(f ^^ 4) x = f (f (f (f x)))"
  by (simp_all add: eval_nat_numeral)

lemma sip_round_eval:
  "sip_round \<lparr>v0 = a, v1 = b, v2 = c, v3 = d\<rparr> =
     (let a0 = a + b; b1 = rotate_left 13 b XOR a0; a0 = rotate_left 32 a0;
          a2 = c + d; b3 = rotate_left 16 d XOR a2;
          a0 = a0 + b3; b3 = rotate_left 21 b3 XOR a0;
          a2 = a2 + b1; b1 = rotate_left 17 b1 XOR a2; a2 = rotate_left 32 a2
      in \<lparr>v0 = a0, v1 = b1, v2 = a2, v3 = b3\<rparr>)"
  by (simp add: sip_round_def Let_def)

lemma rotate_left_eval:
  "rotate_left n (numeral k) = push_bit n (numeral k) OR drop_bit (64 - n) (numeral k)"
  by (simp add: rotate_left_def)

lemma sip_block_eval:
  "sip_block n \<lparr>v0 = a, v1 = b, v2 = c, v3 = d\<rparr> m =
     (let s = (sip_round ^^ n) \<lparr>v0 = a, v1 = b, v2 = c, v3 = d XOR m\<rparr> in s\<lparr>v0 := v0 s XOR m\<rparr>)"
  by (simp add: sip_block_def)

lemmas sip_eval = siphash_def sip_blocks.simps load_le_def sip_block_eval funpow_small
  sip_round_eval rotate_left_eval

lemma siphash_2_4_vector:
  "siphash 2 4 0x0706050403020100 0x0f0e0d0c0b0a0908 [0,1,2,3,4,5,6,7,8,9,10,11,12,13,14]
     = 0xa129ca6149be45e5"
  by (simp add: sip_eval)

lemma siphash_1_3_vector:
  "siphash 1 3 0x0706050403020100 0x0f0e0d0c0b0a0908 [] = 0xabac0158050fc4dc"
  by (simp add: sip_eval)

end
