(* ===== verification/Db_Core.thy ===== *)
theory Db_Core
  imports Protocol Rust_Std
begin

text \<open>
  The SQLite connection of \<open>src/db.rs\<close>: the rows of its three tables, the way a statement
  runs, and the well-formedness the schema's constraints give.

  A table is the list of its rows in rowid order. Every SQL statement of the source is an
  update or a query of the tables that either succeeds or fails and leaves them unchanged;
  \<open>exec_sql\<close> and \<open>query_sql\<close> run one on a connection. The record \<open>host\<close> holds what the
  process gets from outside, each as the sequence of its answers and the number already
  used: random UUIDs, the system clock in seconds from the Unix epoch (negative before it),
  and, per statement, an I/O failure of the database or none. Whether foreign keys are
  enforced is a build option of SQLite, kept as \<open>fk_enforced\<close>.
\<close>

section \<open>Rows and records\<close>

record user_record =
  ur_id :: string
  ur_username :: string
  ur_dedicated_port :: u16
  ur_is_banned :: bool
  ur_created_at :: int

record user_row = user_record +
  ur_password_hash :: string

record agent_record =
  ar_id :: string
  ar_user_id :: "string option"
  ar_token :: string
  ar_claim_code :: "string option"
  ar_name :: string
  ar_created_at :: int
  ar_last_seen :: int
  ar_is_online :: bool

text \<open>
  A stored counter: SQLite keeps an \<open>INTEGER\<close> of 64 bits and turns the sum of two into a
  floating-point value when it leaves that range.
\<close>

datatype sql_num = SqlInt int | SqlReal

record tunnel_row =
  t_id :: string
  t_agent_id :: string
  t_user_id :: "string option"
  t_name :: string
  t_local_port :: u16
  t_protocol :: string
  t_public_port :: u16
  t_subdomain :: "string option"
  t_enabled :: bool
  t_bytes_in :: sql_num
  t_bytes_out :: sql_num
  t_created_at :: int

record tunnel_record =
  tr_id :: string
  tr_agent_id :: string
  tr_user_id :: "string option"
  tr_name :: string
  tr_local_port :: u16
  tr_protocol :: string
  tr_public_port :: u16
  tr_subdomain :: "string option"
  tr_enabled :: bool
  tr_bytes_in :: u64
  tr_bytes_out :: u64
  tr_created_at :: int

record tables =
  users :: "user_row list"
  agents :: "agent_record list"
  tunnels :: "tunnel_row list"

record host =
  entropy :: "nat \<Rightarrow> uuid"
  draws :: nat
  clock :: "nat \<Rightarrow> int"
  ticks :: nat
  io_failure :: "nat \<Rightarrow> nat option"
  stmts :: nat

record conn =
  tabs :: tables
  host_of :: host
  fk_enforced :: bool

section \<open>Randomness, time and statements\<close>

definition new_v4 :: "(conn, uuid, 'e) prog" where
  "new_v4 = (\<lambda>c. (Ok (entropy (host_of c) (draws (host_of c))),
                  c\<lparr>host_of := (host_of c)\<lparr>draws := draws (host_of c) + 1\<rparr>\<rparr>))"

text \<open>
  \<open>SystemTime::now().duration_since(UNIX_EPOCH).unwrap().as_secs() as i64\<close>: a clock before
  the epoch panics, the cast keeps the low 64 bits as a signed value.
\<close>

definition now_secs :: "(conn, int, 'e) prog" where
  "now_secs = (\<lambda>c. let t = clock (host_of c) (ticks (host_of c));
                       d = c\<lparr>host_of := (host_of c)\<lparr>ticks := ticks (host_of c) + 1\<rparr>\<rparr>
                   in if t < 0 then (Panic, d) else (Ok (signed_take_bit 63 t), d))"

definition next_stmt :: "conn \<Rightarrow> conn" where
  "next_stmt c = c\<lparr>host_of := (host_of c)\<lparr>stmts := stmts (host_of c) + 1\<rparr>\<rparr>"

definition query_sql :: "(tables \<Rightarrow> ('a, db_error) result) \<Rightarrow> (conn, 'a, db_error) prog" where
  "query_sql f = (\<lambda>c. case io_failure (host_of c) (stmts (host_of c)) of
      Some e \<Rightarrow> (Err (IoFailure e), next_stmt c)
    | None \<Rightarrow> (f (tabs c), next_stmt c))"

definition exec_sql ::
  "(bool \<Rightarrow> tables \<Rightarrow> (tables, db_error) result) \<Rightarrow> (conn, unit, db_error) prog" where
  "exec_sql f = (\<lambda>c. case io_failure (host_of c) (stmts (host_of c)) of
      Some e \<Rightarrow> (Err (IoFailure e), next_stmt c)
    | None \<Rightarrow> (case f (fk_enforced c) (tabs c) of
          Ok t \<Rightarrow> (Ok (), (next_stmt c)\<lparr>tabs := t\<rparr>)
        | Err e \<Rightarrow> (Err e, next_stmt c)
        | Panic \<Rightarrow> (Panic, next_stmt c)))"

text \<open>\<open>for r in iter { list.push(r?) }\<close>.\<close>

fun collect :: "('r \<Rightarrow> ('a, 'e) result) \<Rightarrow> 'r list \<Rightarrow> ('a list, 'e) result" where
  "collect f [] = Ok []"
| "collect f (r # rs) =
     (case f r of
        Ok x \<Rightarrow> (case collect f rs of Ok xs \<Rightarrow> Ok (x # xs) | Err e \<Rightarrow> Err e | Panic \<Rightarrow> Panic)
      | Err e \<Rightarrow> Err e
      | Panic \<Rightarrow> Panic)"

lemma collect_total: "(\<And>r. r \<in> set rs \<Longrightarrow> f r = Ok (g r)) \<Longrightarrow> collect f rs = Ok (map g rs)"
  by (induction rs) auto

lemma collect_eq_Ok: "collect f rs = Ok xs \<longleftrightarrow> list_all2 (\<lambda>r x. f r = Ok x) rs xs"
  by (induction rs arbitrary: xs) (auto simp: list_all2_Cons1 split: result.splits, metis result.inject(1))

section \<open>Frames\<close>

text \<open>What stays fixed in every step of the connection: the outside world's answers and the
  foreign-key option.\<close>

definition same_world :: "conn \<Rightarrow> conn \<Rightarrow> bool" where
  "same_world c d \<longleftrightarrow> entropy (host_of d) = entropy (host_of c) \<and> clock (host_of d) = clock (host_of c)
     \<and> io_failure (host_of d) = io_failure (host_of c) \<and> fk_enforced d = fk_enforced c"

definition same_tables :: "conn \<Rightarrow> conn \<Rightarrow> bool" where
  "same_tables c d \<longleftrightarrow> tabs d = tabs c"

interpretation world: step_rel same_world
  by unfold_locales (auto simp: same_world_def)

interpretation tables_kept: step_rel same_tables
  by unfold_locales (auto simp: same_tables_def)

lemma new_v4_world [steps]: "obeys same_world new_v4"
  by (simp add: obeys_def new_v4_def same_world_def)

lemma new_v4_tables [steps]: "obeys same_tables new_v4"
  by (simp add: obeys_def new_v4_def same_tables_def)

lemma now_secs_world [steps]: "obeys same_world now_secs"
  by (simp add: obeys_def now_secs_def same_world_def Let_def)

lemma now_secs_tables [steps]: "obeys same_tables now_secs"
  by (simp add: obeys_def now_secs_def same_tables_def Let_def)

lemma query_sql_world [steps]: "obeys same_world (query_sql f)"
  by (simp add: obeys_def query_sql_def next_stmt_def same_world_def split: option.split)

lemma query_sql_tables [steps]: "obeys same_tables (query_sql f)"
  by (simp add: obeys_def query_sql_def next_stmt_def same_tables_def split: option.split)

lemma exec_sql_world [steps]: "obeys same_world (exec_sql f)"
  by (simp add: obeys_def exec_sql_def next_stmt_def same_world_def split: option.split result.split)

lemma next_stmt_frame [simp]: "tabs (next_stmt c) = tabs c" "fk_enforced (next_stmt c) = fk_enforced c"
  by (simp_all add: next_stmt_def)

lemma query_sql_eq_Ok:
  "query_sql f c = (Ok x, d) \<longleftrightarrow>
     io_failure (host_of c) (stmts (host_of c)) = None \<and> f (tabs c) = Ok x \<and> d = next_stmt c"
  by (auto simp: query_sql_def split: option.splits)

lemma exec_sql_eq_Ok:
  "exec_sql f c = (Ok u, d) \<longleftrightarrow>
     io_failure (host_of c) (stmts (host_of c)) = None
     \<and> (\<exists>t. f (fk_enforced c) (tabs c) = Ok t \<and> d = (next_stmt c)\<lparr>tabs := t\<rparr>)"
  by (auto simp: exec_sql_def split: option.splits result.splits)

lemma exec_sql_failed: "exec_sql f c = (r, d) \<Longrightarrow> r \<noteq> Ok () \<Longrightarrow> tabs d = tabs c"
  by (auto simp: exec_sql_def split: option.splits result.splits)

text \<open>The database has no I/O failure.\<close>

definition reliable :: "conn \<Rightarrow> bool" where
  "reliable c \<longleftrightarrow> (\<forall>n. io_failure (host_of c) n = None)"

text \<open>The clock is never before the epoch.\<close>

definition clock_ok :: "conn \<Rightarrow> bool" where
  "clock_ok c \<longleftrightarrow> (\<forall>n. 0 \<le> clock (host_of c) n)"

lemma reliable_query [simp]: "reliable c \<Longrightarrow> query_sql f c = (f (tabs c), next_stmt c)"
  by (simp add: query_sql_def reliable_def)

lemma reliable_exec:
  "reliable c \<Longrightarrow> exec_sql f c = (case f (fk_enforced c) (tabs c) of
      Ok t \<Rightarrow> (Ok (), (next_stmt c)\<lparr>tabs := t\<rparr>) | Err e \<Rightarrow> (Err e, next_stmt c)
    | Panic \<Rightarrow> (Panic, next_stmt c))"
  by (simp add: exec_sql_def reliable_def)

lemma same_world_reliable: "same_world c d \<Longrightarrow> reliable d = reliable c"
  by (simp add: same_world_def reliable_def)

lemma same_world_clock: "same_world c d \<Longrightarrow> clock_ok d = clock_ok c"
  by (simp add: same_world_def clock_ok_def)

lemma reliable_next_stmt [simp]: "reliable (next_stmt c) = reliable c"
  by (simp add: reliable_def next_stmt_def)

lemma reliable_tabs [simp]: "reliable (c\<lparr>tabs := t\<rparr>) = reliable c"
  by (simp add: reliable_def)

section \<open>Well-formed tables\<close>

definition tables_wf :: "tables \<Rightarrow> bool" where
  "tables_wf t \<longleftrightarrow>
     distinct (map ur_id (users t)) \<and> distinct (map ur_username (users t))
   \<and> distinct (map ur_dedicated_port (users t))
   \<and> distinct (map ar_id (agents t)) \<and> distinct (map ar_token (agents t))
   \<and> distinct (map t_id (tunnels t))"

definition user_ref_ok :: "tables \<Rightarrow> string option \<Rightarrow> bool" where
  "user_ref_ok t r \<longleftrightarrow> (case r of None \<Rightarrow> True | Some u \<Rightarrow> u \<in> ur_id ` set (users t))"

lemma user_ref_ok_frame [simp]:
  "user_ref_ok (t\<lparr>agents := as\<rparr>) r = user_ref_ok t r"
  "user_ref_ok (t\<lparr>tunnels := ts\<rparr>) r = user_ref_ok t r"
  "user_ref_ok (t\<lparr>agents := as, tunnels := ts\<rparr>) r = user_ref_ok t r"
  by (simp_all add: user_ref_ok_def split: option.split)

definition refs_wf :: "tables \<Rightarrow> bool" where
  "refs_wf t \<longleftrightarrow>
     (\<forall>a \<in> set (agents t). user_ref_ok t (ar_user_id a))
   \<and> (\<forall>k \<in> set (tunnels t). t_agent_id k \<in> ar_id ` set (agents t) \<and> user_ref_ok t (t_user_id k))"

interpretation user_ids: unique_key ur_id users tables_wf
  by unfold_locales (simp add: tables_wf_def)

interpretation usernames: unique_key ur_username users tables_wf
  by unfold_locales (simp add: tables_wf_def)

interpretation dedicated_ports: unique_key ur_dedicated_port users tables_wf
  by unfold_locales (simp add: tables_wf_def)

interpretation agent_ids: unique_key ar_id agents tables_wf
  by unfold_locales (simp add: tables_wf_def)

interpretation agent_tokens: unique_key ar_token agents tables_wf
  by unfold_locales (simp add: tables_wf_def)

interpretation tunnel_ids: unique_key t_id tunnels tables_wf
  by unfold_locales (simp add: tables_wf_def)

text \<open>The two preservation relations the operations are shown to respect.\<close>

definition wf_step :: "conn \<Rightarrow> conn \<Rightarrow> bool" where
  "wf_step c d \<longleftrightarrow> (tables_wf (tabs c) \<longrightarrow> tables_wf (tabs d))"

definition refs_step :: "conn \<Rightarrow> conn \<Rightarrow> bool" where
  "refs_step c d \<longleftrightarrow> fk_enforced d = fk_enforced c
     \<and> (fk_enforced c \<and> refs_wf (tabs c) \<longrightarrow> refs_wf (tabs d))"

interpretation wf_kept: step_rel wf_step
  by unfold_locales (auto simp: wf_step_def)

interpretation refs_kept: step_rel refs_step
  by unfold_locales (auto simp: refs_step_def)

lemma same_tables_wf: "obeys same_tables m \<Longrightarrow> obeys wf_step m"
  by (simp add: obeys_def same_tables_def wf_step_def)

lemma same_tables_refs: "obeys same_tables m \<Longrightarrow> obeys same_world m \<Longrightarrow> obeys refs_step m"
  by (simp add: obeys_def same_tables_def same_world_def refs_step_def)

lemma exec_sql_wf:
  "(\<And>b t t'. f b t = Ok t' \<Longrightarrow> tables_wf t \<Longrightarrow> tables_wf t') \<Longrightarrow> obeys wf_step (exec_sql f)"
  by (auto simp: obeys_def exec_sql_def wf_step_def split: option.split result.split)

lemma exec_sql_refs:
  "(\<And>t t'. f True t = Ok t' \<Longrightarrow> refs_wf t \<Longrightarrow> refs_wf t') \<Longrightarrow> obeys refs_step (exec_sql f)"
  by (fastforce simp: obeys_def exec_sql_def refs_step_def split: option.split result.split)

end
