(* ===== verification/Db_Users.thy ===== *)
theory Db_Users
  imports Db_Core
begin

text \<open>
  The user functions of \<open>src/db.rs\<close>: password hashing, the choice of a dedicated port,
  registration, verification, lookup, listing and banning.

  The port arithmetic is that of a release build, in 16-bit words that wrap around; the
  remainder by zero panics in every build. The lemmas show that a chosen port is fresh and in
  pr, when the search succeeds, that registration keeps the tables well formed, and that a
  registered user verifies with the password given and no other hash.
\<close>

section \<open>Passwords\<close>

definition hash_password :: "string \<Rightarrow> string" where
  "hash_password password = fmt_hex (unat (default_hash (''salt_090909_'' @ password)))"

lemma hash_password_length: "length (hash_password pw) \<le> 16"
  unfolding hash_password_def
  by (rule length_fmt_radix) (use unsigned_less [where 'b = 64] in \<open>auto simp: power_mult\<close>)

lemma hash_password_eq:
  "hash_password p = hash_password q \<longleftrightarrow>
     default_hash (''salt_090909_'' @ p) = default_hash (''salt_090909_'' @ q)"
  unfolding hash_password_def by (simp add: fmt_radix_inject word_unat_eq_iff [symmetric])

section \<open>The dedicated port\<close>

definition count_port :: "u16 \<Rightarrow> (conn, nat, db_error) prog" where
  "count_port p = query_sql (\<lambda>t. Ok (length (filter (\<lambda>r. ur_dedicated_port r = p) (users t))))"

definition port_list :: "u16 \<times> u16 \<Rightarrow> u16 list" where
  "port_list pr = map of_nat [unat (fst pr)..<Suc (unat (snd pr))]"

primrec random_port :: "nat \<Rightarrow> u16 \<times> u16 \<Rightarrow> (conn, u16 option, db_error) prog" where
  "random_port 0 pr = ret None"
| "random_port (Suc n) pr =
     and_then new_v4 (\<lambda>u.
     let span = snd pr - fst pr in
     if span = 0 then panic
     else let port = ucast (u mod ucast span) + fst pr in
       and_then (count_port port) (\<lambda>count.
       if count = 0 then ret (Some port) else random_port n pr))"

primrec sequential_port :: "u16 list \<Rightarrow> (conn, u16 option, db_error) prog" where
  "sequential_port [] = ret None"
| "sequential_port (p # ps) =
     and_then (count_port p) (\<lambda>count. if count = 0 then ret (Some p) else sequential_port ps)"

definition generate_unique_dedicated_port :: "u16 \<times> u16 \<Rightarrow> (conn, u16, db_error) prog" where
  "generate_unique_dedicated_port pr =
     and_then (random_port 1000 pr) (\<lambda>found.
     case found of
       Some port \<Rightarrow> ret port
     | None \<Rightarrow>
         and_then (sequential_port (port_list pr)) (\<lambda>found.
         case found of
           Some p \<Rightarrow> ret p
         | None \<Rightarrow> throw QueryReturnedNoRows))"

section \<open>Registration and the other statements\<close>

definition insert_user :: "user_row \<Rightarrow> bool \<Rightarrow> tables \<Rightarrow> (tables, db_error) result" where
  "insert_user r fk t =
     (if ur_id r \<in> set (map ur_id (users t)) then Err (UniqueViolation ''users.id'')
      else if ur_username r \<in> set (map ur_username (users t))
        then Err (UniqueViolation ''users.username'')
      else if ur_dedicated_port r \<in> set (map ur_dedicated_port (users t))
        then Err (UniqueViolation ''users.dedicated_port'')
      else Ok (t\<lparr>users := users t @ [r]\<rparr>))"

definition user_of_row :: "user_row \<Rightarrow> user_record" where
  "user_of_row r = \<lparr>ur_id = ur_id r, ur_username = ur_username r,
     ur_dedicated_port = ur_dedicated_port r, ur_is_banned = ur_is_banned r,
     ur_created_at = ur_created_at r\<rparr>"

definition register_user ::
  "ext \<Rightarrow> string \<Rightarrow> string \<Rightarrow> u16 \<times> u16 \<Rightarrow> (conn, user_record, db_error) prog" where
  "register_user x username password pr =
     and_then new_v4 (\<lambda>u.
     let id = uuid_to_string x u; password_hash = hash_password password in
     and_then (generate_unique_dedicated_port pr) (\<lambda>dedicated_port.
     and_then now_secs (\<lambda>now.
     and_then (exec_sql (insert_user
         \<lparr>ur_id = id, ur_username = username, ur_dedicated_port = dedicated_port,
          ur_is_banned = False, ur_created_at = now, ur_password_hash = password_hash\<rparr>)) (\<lambda>_.
     ret \<lparr>ur_id = id, ur_username = username, ur_dedicated_port = dedicated_port,
          ur_is_banned = False, ur_created_at = now\<rparr>))))"

definition verify_user :: "string \<Rightarrow> string \<Rightarrow> (conn, user_record option, db_error) prog" where
  "verify_user username password =
     (let hash = hash_password password in
      query_sql (\<lambda>t. Ok (map_option user_of_row
        (find (\<lambda>r. ur_username r = username \<and> ur_password_hash r = hash) (users t)))))"

definition get_user_by_id :: "string \<Rightarrow> (conn, user_record option, db_error) prog" where
  "get_user_by_id i = query_sql (\<lambda>t. Ok (map_option user_of_row (lookup_by ur_id i (users t))))"

text \<open>\<open>ORDER BY created_at DESC\<close>, rows with the same time in rowid order.\<close>

definition list_all_users :: "(conn, user_record list, db_error) prog" where
  "list_all_users =
     query_sql (\<lambda>t. Ok (map user_of_row (sort_key (\<lambda>r. - ur_created_at r) (users t))))"

definition toggle_user_ban :: "string \<Rightarrow> bool \<Rightarrow> (conn, unit, db_error) prog" where
  "toggle_user_ban i banned = exec_sql (\<lambda>fk t.
     Ok (t\<lparr>users := update_by ur_id i (\<lambda>r. r\<lparr>ur_is_banned := banned\<rparr>) (users t)\<rparr>))"

section \<open>Frames\<close>

lemma count_port_steps [steps]:
  "obeys same_world (count_port p)" "obeys same_tables (count_port p)"
  by (simp_all add: count_port_def query_sql_world query_sql_tables)

lemma random_port_world [steps]: "obeys same_world (random_port n pr)"
  by (induction n) (auto simp only: random_port.simps Let_def intro!: world.rules steps)

lemma random_port_tables [steps]: "obeys same_tables (random_port n pr)"
  by (induction n) (auto simp only: random_port.simps Let_def intro!: tables_kept.rules steps)

lemma sequential_port_world [steps]: "obeys same_world (sequential_port ps)"
  by (induction ps) (auto simp only: sequential_port.simps intro!: world.rules steps)

lemma sequential_port_tables [steps]: "obeys same_tables (sequential_port ps)"
  by (induction ps) (auto simp only: sequential_port.simps intro!: tables_kept.rules steps)

lemma generate_port_world [steps]: "obeys same_world (generate_unique_dedicated_port pr)"
  unfolding generate_unique_dedicated_port_def by (intro world.rules steps)

lemma generate_port_tables [steps]: "obeys same_tables (generate_unique_dedicated_port pr)"
  unfolding generate_unique_dedicated_port_def by (intro tables_kept.rules steps)

lemma user_query_steps [steps]:
  "obeys same_world (verify_user n p)" "obeys same_tables (verify_user n p)"
  "obeys same_world (get_user_by_id i)" "obeys same_tables (get_user_by_id i)"
  "obeys same_world list_all_users" "obeys same_tables list_all_users"
  by (simp_all add: verify_user_def get_user_by_id_def list_all_users_def Let_def
      query_sql_world query_sql_tables)

lemma register_user_world [steps]: "obeys same_world (register_user x n p pr)"
  unfolding register_user_def Let_def by (intro world.rules steps)

lemma toggle_user_ban_world [steps]: "obeys same_world (toggle_user_ban i b)"
  by (simp add: toggle_user_ban_def exec_sql_world)

section \<open>The chosen port is in range and free\<close>

lemma unat_u16: "unat (p :: u16) < 65536"
  using unsigned_less [of p, where 'a = nat] by simp

lemma mod_span_in_range:
  fixes lo hi :: u16 and u :: uuid
  assumes "lo < hi"
  shows "lo \<le> ucast (u mod ucast (hi - lo)) + lo \<and> ucast (u mod ucast (hi - lo)) + lo < hi"
proof -
  let ?m = "u mod ucast (hi - lo)"
  have lt: "unat lo < unat hi" using assms by (simp add: word_less_nat_alt)
  have span: "unat (hi - lo) = unat hi - unat lo"
    using assms by (simp add: unat_sub order_less_imp_le)
  have "unat (ucast (hi - lo) :: uuid) = unat (hi - lo)"
    using unat_u16 [of "hi - lo"] by (simp add: unsigned_ucast_eq take_bit_nat_eq_self)
  then have "unat ?m = unat u mod (unat hi - unat lo)" by (simp add: unat_mod span)
  with lt have m: "unat ?m < unat hi - unat lo" by simp
  have hi: "unat hi < 65536" by (rule unat_u16)
  have "unat (ucast ?m :: u16) = unat ?m mod 65536"
    by (simp add: unsigned_ucast_eq take_bit_eq_mod)
  with m hi have um: "unat (ucast ?m :: u16) = unat ?m" by simp
  have "unat (ucast ?m + lo) = (unat ?m + unat lo) mod 65536"
    using um by (simp add: unat_word_ariths)
  with m hi have "unat (ucast ?m + lo) = unat ?m + unat lo" by simp
  with m lt show ?thesis by (simp add: word_le_nat_alt word_less_nat_alt)
qed

lemma port_list_set: "set (port_list (lo, hi)) = {p. lo \<le> p \<and> p \<le> hi}"
proof
  show "set (port_list (lo, hi)) \<subseteq> {p. lo \<le> p \<and> p \<le> hi}"
  proof
    fix p assume "p \<in> set (port_list (lo, hi))"
    then obtain n where n: "unat lo \<le> n" "n \<le> unat hi" and p: "p = of_nat n"
      by (auto simp: port_list_def)
    have "n < 65536" using n(2) unat_u16 [of hi] by simp
    then have "unat p = n" by (simp add: p unat_of_nat)
    with n show "p \<in> {p. lo \<le> p \<and> p \<le> hi}" by (simp add: word_le_nat_alt)
  qed
  show "{p. lo \<le> p \<and> p \<le> hi} \<subseteq> set (port_list (lo, hi))"
  proof
    fix p assume "p \<in> {p. lo \<le> p \<and> p \<le> hi}"
    then have "unat lo \<le> unat p" "unat p \<le> unat hi" by (simp_all add: word_le_nat_alt)
    then have "unat p \<in> set [unat lo..<Suc (unat hi)]" by (simp only: set_upt atLeastLessThan_iff less_Suc_eq_le)
    then have "of_nat (unat p) \<in> set (port_list (lo, hi))"
      unfolding port_list_def fst_conv snd_conv set_map by (rule imageI)
    then show "p \<in> set (port_list (lo, hi))" by simp
  qed
qed

definition taken_ports :: "conn \<Rightarrow> u16 set" where
  "taken_ports c = ur_dedicated_port ` set (users (tabs c))"

lemma count_port_eq_Ok:
  "count_port p c = (Ok n, d) \<Longrightarrow> (n = 0 \<longleftrightarrow> p \<notin> taken_ports c) \<and> taken_ports d = taken_ports c"
  by (auto simp: count_port_def query_sql_eq_Ok taken_ports_def filter_empty_conv)

lemma new_v4_taken: "new_v4 c = (r, d) \<Longrightarrow> taken_ports d = taken_ports c"
  by (auto simp: new_v4_def taken_ports_def)

lemma random_port_Some:
  assumes "fst pr < snd pr"
  shows "random_port n pr c = (Ok (Some p), d) \<Longrightarrow>
    fst pr \<le> p \<and> p < snd pr \<and> p \<notin> taken_ports c"
proof (induction n arbitrary: c)
  case 0
  then show ?case by simp
next
  case (Suc n)
  from assms have span: "snd pr - fst pr \<noteq> 0" by auto
  with Suc.prems obtain u c1 k c2 where
    "new_v4 c = (Ok u :: (uuid, db_error) result, c1)"
    and k: "count_port (ucast (u mod ucast (snd pr - fst pr)) + fst pr) c1 = (Ok k, c2)"
    and rest: "(if k = 0 then ret (Some (ucast (u mod ucast (snd pr - fst pr)) + fst pr))
                else random_port n pr) c2 = (Ok (Some p), d)"
    by (auto simp: and_then_eq_Ok Let_def)
  then have c1: "taken_ports c1 = taken_ports c" by (auto dest: new_v4_taken)
  show ?case
  proof (cases "k = 0")
    case True
    with rest have "p = ucast (u mod ucast (snd pr - fst pr)) + fst pr" by simp
    with True k c1 show ?thesis
      using mod_span_in_range [OF assms, of u] by (auto dest!: count_port_eq_Ok)
  next
    case False
    with rest have "random_port n pr c2 = (Ok (Some p), d)" by simp
    then have "fst pr \<le> p \<and> p < snd pr \<and> p \<notin> taken_ports c2" by (rule Suc.IH)
    with k c1 show ?thesis by (auto dest!: count_port_eq_Ok)
  qed
qed

lemma sequential_port_Some:
  "sequential_port ps c = (Ok (Some p), d) \<Longrightarrow> p \<in> set ps \<and> p \<notin> taken_ports c"
proof (induction ps arbitrary: c)
  case Nil
  then show ?case by simp
next
  case (Cons q ps)
  then obtain k c1 where k: "count_port q c = (Ok k, c1)"
    and rest: "(if k = 0 then ret (Some q) else sequential_port ps) c1 = (Ok (Some p), d)"
    by (auto simp: and_then_eq_Ok)
  show ?case
  proof (cases "k = 0")
    case True
    with rest k show ?thesis by (auto dest!: count_port_eq_Ok)
  next
    case False
    with rest have "p \<in> set ps \<and> p \<notin> taken_ports c1" using Cons.IH by simp
    with k show ?thesis by (auto dest!: count_port_eq_Ok)
  qed
qed

lemma sequential_port_None:
  "sequential_port ps c = (Ok None, d) \<Longrightarrow> set ps \<subseteq> taken_ports c"
proof (induction ps arbitrary: c)
  case Nil
  then show ?case by simp
next
  case (Cons q ps)
  then obtain k c1 where k: "count_port q c = (Ok k, c1)"
    and rest: "(if k = 0 then ret (Some q) else sequential_port ps) c1 = (Ok None, d)"
    by (auto simp: and_then_eq_Ok)
  then have "k \<noteq> 0" by (cases "k = 0") auto
  with rest have "set ps \<subseteq> taken_ports c1" using Cons.IH by simp
  with k \<open>k \<noteq> 0\<close> show ?case by (auto dest!: count_port_eq_Ok)
qed

lemma generate_port_Ok:
  assumes pr: "fst pr < snd pr"
    and run: "generate_unique_dedicated_port pr c = (Ok p, d)"
  shows "fst pr \<le> p \<and> p \<le> snd pr \<and> p \<notin> taken_ports c \<and> tabs d = tabs c"
proof -
  have "tabs d = tabs c"
    using generate_port_tables [THEN obeysD, OF run] by (simp add: same_tables_def)
  moreover from run obtain f c1 where f: "random_port 1000 pr c = (Ok f, c1)"
    and rest: "(case f of Some port \<Rightarrow> ret port
       | None \<Rightarrow> and_then (sequential_port (port_list pr))
           (\<lambda>f. case f of Some p \<Rightarrow> ret p | None \<Rightarrow> throw QueryReturnedNoRows)) c1 = (Ok p, d)"
    unfolding generate_unique_dedicated_port_def and_then_eq_Ok by blast
  have c1: "taken_ports c1 = taken_ports c"
    using random_port_tables [THEN obeysD, OF f] by (simp add: same_tables_def taken_ports_def)
  have "fst pr \<le> p \<and> p \<le> snd pr \<and> p \<notin> taken_ports c"
  proof (cases f)
    case (Some q)
    with rest f random_port_Some [OF pr, of 1000 c q c1] show ?thesis by auto
  next
    case None
    with rest obtain g c2 where g: "sequential_port (port_list pr) c1 = (Ok g, c2)"
      and "(case g of Some p \<Rightarrow> ret p | None \<Rightarrow> throw QueryReturnedNoRows) c2 = (Ok p, d)"
      by (auto simp: and_then_eq_Ok)
    then have "g = Some p" by (cases g) auto
    with g have "p \<in> set (port_list pr) \<and> p \<notin> taken_ports c1" using sequential_port_Some by blast
    with c1 show ?thesis by (cases pr) (simp add: port_list_set)
  qed
  ultimately show ?thesis by blast
qed

text \<open>
  On a reliable connection the search never fails half way, so it finds a port exactly when
  one in the range is free.
\<close>

lemma count_port_reliable:
  "reliable c \<Longrightarrow> \<exists>k. count_port p c = (Ok k, next_stmt c)"
  by (simp add: count_port_def)

lemma new_v4_run: "\<exists>u d. new_v4 c = (Ok u, d) \<and> reliable d = reliable c \<and> tabs d = tabs c"
  by (simp add: new_v4_def reliable_def)

lemma random_port_reliable:
  assumes "fst pr \<noteq> snd pr"
  shows "reliable c \<Longrightarrow> \<exists>f d. random_port n pr c = (Ok f, d) \<and> reliable d"
proof (induction n arbitrary: c)
  case 0
  then show ?case by simp
next
  case (Suc n)
  obtain u c1 where c1: "new_v4 c = (Ok u :: (uuid, db_error) result, c1)" "reliable c1"
    using Suc.prems new_v4_run [of c] by auto
  let ?p = "ucast (u mod ucast (snd pr - fst pr)) + fst pr"
  obtain k where k: "count_port ?p c1 = (Ok k, next_stmt c1)"
    using count_port_reliable [OF c1(2)] by blast
  obtain f d where "random_port n pr (next_stmt c1) = (Ok f, d)" "reliable d"
    using Suc.IH [of "next_stmt c1"] c1(2) by auto
  with c1 k assms show ?case
    by (cases "k = 0") (auto simp: and_then_eq_Ok Let_def and_then_Ok)
qed

lemma sequential_port_reliable:
  "reliable c \<Longrightarrow> \<exists>f d. sequential_port ps c = (Ok f, d)"
proof (induction ps arbitrary: c)
  case Nil
  then show ?case by simp
next
  case (Cons p ps)
  obtain k where k: "count_port p c = (Ok k, next_stmt c)"
    using count_port_reliable [OF Cons.prems] by blast
  from Cons obtain f d where "sequential_port ps (next_stmt c) = (Ok f, d)"
    using reliable_next_stmt by blast
  with k show ?case by (cases "k = 0") (auto simp: and_then_Ok)
qed

lemma generate_port_result:
  assumes "reliable c" and "fst pr < snd pr"
  shows "(\<exists>p d. generate_unique_dedicated_port pr c = (Ok p, d))
    \<or> (\<exists>d. generate_unique_dedicated_port pr c = (Err QueryReturnedNoRows, d)
          \<and> {p. fst pr \<le> p \<and> p \<le> snd pr} \<subseteq> taken_ports c)"
proof -
  have ne: "fst pr \<noteq> snd pr" using assms(2) by auto
  obtain f c1 where f: "random_port 1000 pr c = (Ok f, c1)" and c1: "reliable c1"
    using random_port_reliable [OF ne assms(1)] by blast
  have t1: "taken_ports c1 = taken_ports c"
    using random_port_tables [THEN obeysD, OF f] by (simp add: same_tables_def taken_ports_def)
  obtain g d where g: "sequential_port (port_list pr) c1 = (Ok g, d)"
    using sequential_port_reliable [OF c1] by blast
  show ?thesis
  proof (cases "f = None \<and> g = None")
    case True
    with g have "set (port_list pr) \<subseteq> taken_ports c1" using sequential_port_None by blast
    with True f g t1 show ?thesis
      by (cases pr) (simp add: generate_unique_dedicated_port_def and_then_Ok port_list_set)
  next
    case False
    with f g show ?thesis
      by (cases f; cases g) (simp_all add: generate_unique_dedicated_port_def and_then_Ok)
  qed
qed

lemma random_port_no_span: "fst (random_port (Suc n) (lo, lo) c) = Panic"
  by (simp add: and_then_def new_v4_def)

lemma generate_port_no_span: "fst (generate_unique_dedicated_port (lo, lo) c) = Panic"
proof -
  have "fst (random_port 1000 (lo, lo) c) = Panic"
    using random_port_no_span [of 999 lo c] by (simp add: numeral_eq_Suc)
  then show ?thesis
    by (cases "random_port 1000 (lo, lo) c")
      (simp add: generate_unique_dedicated_port_def and_then_Panic)
qed

section \<open>Registration\<close>

lemma insert_user_wf: "insert_user r fk t = Ok t' \<Longrightarrow> tables_wf t \<Longrightarrow> tables_wf t'"
  by (auto simp: insert_user_def tables_wf_def split: if_splits)

lemma user_ref_ok_mono:
  "ur_id ` set (users t) \<subseteq> ur_id ` set (users t') \<Longrightarrow> user_ref_ok t r \<Longrightarrow> user_ref_ok t' r"
  by (auto simp: user_ref_ok_def split: option.splits)

lemma refs_wf_users:
  assumes "refs_wf t" and "ur_id ` set (users t) \<subseteq> ur_id ` set us"
  shows "refs_wf (t\<lparr>users := us\<rparr>)"
  using assms user_ref_ok_mono [of t "t\<lparr>users := us\<rparr>"] by (auto simp: refs_wf_def)

lemma insert_user_refs: "insert_user r fk t = Ok t' \<Longrightarrow> refs_wf t \<Longrightarrow> refs_wf t'"
  by (auto simp: insert_user_def split: if_splits intro!: refs_wf_users)

lemma register_user_wf [steps]: "obeys wf_step (register_user x n p pr)"
  unfolding register_user_def Let_def
  by (intro wf_kept.rules exec_sql_wf same_tables_wf steps) (erule (1) insert_user_wf)

lemma register_user_refs [steps]: "obeys refs_step (register_user x n p pr)"
  unfolding register_user_def Let_def
  by (intro refs_kept.rules exec_sql_refs same_tables_refs steps) (erule (1) insert_user_refs)

text \<open>What a successful registration did.\<close>

lemma register_user_Ok:
  assumes run: "register_user x n p pr c = (Ok r, d)"
  obtains c' where
    "generate_unique_dedicated_port pr c' = (Ok (ur_dedicated_port r), snd (generate_unique_dedicated_port pr c'))"
    and "tabs c' = tabs c" and "ur_username r = n" and "\<not> ur_is_banned r"
    and "n \<notin> ur_username ` set (users (tabs c))" and "ur_id r \<notin> ur_id ` set (users (tabs c))"
    and "ur_dedicated_port r \<notin> taken_ports c"
    and "tabs d = (tabs c)\<lparr>users := users (tabs c) @
           [\<lparr>ur_id = ur_id r, ur_username = n, ur_dedicated_port = ur_dedicated_port r,
             ur_is_banned = False, ur_created_at = ur_created_at r,
             ur_password_hash = hash_password p\<rparr>]\<rparr>"
proof -
  from run obtain u c1 port c2 now c3 c4 where
    c1: "new_v4 c = (Ok u :: (uuid, db_error) result, c1)"
    and c2: "generate_unique_dedicated_port pr c1 = (Ok port, c2)"
    and c3: "now_secs c2 = (Ok now :: (int, db_error) result, c3)"
    and ins: "exec_sql (insert_user
         \<lparr>ur_id = uuid_to_string x u, ur_username = n, ur_dedicated_port = port,
          ur_is_banned = False, ur_created_at = now, ur_password_hash = hash_password p\<rparr>) c3
         = (Ok (), c4)"
    and r: "r = \<lparr>ur_id = uuid_to_string x u, ur_username = n, ur_dedicated_port = port,
          ur_is_banned = False, ur_created_at = now\<rparr>" and d: "d = c4"
    unfolding register_user_def Let_def and_then_eq_Ok by auto
  have t1: "tabs c1 = tabs c" using new_v4_tables [THEN obeysD, OF c1] by (simp add: same_tables_def)
  have t2: "tabs c2 = tabs c1"
    using generate_port_tables [THEN obeysD, OF c2] by (simp add: same_tables_def)
  have t3: "tabs c3 = tabs c2"
    using now_secs_tables [THEN obeysD, OF c3] by (simp add: same_tables_def)
  show thesis
    by (rule that [of c1])
      (use c2 ins t1 t2 t3 in \<open>auto simp: r d exec_sql_eq_Ok insert_user_def taken_ports_def
         split: if_splits\<close>)
qed

lemma register_user_failed:
  assumes "register_user x n p pr c = (r, d)" and "\<And>u. r \<noteq> Ok u"
  shows "tabs d = tabs c"
proof -
  have q: "same_tables c d" if "obeys same_tables m" "m c = (v, d)" for m :: "(conn, 'b, db_error) prog" and c v d
    using that by (rule obeysD)
  show ?thesis
    using assms unfolding register_user_def Let_def
    by (auto simp: and_then_def split: prod.splits result.splits if_splits
        dest!: q [OF new_v4_tables] q [OF generate_port_tables] q [OF now_secs_tables] exec_sql_failed
        simp: same_tables_def)
qed

text \<open>The user registered with a password verifies with it, and with an equal hash only.\<close>

lemma find_append_single: "find P xs = None \<Longrightarrow> find P (xs @ [y]) = (if P y then Some y else None)"
  by (induction xs) auto

lemma register_then_verify:
  assumes run: "register_user x n p pr c = (Ok r, d)" and "reliable d"
  shows "fst (verify_user n q d) = Ok (if hash_password q = hash_password p then Some r else None)"
proof -
  from run obtain c' where new: "n \<notin> ur_username ` set (users (tabs c))"
    and b: "\<not> ur_is_banned r" and n: "ur_username r = n"
    and d: "tabs d = (tabs c)\<lparr>users := users (tabs c) @
           [\<lparr>ur_id = ur_id r, ur_username = n, ur_dedicated_port = ur_dedicated_port r,
             ur_is_banned = False, ur_created_at = ur_created_at r,
             ur_password_hash = hash_password p\<rparr>]\<rparr>"
    by (rule register_user_Ok)
  from new have "find (\<lambda>r. ur_username r = n \<and> ur_password_hash r = hash_password q) (users (tabs c)) = None"
    by (auto simp: find_None_iff)
  moreover have "user_record.truncate r = r" for r :: user_record
    by (simp add: user_record.truncate_def)
  ultimately show ?thesis
    using assms(2) b n by (auto simp: verify_user_def Let_def d find_append_single user_of_row_def)
qed

section \<open>Banning\<close>

lemma toggle_user_ban_wf [steps]: "obeys wf_step (toggle_user_ban i b)"
  unfolding toggle_user_ban_def
  by (rule exec_sql_wf) (auto simp: tables_wf_def map_update_by)

lemma toggle_user_ban_refs [steps]: "obeys refs_step (toggle_user_ban i b)"
  unfolding toggle_user_ban_def
proof (rule exec_sql_refs)
  fix t t' :: tables
  assume "Ok (t\<lparr>users := update_by ur_id i (\<lambda>r. r\<lparr>ur_is_banned := b\<rparr>) (users t)\<rparr>)
      = (Ok t' :: (tables, db_error) result)" and "refs_wf t"
  moreover have "ur_id ` set (update_by ur_id i (\<lambda>r. r\<lparr>ur_is_banned := b\<rparr>) (users t)) = ur_id ` set (users t)"
    by (simp add: map_update_by flip: set_map)
  ultimately show "refs_wf t'" using refs_wf_users by auto
qed

lemma toggle_user_ban_lookup:
  assumes "toggle_user_ban i b c = (Ok u, d)" and "reliable d"
  shows "fst (get_user_by_id j d) =
    Ok (map_option (\<lambda>r. user_of_row (if j = i then r\<lparr>ur_is_banned := b\<rparr> else r))
      (lookup_by ur_id j (users (tabs c))))"
proof -
  from assms(1) have d: "tabs d = (tabs c)\<lparr>users := update_by ur_id i (\<lambda>r. r\<lparr>ur_is_banned := b\<rparr>) (users (tabs c))\<rparr>"
    by (auto simp: toggle_user_ban_def exec_sql_eq_Ok)
  show ?thesis
    using assms(2)
    by (simp add: get_user_by_id_def d lookup_by_update_by option.map_comp comp_def)
qed

end
