(* ===== verification/Db_Agents.thy ===== *)
theory Db_Agents
  imports Db_Users
begin

text \<open>
  The agent functions of \<open>src/db.rs\<close>: the claim and token constructors, the claim itself,
  lookup by token, the online flag, listing and deletion.

  The lemmas show the shape of what is inserted (six-digit codes, prefixed tokens), that a
  claim binds exactly one agent and consumes one use of its code, what deletion removes, and
  that every operation keeps the tables well formed and, with foreign keys on, the references.
\<close>

section \<open>Statements\<close>

definition insert_agent :: "agent_record \<Rightarrow> bool \<Rightarrow> tables \<Rightarrow> (tables, db_error) result" where
  "insert_agent r fk t =
     (if ar_id r \<in> set (map ar_id (agents t)) then Err (UniqueViolation ''agents.id'')
      else if ar_token r \<in> set (map ar_token (agents t)) then Err (UniqueViolation ''agents.token'')
      else if fk \<and> \<not> user_ref_ok t (ar_user_id r) then Err ForeignKeyViolation
      else Ok (t\<lparr>agents := agents t @ [r]\<rparr>))"

definition claim_code_of :: "uuid \<Rightarrow> string" where
  "claim_code_of u = pad_zeros 6 (fmt_dec (unat (u mod 1000000)))"

definition token_of :: "ext \<Rightarrow> uuid \<Rightarrow> string" where
  "token_of x u = ''tk_'' @ remove_dashes (uuid_to_string x u)"

definition create_agent_claim ::
  "ext \<Rightarrow> string \<Rightarrow> (conn, agent_record \<times> string, db_error) prog" where
  "create_agent_claim x name =
     and_then new_v4 (\<lambda>u1.
     and_then new_v4 (\<lambda>u2.
     and_then new_v4 (\<lambda>u3.
     let id = uuid_to_string x u1; token = token_of x u2; claim_code = claim_code_of u3 in
     and_then now_secs (\<lambda>now.
     let record = \<lparr>ar_id = id, ar_user_id = None, ar_token = token,
                   ar_claim_code = Some claim_code, ar_name = name, ar_created_at = now,
                   ar_last_seen = now, ar_is_online = False\<rparr> in
     and_then (exec_sql (insert_agent record)) (\<lambda>_.
     ret (record, claim_code))))))"

definition create_agent_for_user ::
  "ext \<Rightarrow> string \<Rightarrow> string \<Rightarrow> (conn, agent_record, db_error) prog" where
  "create_agent_for_user x user_id name =
     and_then new_v4 (\<lambda>u1.
     and_then new_v4 (\<lambda>u2.
     let id = uuid_to_string x u1; token = token_of x u2 in
     and_then now_secs (\<lambda>now.
     let record = \<lparr>ar_id = id, ar_user_id = Some user_id, ar_token = token,
                   ar_claim_code = None, ar_name = name, ar_created_at = now,
                   ar_last_seen = now, ar_is_online = False\<rparr> in
     and_then (exec_sql (insert_agent record)) (\<lambda>_. ret record))))"

definition set_claimed :: "string \<Rightarrow> string \<Rightarrow> bool \<Rightarrow> tables \<Rightarrow> (tables, db_error) result" where
  "set_claimed user_id i fk t =
     (if fk \<and> i \<in> ar_id ` set (agents t) \<and> user_id \<notin> ur_id ` set (users t)
      then Err ForeignKeyViolation
      else Ok (t\<lparr>agents := update_by ar_id i
        (\<lambda>a. a\<lparr>ar_claim_code := None, ar_user_id := Some user_id\<rparr>) (agents t)\<rparr>))"

definition claim_agent_to_user ::
  "string \<Rightarrow> string \<Rightarrow> (conn, agent_record option, db_error) prog" where
  "claim_agent_to_user code user_id =
     and_then (query_sql (\<lambda>t. Ok (find (\<lambda>a. ar_claim_code a = Some code) (agents t)))) (\<lambda>row.
     case row of
       None \<Rightarrow> ret None
     | Some a \<Rightarrow>
         let agent = a\<lparr>ar_user_id := Some user_id\<rparr> in
         and_then (exec_sql (set_claimed user_id (ar_id agent))) (\<lambda>_. ret (Some agent)))"

definition get_agent_by_token :: "string \<Rightarrow> (conn, agent_record option, db_error) prog" where
  "get_agent_by_token token = query_sql (\<lambda>t. Ok (lookup_by ar_token token (agents t)))"

definition set_agent_online ::
  "string \<Rightarrow> bool \<Rightarrow> string option \<Rightarrow> (conn, unit, db_error) prog" where
  "set_agent_online i online name =
     and_then now_secs (\<lambda>now.
     case name of
       Some n \<Rightarrow> exec_sql (\<lambda>fk t. Ok (t\<lparr>agents := update_by ar_id i
         (\<lambda>a. a\<lparr>ar_is_online := online, ar_last_seen := now, ar_name := n\<rparr>) (agents t)\<rparr>))
     | None \<Rightarrow> exec_sql (\<lambda>fk t. Ok (t\<lparr>agents := update_by ar_id i
         (\<lambda>a. a\<lparr>ar_is_online := online, ar_last_seen := now\<rparr>) (agents t)\<rparr>)))"

definition list_agents_for_user :: "string \<Rightarrow> (conn, agent_record list, db_error) prog" where
  "list_agents_for_user user_id = query_sql (\<lambda>t. Ok (sort_key (\<lambda>a. - ar_created_at a)
     (filter (\<lambda>a. ar_user_id a = Some user_id) (agents t))))"

definition list_all_agents :: "(conn, agent_record list, db_error) prog" where
  "list_all_agents = query_sql (\<lambda>t. Ok (sort_key (\<lambda>a. - ar_created_at a) (agents t)))"

text \<open>
  Deleting an agent's row cascades to the tunnels that reference it when foreign keys are
  enforced.
\<close>

definition delete_agent_row :: "string \<Rightarrow> bool \<Rightarrow> tables \<Rightarrow> (tables, db_error) result" where
  "delete_agent_row i fk t =
     Ok (t\<lparr>agents := delete_by ar_id i (agents t),
           tunnels := (if fk \<and> i \<in> ar_id ` set (agents t)
                       then delete_by t_agent_id i (tunnels t) else tunnels t)\<rparr>)"

definition db_delete_agent :: "string \<Rightarrow> (conn, unit, db_error) prog" where
  "db_delete_agent i =
     and_then (exec_sql (\<lambda>fk t. Ok (t\<lparr>tunnels := delete_by t_agent_id i (tunnels t)\<rparr>))) (\<lambda>_.
     exec_sql (delete_agent_row i))"

section \<open>Frames and invariants\<close>

lemma agent_query_steps [steps]:
  "obeys same_world (get_agent_by_token k)" "obeys same_tables (get_agent_by_token k)"
  "obeys same_world (list_agents_for_user i)" "obeys same_tables (list_agents_for_user i)"
  "obeys same_world list_all_agents" "obeys same_tables list_all_agents"
  by (simp_all add: get_agent_by_token_def list_agents_for_user_def list_all_agents_def
      query_sql_world query_sql_tables)

lemma agent_update_world [steps]:
  "obeys same_world (create_agent_claim x n)" "obeys same_world (create_agent_for_user x i n)"
  "obeys same_world (claim_agent_to_user code i)" "obeys same_world (set_agent_online i b m)"
  "obeys same_world (db_delete_agent i)"
  unfolding create_agent_claim_def create_agent_for_user_def claim_agent_to_user_def
    set_agent_online_def db_delete_agent_def Let_def
  by (intro world.rules steps)+

lemma insert_agent_wf: "insert_agent r fk t = Ok t' \<Longrightarrow> tables_wf t \<Longrightarrow> tables_wf t'"
  by (auto simp: insert_agent_def tables_wf_def split: if_splits)

lemma update_agents_wf:
  assumes "\<And>a. ar_id (f a) = ar_id a" and "\<And>a. ar_token (f a) = ar_token a"
  shows "tables_wf t \<Longrightarrow> tables_wf (t\<lparr>agents := update_by ar_id i f (agents t)\<rparr>)"
  using assms by (simp add: tables_wf_def map_update_by)

lemma set_claimed_wf: "set_claimed u i fk t = Ok t' \<Longrightarrow> tables_wf t \<Longrightarrow> tables_wf t'"
  by (auto simp: set_claimed_def update_agents_wf split: if_splits)

lemma delete_tunnels_wf: "tables_wf t \<Longrightarrow> tables_wf (t\<lparr>tunnels := delete_by key k (tunnels t)\<rparr>)"
  by (simp add: tables_wf_def distinct_delete_by)

lemma delete_agent_row_wf: "delete_agent_row i fk t = Ok t' \<Longrightarrow> tables_wf t \<Longrightarrow> tables_wf t'"
  by (auto simp: delete_agent_row_def tables_wf_def distinct_delete_by)

lemma agent_update_wf [steps]:
  "obeys wf_step (create_agent_claim x n)" "obeys wf_step (create_agent_for_user x i n)"
  "obeys wf_step (claim_agent_to_user code i)" "obeys wf_step (set_agent_online i b m)"
  "obeys wf_step (db_delete_agent i)"
proof -
  show "obeys wf_step (create_agent_claim x n)"
    unfolding create_agent_claim_def Let_def
    by (intro wf_kept.rules exec_sql_wf same_tables_wf steps) (erule (1) insert_agent_wf)
  show "obeys wf_step (create_agent_for_user x i n)"
    unfolding create_agent_for_user_def Let_def
    by (intro wf_kept.rules exec_sql_wf same_tables_wf steps) (erule (1) insert_agent_wf)
  show "obeys wf_step (claim_agent_to_user code i)"
    unfolding claim_agent_to_user_def Let_def
    by (intro wf_kept.rules exec_sql_wf same_tables_wf [OF query_sql_tables]) (erule (1) set_claimed_wf)
  show "obeys wf_step (set_agent_online i b m)"
    unfolding set_agent_online_def
    by (intro wf_kept.rules exec_sql_wf same_tables_wf steps) (auto simp: update_agents_wf)
  show "obeys wf_step (db_delete_agent i)"
    unfolding db_delete_agent_def
    by (intro wf_kept.rules exec_sql_wf) (auto simp: delete_tunnels_wf elim: delete_agent_row_wf)
qed

lemma insert_agent_refs: "insert_agent r True t = Ok t' \<Longrightarrow> refs_wf t \<Longrightarrow> refs_wf t'"
  by (auto simp: insert_agent_def refs_wf_def split: if_splits)

lemma update_agents_refs:
  assumes "\<And>a. ar_id (f a) = ar_id a"
    and "\<And>a. a \<in> set (agents t) \<Longrightarrow> ar_id a = i \<Longrightarrow> user_ref_ok t (ar_user_id a) \<Longrightarrow>
           user_ref_ok t (ar_user_id (f a))"
  shows "refs_wf t \<Longrightarrow> refs_wf (t\<lparr>agents := update_by ar_id i f (agents t)\<rparr>)"
proof -
  have ids: "ar_id ` set (update_by ar_id i f (agents t)) = ar_id ` set (agents t)"
    using assms(1) by (simp add: map_update_by flip: set_map)
  assume "refs_wf t"
  with assms(2) have "user_ref_ok t (ar_user_id a)"
    if "a \<in> set (update_by ar_id i f (agents t))" for a
    using that by (auto simp: set_update_by refs_wf_def)
  with \<open>refs_wf t\<close> show ?thesis by (simp add: refs_wf_def ids)
qed

lemma set_claimed_refs: "set_claimed u i True t = Ok t' \<Longrightarrow> refs_wf t \<Longrightarrow> refs_wf t'"
  by (auto simp: set_claimed_def user_ref_ok_def split: if_splits intro!: update_agents_refs)

lemma delete_tunnels_refs: "refs_wf t \<Longrightarrow> refs_wf (t\<lparr>tunnels := delete_by key k (tunnels t)\<rparr>)"
  by (auto simp: refs_wf_def set_delete_by)

lemma delete_agent_row_refs: "delete_agent_row i True t = Ok t' \<Longrightarrow> refs_wf t \<Longrightarrow> refs_wf t'"
  unfolding delete_agent_row_def refs_wf_def
  by (auto simp del: image_iff simp: key_delete_by set_delete_by [of t_agent_id] set_delete_by [of ar_id, THEN eqset_imp_iff] split: if_splits)

lemma agent_update_refs [steps]:
  "obeys refs_step (create_agent_claim x n)" "obeys refs_step (create_agent_for_user x i n)"
  "obeys refs_step (claim_agent_to_user code i)" "obeys refs_step (set_agent_online i b m)"
  "obeys refs_step (db_delete_agent i)"
proof -
  show "obeys refs_step (create_agent_claim x n)"
    unfolding create_agent_claim_def Let_def
    by (intro refs_kept.rules exec_sql_refs same_tables_refs steps) (erule (1) insert_agent_refs)
  show "obeys refs_step (create_agent_for_user x i n)"
    unfolding create_agent_for_user_def Let_def
    by (intro refs_kept.rules exec_sql_refs same_tables_refs steps) (erule (1) insert_agent_refs)
  show "obeys refs_step (claim_agent_to_user code i)"
    unfolding claim_agent_to_user_def Let_def
    by (intro refs_kept.rules exec_sql_refs same_tables_refs [OF query_sql_tables query_sql_world])
      (erule (1) set_claimed_refs)
  show "obeys refs_step (set_agent_online i b m)"
    unfolding set_agent_online_def
    by (intro refs_kept.rules exec_sql_refs same_tables_refs steps)
      (auto intro!: update_agents_refs)
  show "obeys refs_step (db_delete_agent i)"
    unfolding db_delete_agent_def
    by (intro refs_kept.rules exec_sql_refs) (auto simp: delete_tunnels_refs elim: delete_agent_row_refs)
qed

section \<open>What the operations do\<close>

lemma claim_code_length: "length (claim_code_of u) = 6"
proof -
  have "unat (u mod 1000000) < 1000000" by (simp add: unat_mod)
  then have "length (fmt_dec (unat (u mod 1000000))) \<le> 6" by (intro length_fmt_radix) simp_all
  then show ?thesis by (simp add: claim_code_of_def length_pad_zeros)
qed

lemma decimal_digits: "digit_char ` {..<10} = set ''0123456789''"
proof -
  have "digit_char ` set [0..<10] = set ''0123456789''" by code_simp
  then show ?thesis by (simp add: atLeast0LessThan)
qed

lemma claim_code_digits: "set (claim_code_of u) \<subseteq> set ''0123456789''"
proof -
  have "set (fmt_dec (unat (u mod 1000000))) \<subseteq> set ''0123456789''"
    using set_fmt_radix [of 10] by (simp only: decimal_digits [symmetric])
  moreover have "set (claim_code_of u) \<subseteq> insert (CHR ''0'') (set (fmt_dec (unat (u mod 1000000))))"
    unfolding claim_code_of_def by (rule set_pad_zeros)
  ultimately show ?thesis by auto
qed

lemma exec_insert_agent:
  "exec_sql (insert_agent r) c = (Ok v, d) \<Longrightarrow>
     ar_id r \<notin> ar_id ` set (agents (tabs c)) \<and> ar_token r \<notin> ar_token ` set (agents (tabs c))
   \<and> tabs d = (tabs c)\<lparr>agents := agents (tabs c) @ [r]\<rparr>"
  by (auto simp: exec_sql_eq_Ok insert_agent_def split: if_splits)

lemma tables_keptD: "obeys same_tables m \<Longrightarrow> m c = (r, d) \<Longrightarrow> tabs d = tabs c"
  by (drule (1) obeysD) (simp add: same_tables_def)

lemma create_agent_claim_Ok:
  assumes "create_agent_claim x n c = (Ok (r, code), d)"
  shows "tabs d = (tabs c)\<lparr>agents := agents (tabs c) @ [r]\<rparr> \<and> ar_claim_code r = Some code
    \<and> ar_user_id r = None \<and> \<not> ar_is_online r \<and> ar_name r = n \<and> prefix ''tk_'' (ar_token r)
    \<and> ar_id r \<notin> ar_id ` set (agents (tabs c)) \<and> ar_token r \<notin> ar_token ` set (agents (tabs c))"
  using assms unfolding create_agent_claim_def Let_def and_then_eq_Ok
  by (auto simp: token_of_def
      dest!: exec_insert_agent tables_keptD [OF new_v4_tables] tables_keptD [OF now_secs_tables])

lemma create_agent_claim_code:
  assumes "create_agent_claim x n c = (Ok (r, code), d)"
  shows "length code = 6 \<and> set code \<subseteq> set ''0123456789''"
proof -
  from assms obtain u where "code = claim_code_of u"
    unfolding create_agent_claim_def Let_def and_then_eq_Ok by auto
  then show ?thesis by (simp only: claim_code_length claim_code_digits)
qed

lemma create_agent_for_user_Ok:
  assumes "create_agent_for_user x u n c = (Ok r, d)"
  shows "tabs d = (tabs c)\<lparr>agents := agents (tabs c) @ [r]\<rparr> \<and> ar_claim_code r = None
    \<and> ar_user_id r = Some u \<and> \<not> ar_is_online r \<and> ar_name r = n \<and> prefix ''tk_'' (ar_token r)
    \<and> ar_id r \<notin> ar_id ` set (agents (tabs c)) \<and> ar_token r \<notin> ar_token ` set (agents (tabs c))"
  using assms unfolding create_agent_for_user_def Let_def and_then_eq_Ok
  by (auto simp: token_of_def
      dest!: exec_insert_agent tables_keptD [OF new_v4_tables] tables_keptD [OF now_secs_tables])

lemma claim_agent_Some:
  assumes "claim_agent_to_user code u c = (Ok (Some a), d)"
  obtains row where "find (\<lambda>a. ar_claim_code a = Some code) (agents (tabs c)) = Some row"
    and "a = row\<lparr>ar_user_id := Some u\<rparr>"
    and "tabs d = (tabs c)\<lparr>agents := update_by ar_id (ar_id row)
           (\<lambda>a. a\<lparr>ar_claim_code := None, ar_user_id := Some u\<rparr>) (agents (tabs c))\<rparr>"
  using assms unfolding claim_agent_to_user_def Let_def
  by (auto simp: and_then_eq_Ok query_sql_eq_Ok exec_sql_eq_Ok set_claimed_def
      split: option.splits if_splits)

lemma claim_agent_None:
  "claim_agent_to_user code u c = (Ok None, d) \<Longrightarrow>
    tabs d = tabs c \<and> (\<forall>a \<in> set (agents (tabs c)). ar_claim_code a \<noteq> Some code)"
  unfolding claim_agent_to_user_def Let_def
  by (auto simp: and_then_eq_Ok query_sql_eq_Ok find_None_iff split: option.splits)

lemma claim_agent_consumes:
  assumes wf: "tables_wf (tabs c)" and run: "claim_agent_to_user code u c = (Ok (Some a), d)"
  shows "length (filter (\<lambda>a. ar_claim_code a = Some code) (agents (tabs d))) + 1
       = length (filter (\<lambda>a. ar_claim_code a = Some code) (agents (tabs c)))"
proof -
  from run obtain row where f: "find (\<lambda>a. ar_claim_code a = Some code) (agents (tabs c)) = Some row"
    and d: "tabs d = (tabs c)\<lparr>agents := update_by ar_id (ar_id row)
           (\<lambda>a. a\<lparr>ar_claim_code := None, ar_user_id := Some u\<rparr>) (agents (tabs c))\<rparr>"
    by (rule claim_agent_Some)
  from f have "row \<in> set (agents (tabs c))" "ar_claim_code row = Some code"
    by (auto simp: find_Some_iff)
  from count_update_by [where P = "\<lambda>a. ar_claim_code a = Some code" and f = "\<lambda>a. a\<lparr>ar_claim_code := None, ar_user_id := Some u\<rparr>",
      OF agent_ids.key_distinct [OF wf] this(1) refl this(2)]
  show ?thesis by (simp add: d)
qed

lemma set_agent_online_Ok:
  assumes "set_agent_online i b m c = (Ok v, d)"
  obtains now where "tabs d = (tabs c)\<lparr>agents := update_by ar_id i
    (\<lambda>a. a\<lparr>ar_is_online := b, ar_last_seen := now,
           ar_name := (case m of None \<Rightarrow> ar_name a | Some n \<Rightarrow> n)\<rparr>) (agents (tabs c))\<rparr>"
proof (cases m)
  case None
  have "a\<lparr>ar_is_online := b, ar_last_seen := now\<rparr> =
      a\<lparr>ar_is_online := b, ar_last_seen := now, ar_name := ar_name a\<rparr>" for a now
    by (cases a) simp
  with None assms that show ?thesis unfolding set_agent_online_def
    by (auto simp: and_then_eq_Ok exec_sql_eq_Ok dest!: tables_keptD [OF now_secs_tables])
next
  case (Some n)
  with assms that show ?thesis unfolding set_agent_online_def
    by (auto simp: and_then_eq_Ok exec_sql_eq_Ok dest!: tables_keptD [OF now_secs_tables])
qed

lemma db_delete_agent_Ok:
  assumes "db_delete_agent i c = (Ok v, d)"
  shows "users (tabs d) = users (tabs c) \<and> agents (tabs d) = delete_by ar_id i (agents (tabs c))
    \<and> tunnels (tabs d) = delete_by t_agent_id i (tunnels (tabs c))"
  using assms unfolding db_delete_agent_def
  by (auto simp: and_then_eq_Ok exec_sql_eq_Ok delete_agent_row_def delete_by_def)

text \<open>The newest agent comes first.\<close>

lemma list_agents_for_user_Ok:
  assumes "list_agents_for_user u c = (Ok as, d)"
  shows "set as = {a \<in> set (agents (tabs c)). ar_user_id a = Some u}
    \<and> sorted (map (\<lambda>a. - ar_created_at a) as)"
  using assms by (auto simp: list_agents_for_user_def query_sql_eq_Ok)

end
