(* ===== verification/Db_Tunnels.thy ===== *)
theory Db_Tunnels
  imports Db_Agents
begin

text \<open>
  The tunnel functions of \<open>src/db.rs\<close>: creation, the three listings, lookup, the enabled
  flag, update, traffic counters, the subdomain check and deletion.

  A stored counter is read back as an unsigned 64-bit value, so a row whose counter has left
  that range makes every listing that meets it fail; \<open>readable\<close> says no row is like that. The
  lemmas show that the operations keep the tables well formed, what each changes, that the
  subdomain check keeps subdomains unique up to ASCII case, and that a tunnel's public port
  never changes.
\<close>

section \<open>Reading rows\<close>

definition get_u64 :: "sql_num \<Rightarrow> (u64, db_error) result" where
  "get_u64 v = (case v of
      SqlInt i \<Rightarrow> (if 0 \<le> i then Ok (word_of_int i) else Err IntegralValueOutOfRange)
    | SqlReal \<Rightarrow> Err InvalidColumnType)"

definition tunnel_of_row :: "tunnel_row \<Rightarrow> (tunnel_record, db_error) result" where
  "tunnel_of_row r =
     (case get_u64 (t_bytes_in r) of
        Ok bytes_in \<Rightarrow>
          (case get_u64 (t_bytes_out r) of
             Ok bytes_out \<Rightarrow>
               Ok \<lparr>tr_id = t_id r, tr_agent_id = t_agent_id r, tr_user_id = t_user_id r,
                   tr_name = t_name r, tr_local_port = t_local_port r,
                   tr_protocol = t_protocol r, tr_public_port = t_public_port r,
                   tr_subdomain = t_subdomain r, tr_enabled = t_enabled r,
                   tr_bytes_in = bytes_in, tr_bytes_out = bytes_out,
                   tr_created_at = t_created_at r\<rparr>
           | Err e \<Rightarrow> Err e
           | Panic \<Rightarrow> Panic)
      | Err e \<Rightarrow> Err e
      | Panic \<Rightarrow> Panic)"

section \<open>Statements\<close>

definition insert_tunnel :: "tunnel_row \<Rightarrow> bool \<Rightarrow> tables \<Rightarrow> (tables, db_error) result" where
  "insert_tunnel r fk t =
     (if t_id r \<in> set (map t_id (tunnels t)) then Err (UniqueViolation ''tunnels.id'')
      else if fk \<and> (t_agent_id r \<notin> ar_id ` set (agents t) \<or> \<not> user_ref_ok t (t_user_id r))
        then Err ForeignKeyViolation
      else Ok (t\<lparr>tunnels := tunnels t @ [r]\<rparr>))"

definition db_create_tunnel ::
  "ext \<Rightarrow> string \<Rightarrow> string option \<Rightarrow> string \<Rightarrow> u16 \<Rightarrow> string \<Rightarrow> u16 \<Rightarrow> string option
    \<Rightarrow> (conn, tunnel_record, db_error) prog" where
  "db_create_tunnel x agent_id user_id name local_port protocol public_port subdomain =
     and_then new_v4 (\<lambda>u.
     let id = uuid_to_string x u in
     and_then now_secs (\<lambda>now.
     and_then (exec_sql (insert_tunnel
       \<lparr>t_id = id, t_agent_id = agent_id, t_user_id = user_id, t_name = name,
        t_local_port = local_port, t_protocol = protocol, t_public_port = public_port,
        t_subdomain = subdomain, t_enabled = True, t_bytes_in = SqlInt 0,
        t_bytes_out = SqlInt 0, t_created_at = now\<rparr>)) (\<lambda>_.
     ret \<lparr>tr_id = id, tr_agent_id = agent_id, tr_user_id = user_id, tr_name = name,
          tr_local_port = local_port, tr_protocol = protocol, tr_public_port = public_port,
          tr_subdomain = subdomain, tr_enabled = True, tr_bytes_in = 0, tr_bytes_out = 0,
          tr_created_at = now\<rparr>)))"

definition list_tunnels_for_user :: "string \<Rightarrow> (conn, tunnel_record list, db_error) prog" where
  "list_tunnels_for_user user_id = query_sql (\<lambda>t. collect tunnel_of_row
     (sort_key t_created_at (filter (\<lambda>k. t_user_id k = Some user_id) (tunnels t))))"

definition list_tunnels_for_agent :: "string \<Rightarrow> (conn, tunnel_record list, db_error) prog" where
  "list_tunnels_for_agent agent_id = query_sql (\<lambda>t. collect tunnel_of_row
     (sort_key t_created_at (filter (\<lambda>k. t_agent_id k = agent_id) (tunnels t))))"

definition list_all_tunnels :: "(conn, tunnel_record list, db_error) prog" where
  "list_all_tunnels = query_sql (\<lambda>t. collect tunnel_of_row
     (sort_key (\<lambda>k. - t_created_at k) (tunnels t)))"

definition get_tunnel_by_id :: "string \<Rightarrow> (conn, tunnel_record option, db_error) prog" where
  "get_tunnel_by_id i = query_sql (\<lambda>t. case lookup_by t_id i (tunnels t) of
      None \<Rightarrow> Ok None
    | Some r \<Rightarrow> (case tunnel_of_row r of
        Ok k \<Rightarrow> Ok (Some k) | Err e \<Rightarrow> Err e | Panic \<Rightarrow> Panic))"

definition set_tunnel_enabled :: "string \<Rightarrow> bool \<Rightarrow> (conn, unit, db_error) prog" where
  "set_tunnel_enabled i enabled = exec_sql (\<lambda>fk t.
     Ok (t\<lparr>tunnels := update_by t_id i (\<lambda>k. k\<lparr>t_enabled := enabled\<rparr>) (tunnels t)\<rparr>))"

definition db_update_tunnel ::
  "string \<Rightarrow> string \<Rightarrow> u16 \<Rightarrow> string \<Rightarrow> string option \<Rightarrow> (conn, unit, db_error) prog" where
  "db_update_tunnel i name local_port protocol subdomain = exec_sql (\<lambda>fk t.
     Ok (t\<lparr>tunnels := update_by t_id i
       (\<lambda>k. k\<lparr>t_name := name, t_local_port := local_port, t_protocol := protocol,
              t_subdomain := subdomain\<rparr>) (tunnels t)\<rparr>))"

text \<open>SQLite's \<open>bytes + ?1\<close>, with the argument cast to a signed 64-bit integer first.\<close>

definition sql_add :: "sql_num \<Rightarrow> u64 \<Rightarrow> sql_num" where
  "sql_add v w = (case v of
      SqlInt i \<Rightarrow> (let s = i + sint w in
        if - (2 ^ 63) \<le> s \<and> s < 2 ^ 63 then SqlInt s else SqlReal)
    | SqlReal \<Rightarrow> SqlReal)"

definition add_traffic_stats :: "string \<Rightarrow> u64 \<Rightarrow> u64 \<Rightarrow> (conn, unit, db_error) prog" where
  "add_traffic_stats i bytes_in bytes_out = exec_sql (\<lambda>fk t.
     Ok (t\<lparr>tunnels := update_by t_id i
       (\<lambda>k. k\<lparr>t_bytes_in := sql_add (t_bytes_in k) bytes_in,
              t_bytes_out := sql_add (t_bytes_out k) bytes_out\<rparr>) (tunnels t)\<rparr>))"

definition same_subdomain :: "string \<Rightarrow> tunnel_row \<Rightarrow> bool" where
  "same_subdomain s k = (case t_subdomain k of
      None \<Rightarrow> False | Some s' \<Rightarrow> ascii_lower s' = ascii_lower s)"

definition is_subdomain_taken :: "string \<Rightarrow> string option \<Rightarrow> (conn, bool, db_error) prog" where
  "is_subdomain_taken subdomain exclude_id =
     (case exclude_id of
        Some ex_id \<Rightarrow>
          and_then (query_sql (\<lambda>t. Ok (length (filter
            (\<lambda>k. same_subdomain subdomain k \<and> t_id k \<noteq> ex_id) (tunnels t))))) (\<lambda>count.
          ret (0 < count))
      | None \<Rightarrow>
          and_then (query_sql (\<lambda>t. Ok (length (filter (same_subdomain subdomain) (tunnels t))))) (\<lambda>count.
          ret (0 < count)))"

definition db_delete_tunnel :: "string \<Rightarrow> (conn, unit, db_error) prog" where
  "db_delete_tunnel i = exec_sql (\<lambda>fk t. Ok (t\<lparr>tunnels := delete_by t_id i (tunnels t)\<rparr>))"

section \<open>Frames and invariants\<close>

lemma tunnel_query_steps [steps]:
  "obeys same_world (list_tunnels_for_user i)" "obeys same_tables (list_tunnels_for_user i)"
  "obeys same_world (list_tunnels_for_agent i)" "obeys same_tables (list_tunnels_for_agent i)"
  "obeys same_world list_all_tunnels" "obeys same_tables list_all_tunnels"
  "obeys same_world (get_tunnel_by_id i)" "obeys same_tables (get_tunnel_by_id i)"
  by (simp_all add: list_tunnels_for_user_def list_tunnels_for_agent_def list_all_tunnels_def
      get_tunnel_by_id_def query_sql_world query_sql_tables)

lemma is_subdomain_taken_world [steps]: "obeys same_world (is_subdomain_taken s e)"
  unfolding is_subdomain_taken_def by (intro world.rules steps)

lemma is_subdomain_taken_tables [steps]: "obeys same_tables (is_subdomain_taken s e)"
  unfolding is_subdomain_taken_def by (intro tables_kept.rules steps)

lemma tunnel_update_world [steps]:
  "obeys same_world (db_create_tunnel x a u n lp pr pp sd)" "obeys same_world (set_tunnel_enabled i b)"
  "obeys same_world (db_update_tunnel i n lp pr sd)" "obeys same_world (add_traffic_stats i w v)"
  "obeys same_world (db_delete_tunnel i)"
  unfolding db_create_tunnel_def set_tunnel_enabled_def db_update_tunnel_def
    add_traffic_stats_def db_delete_tunnel_def Let_def
  by (intro world.rules steps)+

lemma insert_tunnel_wf: "insert_tunnel r fk t = Ok t' \<Longrightarrow> tables_wf t \<Longrightarrow> tables_wf t'"
  by (auto simp: insert_tunnel_def tables_wf_def split: if_splits)

lemma update_tunnels_wf:
  assumes "\<And>k. t_id (f k) = t_id k"
  shows "tables_wf t \<Longrightarrow> tables_wf (t\<lparr>tunnels := update_by t_id i f (tunnels t)\<rparr>)"
  using assms by (simp add: tables_wf_def map_update_by)

lemma tunnel_update_wf [steps]:
  "obeys wf_step (db_create_tunnel x a u n lp pr pp sd)" "obeys wf_step (set_tunnel_enabled i b)"
  "obeys wf_step (db_update_tunnel i n lp pr sd)" "obeys wf_step (add_traffic_stats i w v)"
  "obeys wf_step (db_delete_tunnel i)"
proof -
  show "obeys wf_step (db_create_tunnel x a u n lp pr pp sd)"
    unfolding db_create_tunnel_def Let_def
    by (intro wf_kept.rules exec_sql_wf same_tables_wf steps) (erule (1) insert_tunnel_wf)
qed (auto simp: set_tunnel_enabled_def db_update_tunnel_def add_traffic_stats_def db_delete_tunnel_def
    intro!: exec_sql_wf update_tunnels_wf delete_tunnels_wf)

lemma insert_tunnel_refs: "insert_tunnel r True t = Ok t' \<Longrightarrow> refs_wf t \<Longrightarrow> refs_wf t'"
  by (auto simp: insert_tunnel_def refs_wf_def split: if_splits)

lemma update_tunnels_refs:
  assumes "\<And>k. t_agent_id (f k) = t_agent_id k" and "\<And>k. t_user_id (f k) = t_user_id k"
  shows "refs_wf t \<Longrightarrow> refs_wf (t\<lparr>tunnels := update_by t_id i f (tunnels t)\<rparr>)"
  using assms by (auto simp: refs_wf_def set_update_by)

lemma tunnel_update_refs [steps]:
  "obeys refs_step (db_create_tunnel x a u n lp pr pp sd)" "obeys refs_step (set_tunnel_enabled i b)"
  "obeys refs_step (db_update_tunnel i n lp pr sd)" "obeys refs_step (add_traffic_stats i w v)"
  "obeys refs_step (db_delete_tunnel i)"
proof -
  show "obeys refs_step (db_create_tunnel x a u n lp pr pp sd)"
    unfolding db_create_tunnel_def Let_def
    by (intro refs_kept.rules exec_sql_refs same_tables_refs steps) (erule (1) insert_tunnel_refs)
qed (auto simp: set_tunnel_enabled_def db_update_tunnel_def add_traffic_stats_def db_delete_tunnel_def
    intro!: exec_sql_refs update_tunnels_refs delete_tunnels_refs)

section \<open>What the operations do\<close>

lemma db_create_tunnel_Ok:
  assumes "db_create_tunnel x a u n lp pr pp sd c = (Ok r, d)"
  shows "r = \<lparr>tr_id = tr_id r, tr_agent_id = a, tr_user_id = u, tr_name = n, tr_local_port = lp,
      tr_protocol = pr, tr_public_port = pp, tr_subdomain = sd, tr_enabled = True,
      tr_bytes_in = 0, tr_bytes_out = 0, tr_created_at = tr_created_at r\<rparr>
    \<and> tr_id r \<notin> t_id ` set (tunnels (tabs c))
    \<and> (\<exists>v. tr_id r = uuid_to_string x v)
    \<and> (fk_enforced c \<longrightarrow> a \<in> ar_id ` set (agents (tabs c)))
    \<and> tabs d = (tabs c)\<lparr>tunnels := tunnels (tabs c) @
        [\<lparr>t_id = tr_id r, t_agent_id = a, t_user_id = u, t_name = n, t_local_port = lp,
          t_protocol = pr, t_public_port = pp, t_subdomain = sd, t_enabled = True,
          t_bytes_in = SqlInt 0, t_bytes_out = SqlInt 0, t_created_at = tr_created_at r\<rparr>]\<rparr>"
proof -
  from assms obtain v c1 now c2 where
    c1: "new_v4 c = (Ok v :: (uuid, db_error) result, c1)"
    and c2: "now_secs c1 = (Ok now :: (int, db_error) result, c2)"
    and ins: "exec_sql (insert_tunnel \<lparr>t_id = uuid_to_string x v, t_agent_id = a, t_user_id = u,
       t_name = n, t_local_port = lp, t_protocol = pr, t_public_port = pp, t_subdomain = sd,
       t_enabled = True, t_bytes_in = SqlInt 0, t_bytes_out = SqlInt 0, t_created_at = now\<rparr>) c2
       = (Ok (), d)"
    and r: "r = \<lparr>tr_id = uuid_to_string x v, tr_agent_id = a, tr_user_id = u, tr_name = n,
       tr_local_port = lp, tr_protocol = pr, tr_public_port = pp, tr_subdomain = sd,
       tr_enabled = True, tr_bytes_in = 0, tr_bytes_out = 0, tr_created_at = now\<rparr>"
    unfolding db_create_tunnel_def Let_def and_then_eq_Ok by auto
  have t: "tabs c2 = tabs c"
    using tables_keptD [OF new_v4_tables c1] tables_keptD [OF now_secs_tables c2] by simp
  have fk: "fk_enforced c2 = fk_enforced c"
    using obeysD [OF new_v4_world c1] obeysD [OF now_secs_world c2] by (simp add: same_world_def)
  from ins t fk show ?thesis
    by (auto simp: r exec_sql_eq_Ok insert_tunnel_def split: if_splits)
qed

lemma db_create_tunnel_failed:
  assumes "db_create_tunnel x a u n lp pr pp sd c = (r, d)" and "\<And>k. r \<noteq> Ok k"
  shows "tabs d = tabs c"
  using assms unfolding db_create_tunnel_def Let_def
  by (auto simp: and_then_def split: prod.splits result.splits
      dest!: tables_keptD [OF new_v4_tables] tables_keptD [OF now_secs_tables] exec_sql_failed)

lemma get_tunnel_by_id_Some:
  assumes "get_tunnel_by_id i c = (Ok (Some k), d)"
  obtains r where "lookup_by t_id i (tunnels (tabs c)) = Some r" and "tunnel_of_row r = Ok k"
  using assms by (auto simp: get_tunnel_by_id_def query_sql_eq_Ok split: option.splits result.splits)

lemma tunnel_of_row_Ok:
  "tunnel_of_row r = Ok k \<Longrightarrow>
    tr_id k = t_id r \<and> tr_agent_id k = t_agent_id r \<and> tr_user_id k = t_user_id r
    \<and> tr_name k = t_name r \<and> tr_local_port k = t_local_port r \<and> tr_protocol k = t_protocol r
    \<and> tr_public_port k = t_public_port r \<and> tr_subdomain k = t_subdomain r
    \<and> tr_enabled k = t_enabled r \<and> tr_created_at k = t_created_at r"
  by (auto simp: tunnel_of_row_def split: result.splits)

text \<open>Every counter of every row can be read back.\<close>

definition counter_readable :: "sql_num \<Rightarrow> bool" where
  "counter_readable v = (case v of SqlInt i \<Rightarrow> 0 \<le> i | SqlReal \<Rightarrow> False)"

definition readable :: "tables \<Rightarrow> bool" where
  "readable t \<longleftrightarrow> (\<forall>k \<in> set (tunnels t). counter_readable (t_bytes_in k) \<and> counter_readable (t_bytes_out k))"

lemma tunnel_of_row_readable:
  "(\<exists>k. tunnel_of_row r = Ok k) \<longleftrightarrow> counter_readable (t_bytes_in r) \<and> counter_readable (t_bytes_out r)"
  by (auto simp: tunnel_of_row_def get_u64_def counter_readable_def split: sql_num.splits result.splits)

lemma collect_Ok_iff: "(\<exists>xs. collect f rs = Ok xs) \<longleftrightarrow> (\<forall>r \<in> set rs. \<exists>x. f r = Ok x)"
  by (induction rs) (auto split: result.splits)

lemma list_all_tunnels_readable:
  "reliable c \<Longrightarrow> (\<exists>ts d. list_all_tunnels c = (Ok ts, d)) \<longleftrightarrow> readable (tabs c)"
  by (simp add: list_all_tunnels_def readable_def collect_Ok_iff tunnel_of_row_readable)

lemma counter_of_bytes:
  "0 \<le> i \<Longrightarrow> counter_readable (sql_add (SqlInt i) w) \<longleftrightarrow> 0 \<le> i + sint w \<and> i + sint w < 2 ^ 63"
  by (simp add: sql_add_def counter_readable_def Let_def)

text \<open>Listings return every row of the selection, oldest first.\<close>

lemma list_tunnels_for_agent_Ok:
  assumes "list_tunnels_for_agent a c = (Ok ts, d)"
  shows "map tr_id ts = map t_id (sort_key t_created_at (filter (\<lambda>k. t_agent_id k = a) (tunnels (tabs c))))
    \<and> (\<forall>k \<in> set ts. \<exists>r \<in> set (tunnels (tabs c)). t_agent_id r = a \<and> tunnel_of_row r = Ok k)"
proof -
  let ?rs = "sort_key t_created_at (filter (\<lambda>k. t_agent_id k = a) (tunnels (tabs c)))"
  from assms have l: "list_all2 (\<lambda>r k. tunnel_of_row r = Ok k) ?rs ts"
    by (simp add: list_tunnels_for_agent_def query_sql_eq_Ok collect_eq_Ok)
  then have "map tr_id ts = map t_id ?rs"
    by (induction rule: list_all2_induct) (auto dest: tunnel_of_row_Ok)
  moreover have "\<exists>r \<in> set ?rs. tunnel_of_row r = Ok k" if "k \<in> set ts" for k
    using l that by (induction rule: list_all2_induct) auto
  ultimately show ?thesis by auto
qed

section \<open>Unique subdomains\<close>

definition subdomains_unique :: "tables \<Rightarrow> bool" where
  "subdomains_unique t \<longleftrightarrow>
     (\<forall>k \<in> set (tunnels t). \<forall>l \<in> set (tunnels t). \<forall>s \<in> set_option (t_subdomain k).
        same_subdomain s l \<longrightarrow> t_id l = t_id k)"

lemma same_subdomain_sym:
  "t_subdomain k = Some s \<Longrightarrow> t_subdomain l = Some s' \<Longrightarrow> same_subdomain s l = same_subdomain s' k"
  by (auto simp: same_subdomain_def)

lemma is_subdomain_taken_Ok:
  "is_subdomain_taken s e c = (Ok b, d) \<Longrightarrow>
    b \<longleftrightarrow> (\<exists>k \<in> set (tunnels (tabs c)). same_subdomain s k \<and> e \<noteq> Some (t_id k))"
  unfolding is_subdomain_taken_def
  by (cases e) (auto simp: and_then_eq_Ok query_sql_eq_Ok filter_empty_conv)

lemma subdomains_unique_append:
  assumes u: "subdomains_unique t"
    and free: "\<And>s k. t_subdomain r = Some s \<Longrightarrow> k \<in> set (tunnels t) \<Longrightarrow> \<not> same_subdomain s k"
  shows "subdomains_unique (t\<lparr>tunnels := tunnels t @ [r]\<rparr>)"
proof -
  have no: "\<not> same_subdomain s r" if "k \<in> set (tunnels t)" "t_subdomain k = Some s" for k s
  proof
    assume same: "same_subdomain s r"
    then obtain s' where s': "t_subdomain r = Some s'"
      by (auto simp: same_subdomain_def split: option.splits)
    with same_subdomain_sym [OF that(2) s'] same have "same_subdomain s' k" by simp
    with free [OF s' that(1)] show False ..
  qed
  with u free show ?thesis unfolding subdomains_unique_def by auto
qed

lemma subdomains_unique_update:
  assumes u: "subdomains_unique t"
    and id: "\<And>k. t_id (f k) = t_id k" and sub: "\<And>k. t_subdomain (f k) = sd"
    and free: "\<And>s k. sd = Some s \<Longrightarrow> k \<in> set (tunnels t) \<Longrightarrow> t_id k \<noteq> i \<Longrightarrow> \<not> same_subdomain s k"
  shows "subdomains_unique (t\<lparr>tunnels := update_by t_id i f (tunnels t)\<rparr>)"
proof -
  define g where "g k = (if t_id k = i then f k else k)" for k
  have g_id: "t_id (g k) = t_id k" for k by (simp add: g_def id)
  have key: "t_id l = t_id k"
    if k: "k \<in> set (tunnels t)" and l: "l \<in> set (tunnels t)"
      and s: "t_subdomain (g k) = Some s" and same: "same_subdomain s (g l)" for k l s
  proof (cases "t_id k = i")
    case True
    with s have sd: "sd = Some s" by (simp add: g_def sub)
    show ?thesis
    proof (rule ccontr)
      assume "t_id l \<noteq> t_id k"
      with True same have "t_id l \<noteq> i" "same_subdomain s l" by (auto simp: g_def split: if_splits)
      with free [OF sd l] show False by blast
    qed
  next
    case False
    with s have ks: "t_subdomain k = Some s" by (simp add: g_def)
    show ?thesis
    proof (cases "t_id l = i")
      case True
      then have gl: "t_subdomain (g l) = sd" by (simp add: g_def sub)
      with same obtain s' where s': "sd = Some s'"
        by (auto simp: same_subdomain_def split: option.splits)
      with gl same_subdomain_sym [OF ks, of "g l"] same have "same_subdomain s' k" by simp
      with free [OF s' k False] show ?thesis by blast
    next
      case False
      then have "same_subdomain s l" using same by (simp add: g_def)
      with u k l ks show ?thesis by (simp add: subdomains_unique_def)
    qed
  qed
  have "set (update_by t_id i f (tunnels t)) = g ` set (tunnels t)"
    by (simp add: set_update_by g_def)
  then show ?thesis unfolding subdomains_unique_def
    by (simp add: g_id) (meson elem_set key)
qed

lemma subdomains_unique_frame:
  assumes u: "subdomains_unique t" and "\<And>k. t_id (f k) = t_id k"
    and "\<And>k. t_subdomain (f k) = t_subdomain k"
  shows "subdomains_unique (t\<lparr>tunnels := update_by t_id i f (tunnels t)\<rparr>)"
proof -
  define g where "g k = (if t_id k = i then f k else k)" for k
  have "t_id (g k) = t_id k" "t_subdomain (g k) = t_subdomain k" for k
    by (simp_all add: g_def assms)
  moreover from this have "same_subdomain s (g k) = same_subdomain s k" for s k
    by (simp add: same_subdomain_def)
  moreover have "set (update_by t_id i f (tunnels t)) = g ` set (tunnels t)"
    by (simp add: set_update_by g_def)
  ultimately show ?thesis using u by (simp add: subdomains_unique_def)
qed

lemma subdomains_unique_delete:
  "subdomains_unique t \<Longrightarrow> subdomains_unique (t\<lparr>tunnels := delete_by key k (tunnels t)\<rparr>)"
  by (simp add: subdomains_unique_def set_delete_by)

end
