(* ===== verification/App_State.thy ===== *)
theory App_State
  imports Db_Tunnels
begin

text \<open>
  The shared state of \<open>src/state.rs\<close> and the runtime objects its handles point to.

  The record \<open>app_state\<close> has the fields of \<open>AppState\<close>, then the heap they refer to: the
  channels (a sender is the number of its channel), the listener tasks (a \<open>JoinHandle\<close> is
  the number of its task) and the operating system's answers to \<open>bind\<close>. A channel keeps its
  queue and whether its receiver is alive; sending to a dropped receiver fails.

  The locale \<open>port_pool\<close> is the contract of the port allocator, the one the tunnel creation
  relies on; \<open>allocate_port\<close> and \<open>free_port\<close> are shown to satisfy it. The locale \<open>db_rel\<close>
  lifts a relation between connections to the states of the relay.
\<close>

section \<open>The state\<close>

record relay_chan =
  rq :: "relay_message list"
  r_open :: bool

record data_chan =
  dq :: "bytes list"
  d_rx :: bool
  d_tx :: bool

datatype proto = Tcp | Udp

datatype task_status = Running | Aborted | Finished

record listener =
  l_tunnel :: uuid
  l_agent :: uuid
  l_proto :: proto
  l_port :: u16
  l_sender :: nat
  l_waiting :: bool
  l_status :: task_status

record app_state =
  db :: conn
  port_range :: "u16 \<times> u16"
  allocated_ports :: "u16 set"
  user_sessions :: "string \<rightharpoonup> string"
  admin_sessions :: "string set"
  agent_senders :: "uuid \<rightharpoonup> nat"
  pending_claims :: "string \<rightharpoonup> nat"
  tcp_conn_senders :: "uuid \<rightharpoonup> nat"
  tunnel_tasks :: "uuid \<rightharpoonup> nat"
  live_traffic :: "uuid \<rightharpoonup> u64 \<times> u64"
  relay_chans :: "nat \<rightharpoonup> relay_chan"
  next_relay_chan :: nat
  data_chans :: "nat \<rightharpoonup> data_chan"
  next_data_chan :: nat
  listeners :: "nat \<rightharpoonup> listener"
  next_listener :: nat
  bind_error :: "nat \<Rightarrow> string option"
  binds :: nat

definition new_app_state :: "conn \<Rightarrow> u16 \<times> u16 \<Rightarrow> (nat \<Rightarrow> string option) \<Rightarrow> app_state" where
  "new_app_state db_conn pr os =
     \<lparr>db = db_conn, port_range = pr, allocated_ports = {}, user_sessions = Map.empty,
      admin_sessions = {}, agent_senders = Map.empty, pending_claims = Map.empty,
      tcp_conn_senders = Map.empty, tunnel_tasks = Map.empty, live_traffic = Map.empty,
      relay_chans = Map.empty, next_relay_chan = 0, data_chans = Map.empty, next_data_chan = 0,
      listeners = Map.empty, next_listener = 0, bind_error = os, binds = 0\<rparr>"

section \<open>Channels\<close>

definition new_relay_chan :: "app_state \<Rightarrow> nat \<times> app_state" where
  "new_relay_chan s = (next_relay_chan s,
     s\<lparr>relay_chans := (relay_chans s)(next_relay_chan s \<mapsto> \<lparr>rq = [], r_open = True\<rparr>),
       next_relay_chan := next_relay_chan s + 1\<rparr>)"

definition relay_closed :: "nat \<Rightarrow> app_state \<Rightarrow> bool" where
  "relay_closed ch s = (case relay_chans s ch of None \<Rightarrow> True | Some c \<Rightarrow> \<not> r_open c)"

definition send_relay :: "nat \<Rightarrow> relay_message \<Rightarrow> app_state \<Rightarrow> bool \<times> app_state" where
  "send_relay ch m s = (case relay_chans s ch of
      None \<Rightarrow> (False, s)
    | Some c \<Rightarrow>
        (if r_open c then (True, s\<lparr>relay_chans := (relay_chans s)(ch \<mapsto> c\<lparr>rq := rq c @ [m]\<rparr>)\<rparr>)
         else (False, s)))"

text \<open>\<open>let _ = sender.send(m)\<close>.\<close>

definition post :: "nat \<Rightarrow> relay_message \<Rightarrow> app_state \<Rightarrow> app_state" where
  "post ch m s = snd (send_relay ch m s)"

definition drop_relay_rx :: "nat \<Rightarrow> app_state \<Rightarrow> app_state" where
  "drop_relay_rx ch s = (case relay_chans s ch of
      None \<Rightarrow> s
    | Some c \<Rightarrow> s\<lparr>relay_chans := (relay_chans s)(ch \<mapsto> \<lparr>rq = [], r_open = False\<rparr>)\<rparr>)"

definition new_data_chan :: "app_state \<Rightarrow> nat \<times> app_state" where
  "new_data_chan s = (next_data_chan s,
     s\<lparr>data_chans := (data_chans s)(next_data_chan s \<mapsto> \<lparr>dq = [], d_rx = True, d_tx = True\<rparr>),
       next_data_chan := next_data_chan s + 1\<rparr>)"

definition send_data :: "nat \<Rightarrow> bytes \<Rightarrow> app_state \<Rightarrow> app_state" where
  "send_data ch bs s = (case data_chans s ch of
      None \<Rightarrow> s
    | Some c \<Rightarrow>
        (if d_rx c then s\<lparr>data_chans := (data_chans s)(ch \<mapsto> c\<lparr>dq := dq c @ [bs]\<rparr>)\<rparr> else s))"

text \<open>A data channel has one sender, the one in \<open>tcp_conn_senders\<close>; removing it drops it.\<close>

definition drop_data_tx :: "nat \<Rightarrow> app_state \<Rightarrow> app_state" where
  "drop_data_tx ch s = (case data_chans s ch of
      None \<Rightarrow> s
    | Some c \<Rightarrow> s\<lparr>data_chans := (data_chans s)(ch \<mapsto> c\<lparr>d_tx := False\<rparr>)\<rparr>)"

definition drop_data_rx :: "nat \<Rightarrow> app_state \<Rightarrow> app_state" where
  "drop_data_rx ch s = (case data_chans s ch of
      None \<Rightarrow> s
    | Some c \<Rightarrow> s\<lparr>data_chans := (data_chans s)(ch \<mapsto> c\<lparr>dq := [], d_rx := False\<rparr>)\<rparr>)"

definition remove_conn_sender :: "uuid \<Rightarrow> app_state \<Rightarrow> app_state" where
  "remove_conn_sender conn_id s = (case tcp_conn_senders s conn_id of
      None \<Rightarrow> s
    | Some ch \<Rightarrow> drop_data_tx ch (s\<lparr>tcp_conn_senders := (tcp_conn_senders s)(conn_id := None)\<rparr>))"

section \<open>The methods of the state\<close>

definition allocate_port :: "u16 option \<Rightarrow> app_state \<Rightarrow> u16 option \<times> app_state" where
  "allocate_port preferred s =
     (case preferred of
        Some p \<Rightarrow>
          (if 1024 \<le> p \<and> p \<notin> allocated_ports s
           then (Some p, s\<lparr>allocated_ports := insert p (allocated_ports s)\<rparr>)
           else (None, s))
      | None \<Rightarrow>
          (case find (\<lambda>p. p \<notin> allocated_ports s) (port_list (port_range s)) of
             Some p \<Rightarrow> (Some p, s\<lparr>allocated_ports := insert p (allocated_ports s)\<rparr>)
           | None \<Rightarrow> (None, s)))"

definition free_port :: "u16 \<Rightarrow> app_state \<Rightarrow> app_state" where
  "free_port port s = s\<lparr>allocated_ports := allocated_ports s - {port}\<rparr>"

definition record_traffic :: "uuid \<Rightarrow> u64 \<Rightarrow> u64 \<Rightarrow> app_state \<Rightarrow> app_state" where
  "record_traffic tunnel_id bytes_in bytes_out s =
     (let entry = (case live_traffic s tunnel_id of None \<Rightarrow> (0, 0) | Some e \<Rightarrow> e)
      in s\<lparr>live_traffic := (live_traffic s)
             (tunnel_id \<mapsto> (fst entry + bytes_in, snd entry + bytes_out))\<rparr>)"

section \<open>The contract of the port allocator\<close>

locale port_pool =
  fixes alloc :: "u16 option \<Rightarrow> 's \<Rightarrow> u16 option \<times> 's"
    and free :: "u16 \<Rightarrow> 's \<Rightarrow> 's"
    and held :: "'s \<Rightarrow> u16 set"
    and pool :: "'s \<Rightarrow> u16 set"
  assumes alloc_Some: "alloc q s = (Some p, t) \<Longrightarrow> p \<notin> held s \<and> held t = insert p (held s)"
    and alloc_None: "alloc q s = (None, t) \<Longrightarrow> t = s"
    and preferred_iff: "fst (alloc (Some p) s) = (if 1024 \<le> p \<and> p \<notin> held s then Some p else None)"
    and dynamic_in_pool: "alloc None s = (Some p, t) \<Longrightarrow> p \<in> pool s"
    and dynamic_None: "fst (alloc None s) = None \<longleftrightarrow> pool s \<subseteq> held s"
    and free_held: "held (free p s) = held s - {p}"
begin

lemma no_double: "alloc q s = (Some p, t) \<Longrightarrow> alloc (Some p) t = (None, t)"
proof -
  assume "alloc q s = (Some p, t)"
  then have "p \<in> held t" by (auto dest: alloc_Some)
  then have "fst (alloc (Some p) t) = None" by (simp add: preferred_iff)
  then show ?thesis by (cases "alloc (Some p) t") (auto dest: alloc_None)
qed

lemma free_then_alloc: "1024 \<le> p \<Longrightarrow> fst (alloc (Some p) (free p s)) = Some p"
  by (simp add: preferred_iff free_held)

lemma free_restores: "alloc q s = (Some p, t) \<Longrightarrow> held (free p t) = held s"
  by (auto dest: alloc_Some simp: free_held)

primrec alloc_all :: "u16 option list \<Rightarrow> 's \<Rightarrow> u16 list \<times> 's" where
  "alloc_all [] s = ([], s)"
| "alloc_all (q # qs) s =
     (case alloc q s of
        (Some p, t) \<Rightarrow> (case alloc_all qs t of (ps, u) \<Rightarrow> (p # ps, u))
      | (None, t) \<Rightarrow> alloc_all qs t)"

lemma alloc_all_distinct:
  "alloc_all qs s = (ps, t) \<Longrightarrow>
     distinct ps \<and> set ps \<inter> held s = {} \<and> held t = set ps \<union> held s"
proof (induction qs arbitrary: s ps)
  case Nil
  then show ?case by simp
next
  case (Cons q qs)
  obtain r u where a: "alloc q s = (r, u)" by (cases "alloc q s")
  show ?case
  proof (cases r)
    case None
    with a Cons.prems have "u = s" "alloc_all qs s = (ps, t)" by (auto dest: alloc_None)
    with Cons.IH show ?thesis by blast
  next
    case (Some p)
    with a Cons.prems obtain ps' where ps': "alloc_all qs u = (ps', t)" "ps = p # ps'"
      by (auto split: prod.splits)
    from a Some alloc_Some have "p \<notin> held s" "held u = insert p (held s)" by blast+
    with ps' Cons.IH [OF ps'(1)] show ?thesis by auto
  qed
qed

end

lemma allocate_port_preferred:
  "fst (allocate_port (Some q) s) = (if 1024 \<le> q \<and> q \<notin> allocated_ports s then Some q else None)"
  by (simp add: allocate_port_def)

interpretation ports: port_pool allocate_port free_port allocated_ports "\<lambda>s. set (port_list (port_range s))"
proof unfold_locales
  fix q s p t
  assume "allocate_port q s = (Some p, t)"
  then show "p \<notin> allocated_ports s \<and> allocated_ports t = insert p (allocated_ports s)"
    by (auto simp: allocate_port_def find_Some_iff split: option.splits if_splits)
next
  fix q s t
  assume "allocate_port q s = (None, t)"
  then show "t = s" by (auto simp: allocate_port_def split: option.splits if_splits)
next
  fix s p t
  assume "allocate_port None s = (Some p, t)"
  then show "p \<in> set (port_list (port_range s))"
    by (auto simp: allocate_port_def find_Some_iff split: option.splits)
next
  fix s
  show "fst (allocate_port None s) = None \<longleftrightarrow> set (port_list (port_range s)) \<subseteq> allocated_ports s"
    using find_not_in_None [of "allocated_ports s" "port_list (port_range s)"]
    by (cases "find (\<lambda>p. p \<notin> allocated_ports s) (port_list (port_range s))")
      (auto simp: allocate_port_def)
qed (simp_all add: allocate_port_preferred free_port_def)

section \<open>Traffic counters\<close>

lemma record_traffic_lookup:
  "live_traffic (record_traffic i a b s) j =
     (if j = i then Some (case live_traffic s i of None \<Rightarrow> (a, b) | Some (x, y) \<Rightarrow> (x + a, y + b))
      else live_traffic s j)"
  by (auto simp: record_traffic_def Let_def split: option.split prod.split)

section \<open>Running a database operation inside the state\<close>

definition on_db :: "(conn, 'a, 'e) prog \<Rightarrow> (app_state, 'a, 'e) prog" where
  "on_db m = (\<lambda>s. case m (db s) of (r, c) \<Rightarrow> (r, s\<lparr>db := c\<rparr>))"

lemma on_db_run: "m (db s) = (r, c) \<Longrightarrow> on_db m s = (r, s\<lparr>db := c\<rparr>)"
  by (simp add: on_db_def)

lemma on_db_eq: "on_db m s = (r, t) \<longleftrightarrow> (\<exists>c. m (db s) = (r, c) \<and> t = s\<lparr>db := c\<rparr>)"
  by (auto simp: on_db_def split: prod.splits)

lemma on_db_snd: "snd (on_db m s) = s\<lparr>db := snd (m (db s))\<rparr>"
  by (simp add: on_db_def split: prod.split)

locale db_rel = step_rel R for R :: "conn \<Rightarrow> conn \<Rightarrow> bool"
begin

definition app_R :: "app_state \<Rightarrow> app_state \<Rightarrow> bool" where
  "app_R s t \<longleftrightarrow> R (db s) (db t)"

sublocale app: step_rel app_R
  by unfold_locales (auto simp: app_R_def R_refl intro: R_trans)

lemma on_db_step: "obeys R m \<Longrightarrow> obeys app_R (on_db m)"
  by (simp add: obeys_def app_R_def on_db_snd)

lemma app_R_mem: "db t = db s \<Longrightarrow> app_R s t"
  by (simp add: app_R_def R_refl)

lemma modify_mem: "(\<And>s. db (f s) = db s) \<Longrightarrow> obeys app_R (modify f)"
  by (rule app.modify_step) (simp add: app_R_mem)

lemma total_mem: "(\<And>s. db (snd (f s)) = db s) \<Longrightarrow> obeys app_R (total f)"
  by (rule app.total_step) (simp add: app_R_mem)

end

interpretation app_wf: db_rel wf_step
  by unfold_locales

interpretation app_refs: db_rel refs_step
  by unfold_locales

interpretation app_world: db_rel same_world
  by unfold_locales

section \<open>What the memory operations leave alone\<close>

lemma new_relay_chan_frame [frames]:
  "db (snd (new_relay_chan s)) = db s" "allocated_ports (snd (new_relay_chan s)) = allocated_ports s"
  "tunnel_tasks (snd (new_relay_chan s)) = tunnel_tasks s" "listeners (snd (new_relay_chan s)) = listeners s"
  "next_listener (snd (new_relay_chan s)) = next_listener s"
  "agent_senders (snd (new_relay_chan s)) = agent_senders s"
  by (simp_all add: new_relay_chan_def)

lemma post_frame [frames, simp]:
  "db (post ch m s) = db s" "allocated_ports (post ch m s) = allocated_ports s"
  "tunnel_tasks (post ch m s) = tunnel_tasks s" "listeners (post ch m s) = listeners s"
  "next_listener (post ch m s) = next_listener s" "agent_senders (post ch m s) = agent_senders s"
  "pending_claims (post ch m s) = pending_claims s" "user_sessions (post ch m s) = user_sessions s"
  "admin_sessions (post ch m s) = admin_sessions s" "port_range (post ch m s) = port_range s"
  "tcp_conn_senders (post ch m s) = tcp_conn_senders s" "live_traffic (post ch m s) = live_traffic s"
  "data_chans (post ch m s) = data_chans s" "next_relay_chan (post ch m s) = next_relay_chan s"
  "bind_error (post ch m s) = bind_error s" "binds (post ch m s) = binds s"
  "next_data_chan (post ch m s) = next_data_chan s"
  by (simp_all add: post_def send_relay_def split: option.split)

lemma post_closed [simp]: "relay_closed ch' (post ch m s) = relay_closed ch' s"
  by (simp add: post_def send_relay_def relay_closed_def split: option.split)

lemma post_open:
  "relay_chans s ch = Some c \<Longrightarrow> r_open c \<Longrightarrow>
    relay_chans (post ch m s) = (relay_chans s)(ch \<mapsto> c\<lparr>rq := rq c @ [m]\<rparr>)"
  by (simp add: post_def send_relay_def)

lemma post_db_update [simp]: "post ch m (s\<lparr>db := c\<rparr>) = (post ch m s)\<lparr>db := c\<rparr>"
  by (simp add: post_def send_relay_def split: option.split)

lemma free_port_frame [frames, simp]:
  "db (free_port p s) = db s" "tunnel_tasks (free_port p s) = tunnel_tasks s"
  "listeners (free_port p s) = listeners s" "next_listener (free_port p s) = next_listener s"
  "agent_senders (free_port p s) = agent_senders s" "relay_chans (free_port p s) = relay_chans s"
  "user_sessions (free_port p s) = user_sessions s" "pending_claims (free_port p s) = pending_claims s"
  "allocated_ports (free_port p s) = allocated_ports s - {p}"
  by (simp_all add: free_port_def)

lemma allocate_port_frame [frames, simp]:
  "db (snd (allocate_port q s)) = db s" "tunnel_tasks (snd (allocate_port q s)) = tunnel_tasks s"
  "listeners (snd (allocate_port q s)) = listeners s"
  "next_listener (snd (allocate_port q s)) = next_listener s"
  "agent_senders (snd (allocate_port q s)) = agent_senders s"
  "relay_chans (snd (allocate_port q s)) = relay_chans s"
  "user_sessions (snd (allocate_port q s)) = user_sessions s"
  by (simp_all add: allocate_port_def split: option.split)

lemma record_traffic_frame [frames, simp]:
  "db (record_traffic i a b s) = db s" "allocated_ports (record_traffic i a b s) = allocated_ports s"
  "tunnel_tasks (record_traffic i a b s) = tunnel_tasks s" "listeners (record_traffic i a b s) = listeners s"
  "next_listener (record_traffic i a b s) = next_listener s"
  "agent_senders (record_traffic i a b s) = agent_senders s"
  "relay_chans (record_traffic i a b s) = relay_chans s" "data_chans (record_traffic i a b s) = data_chans s"
  "tcp_conn_senders (record_traffic i a b s) = tcp_conn_senders s"
  by (simp_all add: record_traffic_def Let_def)

end
