(* ===== verification/Tunnel_Manager.thy ===== *)
theory Tunnel_Manager
  imports App_State
begin

text \<open>
  \<open>src/tunnel_manager.rs\<close>: starting and stopping a tunnel's listener.

  A listener is a spawned task that owns a bound socket; \<open>tunnel_tasks\<close> maps a tunnel to its
  task. Binding fails when a running listener of the relay holds the port for the same
  protocol, or when the operating system refuses (another process, or an aborted task whose
  socket is not closed yet). Aborting takes effect at once in the model.

  \<open>listeners_wf\<close> is the invariant: every running listener is the registered one of its
  tunnel, every registered task exists, and no two running listeners share a socket. The
  locale \<open>listener_registry\<close> is the contract the WebSocket and the HTTP handlers rely on.
\<close>

definition port_in_use :: "proto \<Rightarrow> u16 \<Rightarrow> app_state \<Rightarrow> bool" where
  "port_in_use pr p s = list_ex (\<lambda>h. case listeners s h of
      None \<Rightarrow> False
    | Some l \<Rightarrow> l_status l = Running \<and> l_proto l = pr \<and> l_port l = p) [0..<next_listener s]"

definition bind_socket :: "proto \<Rightarrow> u16 \<Rightarrow> (app_state, unit, string) prog" where
  "bind_socket pr p = (\<lambda>s.
     let t = s\<lparr>binds := binds s + 1\<rparr>
     in if port_in_use pr p s then (Err ''Address already in use (os error 98)'', t)
        else (case bind_error s (binds s) of Some e \<Rightarrow> (Err e, t) | None \<Rightarrow> (Ok (), t)))"

definition spawn_listener :: "tunnel_config \<Rightarrow> proto \<Rightarrow> nat \<Rightarrow> app_state \<Rightarrow> app_state" where
  "spawn_listener tunnel pr agent_sender s =
     s\<lparr>listeners := (listeners s)(next_listener s \<mapsto>
         \<lparr>l_tunnel = tc_id tunnel, l_agent = tc_agent_id tunnel, l_proto = pr,
          l_port = tc_public_port tunnel, l_sender = agent_sender, l_waiting = False,
          l_status = Running\<rparr>),
       next_listener := next_listener s + 1,
       tunnel_tasks := (tunnel_tasks s)(tc_id tunnel \<mapsto> next_listener s)\<rparr>"

definition set_status :: "nat \<Rightarrow> task_status \<Rightarrow> app_state \<Rightarrow> app_state" where
  "set_status h st s = (case listeners s h of
      None \<Rightarrow> s
    | Some l \<Rightarrow> s\<lparr>listeners := (listeners s)(h \<mapsto> l\<lparr>l_status := st\<rparr>)\<rparr>)"

text \<open>\<open>JoinHandle::abort\<close> does nothing to a task that has ended.\<close>

definition abort_task :: "nat \<Rightarrow> app_state \<Rightarrow> app_state" where
  "abort_task h s = (case listeners s h of
      None \<Rightarrow> s
    | Some l \<Rightarrow> (if l_status l = Running then set_status h Aborted s else s))"

definition stop_tunnel_listener :: "uuid \<Rightarrow> app_state \<Rightarrow> app_state" where
  "stop_tunnel_listener tunnel_id s = (case tunnel_tasks s tunnel_id of
      Some h \<Rightarrow> abort_task h (s\<lparr>tunnel_tasks := (tunnel_tasks s)(tunnel_id := None)\<rparr>)
    | None \<Rightarrow> s)"

definition start_tunnel_listener :: "tunnel_config \<Rightarrow> nat \<Rightarrow> (app_state, unit, string) prog" where
  "start_tunnel_listener tunnel agent_sender =
     and_then (modify (stop_tunnel_listener (tc_id tunnel))) (\<lambda>_.
     let public_port = tc_public_port tunnel in
     if ascii_lower (tc_protocol tunnel) = ''tcp'' then
       and_then (map_err (\<lambda>e. ''Failed to bind TCP port '' @ fmt_dec (unat public_port) @ '': '' @ e)
         (bind_socket Tcp public_port)) (\<lambda>_.
       modify (spawn_listener tunnel Tcp agent_sender))
     else
       and_then (map_err (\<lambda>e. ''Failed to bind UDP port '' @ fmt_dec (unat public_port) @ '': '' @ e)
         (bind_socket Udp public_port)) (\<lambda>_.
       modify (spawn_listener tunnel Udp agent_sender)))"

definition proto_of :: "tunnel_config \<Rightarrow> proto" where
  "proto_of k = (if ascii_lower (tc_protocol k) = ''tcp'' then Tcp else Udp)"

section \<open>Frames\<close>

definition mem_frame :: "app_state \<Rightarrow> app_state \<Rightarrow> bool" where
  "mem_frame s t \<longleftrightarrow> db t = db s \<and> port_range t = port_range s \<and> allocated_ports t = allocated_ports s
     \<and> user_sessions t = user_sessions s \<and> admin_sessions t = admin_sessions s
     \<and> agent_senders t = agent_senders s \<and> pending_claims t = pending_claims s
     \<and> tcp_conn_senders t = tcp_conn_senders s \<and> live_traffic t = live_traffic s
     \<and> relay_chans t = relay_chans s \<and> next_relay_chan t = next_relay_chan s
     \<and> data_chans t = data_chans s \<and> next_data_chan t = next_data_chan s
     \<and> bind_error t = bind_error s"

interpretation listeners_only: step_rel mem_frame
  by unfold_locales (simp_all add: mem_frame_def)

lemma set_status_frame [simp]:
  "tunnel_tasks (set_status h st s) = tunnel_tasks s" "next_listener (set_status h st s) = next_listener s"
  "mem_frame s (set_status h st s)"
  by (simp_all add: set_status_def mem_frame_def split: option.split)

lemma stop_frame: "mem_frame s (stop_tunnel_listener i s)"
  by (simp add: stop_tunnel_listener_def abort_task_def set_status_def mem_frame_def split: option.split)

lemma start_frame: "obeys mem_frame (start_tunnel_listener k ch)"
  unfolding start_tunnel_listener_def Let_def
  by (intro listeners_only.rules listeners_only.modify_step stop_frame)
    (auto simp: obeys_def mem_frame_def bind_socket_def spawn_listener_def Let_def split: option.split)

lemma stop_fields [simp]:
  "db (stop_tunnel_listener i s) = db s" "allocated_ports (stop_tunnel_listener i s) = allocated_ports s"
  "agent_senders (stop_tunnel_listener i s) = agent_senders s"
  "relay_chans (stop_tunnel_listener i s) = relay_chans s"
  "user_sessions (stop_tunnel_listener i s) = user_sessions s"
  "pending_claims (stop_tunnel_listener i s) = pending_claims s"
  "tcp_conn_senders (stop_tunnel_listener i s) = tcp_conn_senders s"
  "data_chans (stop_tunnel_listener i s) = data_chans s"
  "admin_sessions (stop_tunnel_listener i s) = admin_sessions s"
  using stop_frame [of s i] by (simp_all add: mem_frame_def)

section \<open>The invariant\<close>

definition running :: "app_state \<Rightarrow> uuid \<Rightarrow> bool" where
  "running s i \<longleftrightarrow> (\<exists>h l. tunnel_tasks s i = Some h \<and> listeners s h = Some l \<and> l_status l = Running)"

definition listeners_wf :: "app_state \<Rightarrow> bool" where
  "listeners_wf s \<longleftrightarrow>
     (\<forall>h l. listeners s h = Some l \<longrightarrow> h < next_listener s)
   \<and> (\<forall>h l. listeners s h = Some l \<and> l_status l = Running \<longrightarrow> tunnel_tasks s (l_tunnel l) = Some h)
   \<and> (\<forall>i h. tunnel_tasks s i = Some h \<longrightarrow> (\<exists>l. listeners s h = Some l \<and> l_tunnel l = i))
   \<and> (\<forall>h l h' l'. listeners s h = Some l \<and> l_status l = Running
        \<and> listeners s h' = Some l' \<and> l_status l' = Running
        \<and> l_proto l = l_proto l' \<and> l_port l = l_port l' \<longrightarrow> h = h')"

lemma listeners_wfI:
  assumes "\<And>h l. listeners s h = Some l \<Longrightarrow> h < next_listener s"
    and "\<And>h l. listeners s h = Some l \<Longrightarrow> l_status l = Running \<Longrightarrow> tunnel_tasks s (l_tunnel l) = Some h"
    and "\<And>i h. tunnel_tasks s i = Some h \<Longrightarrow> \<exists>l. listeners s h = Some l \<and> l_tunnel l = i"
    and "\<And>h l h' l'. listeners s h = Some l \<Longrightarrow> l_status l = Running \<Longrightarrow> listeners s h' = Some l'
      \<Longrightarrow> l_status l' = Running \<Longrightarrow> l_proto l = l_proto l' \<Longrightarrow> l_port l = l_port l' \<Longrightarrow> h = h'"
  shows "listeners_wf s"
  unfolding listeners_wf_def using assms by blast

lemma wf_bound: "listeners_wf s \<Longrightarrow> listeners s h = Some l \<Longrightarrow> h < next_listener s"
  unfolding listeners_wf_def by blast

lemma wf_registered:
  "listeners_wf s \<Longrightarrow> listeners s h = Some l \<Longrightarrow> l_status l = Running \<Longrightarrow> tunnel_tasks s (l_tunnel l) = Some h"
  unfolding listeners_wf_def by blast

lemma wf_task: "listeners_wf s \<Longrightarrow> tunnel_tasks s i = Some h \<Longrightarrow> \<exists>l. listeners s h = Some l \<and> l_tunnel l = i"
  unfolding listeners_wf_def by blast

lemma wf_one_socket:
  "listeners_wf s \<Longrightarrow> listeners s h = Some l \<Longrightarrow> l_status l = Running \<Longrightarrow> listeners s h' = Some l'
    \<Longrightarrow> l_status l' = Running \<Longrightarrow> l_proto l = l_proto l' \<Longrightarrow> l_port l = l_port l' \<Longrightarrow> h = h'"
  unfolding listeners_wf_def by blast

lemma wf_fresh: "listeners_wf s \<Longrightarrow> listeners s (next_listener s) = None"
  by (metis less_irrefl option.exhaust wf_bound)

lemma listeners_wf_frame:
  "listeners t = listeners s \<Longrightarrow> tunnel_tasks t = tunnel_tasks s \<Longrightarrow> next_listener t = next_listener s
    \<Longrightarrow> listeners_wf t = listeners_wf s"
  by (simp add: listeners_wf_def)

lemma running_frame:
  "listeners t = listeners s \<Longrightarrow> tunnel_tasks t = tunnel_tasks s \<Longrightarrow> running t i = running s i"
  by (simp add: running_def)

lemma port_in_use_iff:
  assumes "listeners_wf s"
  shows "port_in_use pr p s \<longleftrightarrow>
    (\<exists>h l. listeners s h = Some l \<and> l_status l = Running \<and> l_proto l = pr \<and> l_port l = p)"
proof
  assume "port_in_use pr p s"
  then show "\<exists>h l. listeners s h = Some l \<and> l_status l = Running \<and> l_proto l = pr \<and> l_port l = p"
    unfolding port_in_use_def list_ex_iff by (auto split: option.splits)
next
  assume "\<exists>h l. listeners s h = Some l \<and> l_status l = Running \<and> l_proto l = pr \<and> l_port l = p"
  then obtain h l where hl: "listeners s h = Some l" "l_status l = Running" "l_proto l = pr" "l_port l = p"
    by blast
  from hl(1) have "h \<in> set [0..<next_listener s]" using wf_bound [OF assms] by simp
  with hl show "port_in_use pr p s" unfolding port_in_use_def list_ex_iff by force
qed

lemma stop_listeners:
  "listeners (stop_tunnel_listener i s) =
    (case tunnel_tasks s i of None \<Rightarrow> listeners s
     | Some h \<Rightarrow> (case listeners s h of None \<Rightarrow> listeners s
       | Some l \<Rightarrow> if l_status l = Running then (listeners s)(h \<mapsto> l\<lparr>l_status := Aborted\<rparr>)
                   else listeners s))"
  by (simp add: stop_tunnel_listener_def abort_task_def set_status_def split: option.split)

lemma stop_tasks [simp]:
  "tunnel_tasks (stop_tunnel_listener i s) = (tunnel_tasks s)(i := None)"
  "next_listener (stop_tunnel_listener i s) = next_listener s"
  by (auto simp: stop_tunnel_listener_def abort_task_def set_status_def split: option.split)

lemma stop_running_listener:
  assumes wf: "listeners_wf s"
  shows "listeners (stop_tunnel_listener i s) h = Some l \<and> l_status l = Running \<longleftrightarrow>
    listeners s h = Some l \<and> l_status l = Running \<and> l_tunnel l \<noteq> i"
proof (cases "tunnel_tasks s i")
  case None
  with wf_registered [OF wf] show ?thesis by (auto simp: stop_listeners)
next
  case (Some h0)
  then obtain l0 where l0: "listeners s h0 = Some l0" "l_tunnel l0 = i"
    using wf_task [OF wf] by blast
  have "h = h0" if "listeners s h = Some l" "l_status l = Running" "l_tunnel l = i"
    using wf_registered [OF wf that(1,2)] that(3) Some by simp
  with Some l0 show ?thesis by (auto simp: stop_listeners)
qed

lemma stop_listener_tunnel:
  "map_option l_tunnel (listeners (stop_tunnel_listener i s) h) = map_option l_tunnel (listeners s h)"
  by (auto simp: stop_listeners split: option.split)

lemma stop_wf:
  assumes wf: "listeners_wf s"
  shows "listeners_wf (stop_tunnel_listener i s)"
proof (rule listeners_wfI)
  note run = stop_running_listener [OF wf]
  fix h l h' l' j
  show "listeners (stop_tunnel_listener i s) h = Some l \<Longrightarrow> h < next_listener (stop_tunnel_listener i s)"
    using stop_listener_tunnel [of i s h] wf_bound [OF wf] by (cases "listeners s h") auto
  show "tunnel_tasks (stop_tunnel_listener i s) j = Some h \<Longrightarrow>
      \<exists>l. listeners (stop_tunnel_listener i s) h = Some l \<and> l_tunnel l = j"
    using stop_listener_tunnel [of i s h] wf_task [OF wf, of j h] by (auto split: if_splits)
  assume l: "listeners (stop_tunnel_listener i s) h = Some l" "l_status l = Running"
  with run have o: "listeners s h = Some l" "l_tunnel l \<noteq> i" by blast+
  with wf_registered [OF wf o(1) l(2)]
  show "tunnel_tasks (stop_tunnel_listener i s) (l_tunnel l) = Some h" by simp
  assume l': "listeners (stop_tunnel_listener i s) h' = Some l'" "l_status l' = Running"
    "l_proto l = l_proto l'" "l_port l = l_port l'"
  with run have "listeners s h' = Some l'" by blast
  with wf_one_socket [OF wf o(1) l(2)] l' show "h = h'" by blast
qed

lemma running_iff:
  assumes "listeners_wf s"
  shows "running s i \<longleftrightarrow> (\<exists>h l. listeners s h = Some l \<and> l_status l = Running \<and> l_tunnel l = i)"
  unfolding running_def using wf_registered [OF assms] wf_task [OF assms] by (metis option.inject)

lemma stop_running:
  assumes wf: "listeners_wf s"
  shows "running (stop_tunnel_listener i s) j \<longleftrightarrow> j \<noteq> i \<and> running s j"
  unfolding running_iff [OF wf] running_iff [OF stop_wf [OF wf]]
  by (simp only: conj_assoc [symmetric] stop_running_listener [OF wf]) blast

lemma spawn_fields [simp]:
  "next_listener (spawn_listener k pr ch s) = Suc (next_listener s)"
  "tunnel_tasks (spawn_listener k pr ch s) = (tunnel_tasks s)(tc_id k \<mapsto> next_listener s)"
  "mem_frame s (spawn_listener k pr ch s)"
  by (simp_all add: spawn_listener_def mem_frame_def)

lemma spawn_listeners:
  "listeners (spawn_listener k pr ch s) h = Some l \<longleftrightarrow>
     (if h = next_listener s
      then l = \<lparr>l_tunnel = tc_id k, l_agent = tc_agent_id k, l_proto = pr,
                l_port = tc_public_port k, l_sender = ch, l_waiting = False, l_status = Running\<rparr>
      else listeners s h = Some l)"
  by (auto simp: spawn_listener_def)

lemma spawn_wf:
  assumes wf: "listeners_wf s" and none: "tunnel_tasks s (tc_id k) = None"
    and free: "\<not> port_in_use pr (tc_public_port k) s"
  shows "listeners_wf (spawn_listener k pr ch s)"
proof (rule listeners_wfI)
  fix h l h' l' i
  have no: "\<not> (l_proto l = pr \<and> l_port l = tc_public_port k)"
    if "listeners s h = Some l" "l_status l = Running" for h l
    using free that by (auto simp: port_in_use_iff [OF wf])
  have tid: "l_tunnel l \<noteq> tc_id k" if "listeners s h = Some l" "l_status l = Running" for h l
    using wf_registered [OF wf that] none by auto
  show "listeners (spawn_listener k pr ch s) h = Some l \<Longrightarrow> h < next_listener (spawn_listener k pr ch s)"
    using wf_bound [OF wf, of h l] by (auto simp: spawn_listeners split: if_splits)
  show "tunnel_tasks (spawn_listener k pr ch s) i = Some h \<Longrightarrow>
      \<exists>l. listeners (spawn_listener k pr ch s) h = Some l \<and> l_tunnel l = i"
    using wf_task [OF wf, of i h] wf_fresh [OF wf] by (auto simp: spawn_listeners split: if_splits)
  assume l: "listeners (spawn_listener k pr ch s) h = Some l" "l_status l = Running"
  then show "tunnel_tasks (spawn_listener k pr ch s) (l_tunnel l) = Some h"
    using wf_registered [OF wf, of h l] tid [of h l] by (auto simp: spawn_listeners split: if_splits)
  assume l': "listeners (spawn_listener k pr ch s) h' = Some l'" "l_status l' = Running"
    "l_proto l = l_proto l'" "l_port l = l_port l'"
  show "h = h'"
  proof (cases "h = next_listener s \<or> h' = next_listener s")
    case True
    with l l' no [of h l] no [of h' l'] show ?thesis
      by (cases "h = next_listener s"; cases "h' = next_listener s") (simp_all add: spawn_listeners)
  next
    case False
    with l l' have "listeners s h = Some l" "listeners s h' = Some l'" by (simp_all add: spawn_listeners)
    with wf_one_socket [OF wf] l(2) l'(2-) show ?thesis by blast
  qed
qed

lemma start_cases:
  obtains (bound) "start_tunnel_listener k ch s =
      (Ok (), spawn_listener k (proto_of k) ch ((stop_tunnel_listener (tc_id k) s)\<lparr>binds := binds s + 1\<rparr>))"
      and "\<not> port_in_use (proto_of k) (tc_public_port k) (stop_tunnel_listener (tc_id k) s)"
  | (failed) e where "start_tunnel_listener k ch s =
      (Err e, (stop_tunnel_listener (tc_id k) s)\<lparr>binds := binds s + 1\<rparr>)"
proof -
  let ?s = "stop_tunnel_listener (tc_id k) s"
  let ?t = "?s\<lparr>binds := binds s + 1\<rparr>"
  have b: "binds ?s = binds s"
    by (simp add: stop_tunnel_listener_def abort_task_def set_status_def split: option.split)
  show thesis
  proof (cases "bind_socket (proto_of k) (tc_public_port k) ?s")
    case (Pair r t)
    then have t: "t = ?t" by (auto simp: bind_socket_def Let_def b split: if_splits option.splits)
    have "r \<noteq> Panic" using Pair by (auto simp: bind_socket_def Let_def split: if_splits option.splits)
    then consider "r = Ok ()" | e where "r = Err e" by (cases r) auto
    then show thesis
    proof cases
      case 1
      with Pair have "\<not> port_in_use (proto_of k) (tc_public_port k) ?s"
        by (auto simp: bind_socket_def Let_def split: if_splits)
      moreover from Pair 1 have "start_tunnel_listener k ch s = (Ok (), spawn_listener k (proto_of k) ch t)"
        by (simp add: start_tunnel_listener_def proto_of_def Let_def and_then_Ok map_err_Ok split: if_splits)
      ultimately show thesis using bound t by blast
    next
      case 2
      with Pair have "\<exists>e'. start_tunnel_listener k ch s = (Err e', t)"
        by (simp add: start_tunnel_listener_def proto_of_def Let_def and_then_Err map_err_Err split: if_splits)
      then show thesis using failed t by blast
    qed
  qed
qed

lemma binds_wf [simp]: "listeners_wf (s\<lparr>binds := n\<rparr>) = listeners_wf s"
  by (simp add: listeners_wf_def)

lemma binds_running [simp]: "running (s\<lparr>binds := n\<rparr>) i = running s i"
  by (simp add: running_def)

lemma start_wf:
  assumes wf: "listeners_wf s"
  shows "listeners_wf (snd (start_tunnel_listener k ch s))"
proof (cases rule: start_cases [where k = k and ch = ch and s = s])
  case bound
  have "\<not> port_in_use (proto_of k) (tc_public_port k) ((stop_tunnel_listener (tc_id k) s)\<lparr>binds := binds s + 1\<rparr>)"
    using bound(2) by (simp add: port_in_use_def)
  then show ?thesis using bound(1) stop_wf [OF wf] by (simp add: spawn_wf)
next
  case (failed e)
  then show ?thesis using stop_wf [OF wf] by simp
qed

lemma running_spawn:
  assumes wf: "listeners_wf s"
  shows "running (spawn_listener k pr ch s) j \<longleftrightarrow> j = tc_id k \<or> running s j"
proof (cases "j = tc_id k")
  case True
  then show ?thesis by (auto simp: running_def spawn_listeners)
next
  case False
  have "h \<noteq> next_listener s" if "tunnel_tasks s j = Some h" for h
    using wf_task [OF wf that] wf_fresh [OF wf] by auto
  with False show ?thesis by (auto simp: running_def spawn_listeners)
qed

section \<open>The contract of the registry\<close>

locale listener_registry =
  fixes start :: "tunnel_config \<Rightarrow> nat \<Rightarrow> ('s, unit, string) prog"
    and stop :: "uuid \<Rightarrow> 's \<Rightarrow> 's"
    and up :: "'s \<Rightarrow> uuid \<Rightarrow> bool"
    and wf :: "'s \<Rightarrow> bool"
  assumes wf_stop: "wf s \<Longrightarrow> wf (stop i s)"
    and wf_start: "wf s \<Longrightarrow> wf (snd (start k ch s))"
    and up_stop: "wf s \<Longrightarrow> up (stop i s) j \<longleftrightarrow> j \<noteq> i \<and> up s j"
    and up_start: "wf s \<Longrightarrow> start k ch s = (Ok (), t) \<Longrightarrow> up t j \<longleftrightarrow> j = tc_id k \<or> up s j"
    and up_failed: "wf s \<Longrightarrow> start k ch s = (Err e, t) \<Longrightarrow> up t j \<longleftrightarrow> j \<noteq> tc_id k \<and> up s j"
    and no_panic: "fst (start k ch s) \<noteq> Panic"
begin

lemma stop_all:
  "wf s \<Longrightarrow> wf (fold stop is s) \<and> (up (fold stop is s) j \<longleftrightarrow> j \<notin> set is \<and> up s j)"
  by (induction "is" arbitrary: s) (auto simp: wf_stop up_stop)

lemma start_result:
  assumes "wf s"
  obtains t where "start k ch s = (Ok (), t)" "wf t" "\<And>j. up t j \<longleftrightarrow> j = tc_id k \<or> up s j"
  | e t where "start k ch s = (Err e, t)" "wf t" "\<And>j. up t j \<longleftrightarrow> j \<noteq> tc_id k \<and> up s j"
proof (cases "start k ch s")
  case (Pair r t)
  with wf_start [OF assms, of k ch] have w: "wf t" by simp
  show ?thesis
  proof (cases r)
    case (Ok u)
    with Pair have "start k ch s = (Ok (), t)" by simp
    with w that(1) up_start [OF assms this] show ?thesis by blast
  next
    case (Err e)
    with Pair have "start k ch s = (Err e, t)" by simp
    with w that(2) up_failed [OF assms this] show ?thesis by blast
  next
    case Panic
    with Pair no_panic [of k ch s] show ?thesis by simp
  qed
qed

lemma other_tunnels: "wf s \<Longrightarrow> j \<noteq> tc_id k \<Longrightarrow> up (snd (start k ch s)) j = up s j"
  by (rule start_result [of s k ch]) auto

lemma restart_or_down: "wf s \<Longrightarrow> up (snd (start k ch s)) (tc_id k) \<longleftrightarrow> fst (start k ch s) = Ok ()"
  by (rule start_result [of s k ch]) auto

end

interpretation registry: listener_registry start_tunnel_listener stop_tunnel_listener running listeners_wf
proof unfold_locales
  fix s t :: app_state and k ch j e
  assume wf: "listeners_wf s"
  note w = stop_wf [OF wf] and r = stop_running [OF wf]
  show "start_tunnel_listener k ch s = (Ok (), t) \<Longrightarrow> running t j \<longleftrightarrow> j = tc_id k \<or> running s j"
    by (cases rule: start_cases [where k = k and ch = ch and s = s]) (auto simp: running_spawn w r)
  show "start_tunnel_listener k ch s = (Err e, t) \<Longrightarrow> running t j \<longleftrightarrow> j \<noteq> tc_id k \<and> running s j"
    by (cases rule: start_cases [where k = k and ch = ch and s = s]) (auto simp: r)
next
  fix s :: app_state and k ch
  show "fst (start_tunnel_listener k ch s) \<noteq> Panic"
    by (cases rule: start_cases [where k = k and ch = ch and s = s]) auto
qed (auto simp: stop_wf start_wf stop_running)

end
