(* ===== verification/Ws_Handler.thy ===== *)
theory Ws_Handler
  imports Tunnel_Manager
begin

text \<open>
  \<open>src/ws_handler.rs\<close>: the agent's side of the relay. A session is one WebSocket connection;
  its local variables are the record \<open>ws_session\<close>. \<open>handle_text\<close> is the body of the receive
  loop for a text frame, one definition per message; \<open>on_frame\<close> adds the frames that end the
  loop and the clean-up after it. \<open>send_task_step\<close> is one iteration of the task that forwards
  the channel's messages to the socket.

  The lemmas give the effect of each message on every branch, and that every handler keeps
  the tables and the listener registry well formed.
\<close>

record ws_session =
  s_chan :: nat
  authenticated_agent_id :: "uuid option"
  current_claim_code :: "string option"

datatype ws_frame = WsText string | WsClose | WsReadError | WsEnd | WsOther

section \<open>Synchronising an agent's tunnels\<close>

definition config_of_record :: "uuid \<Rightarrow> uuid \<Rightarrow> tunnel_record \<Rightarrow> tunnel_config" where
  "config_of_record tid agent_id t =
     \<lparr>tc_id = tid, tc_agent_id = agent_id, tc_name = tr_name t, tc_local_port = tr_local_port t,
      tc_protocol = tr_protocol t, tc_public_port = tr_public_port t,
      tc_subdomain = tr_subdomain t, tc_enabled = tr_enabled t\<rparr>"

definition reserve_port :: "u16 \<Rightarrow> app_state \<Rightarrow> app_state" where
  "reserve_port p s = s\<lparr>allocated_ports := insert p (allocated_ports s)\<rparr>"

primrec sync_loop ::
  "ext \<Rightarrow> uuid \<Rightarrow> nat \<Rightarrow> tunnel_record list \<Rightarrow> (app_state, tunnel_config list, 'e) prog" where
  "sync_loop x agent_id agent_sender [] = ret []"
| "sync_loop x agent_id agent_sender (t # ts) =
     (case uuid_parse_str x (tr_id t) of
        None \<Rightarrow> sync_loop x agent_id agent_sender ts
      | Some tid \<Rightarrow>
          let config = config_of_record tid agent_id t in
          and_then
            (if tc_enabled config then
               and_then (modify (reserve_port (tc_public_port config))) (\<lambda>_.
               ignore_err (start_tunnel_listener config agent_sender))
             else ret ()) (\<lambda>_.
          and_then (sync_loop x agent_id agent_sender ts) (\<lambda>configs.
          ret (config # configs))))"

definition sync_agent_tunnels :: "ext \<Rightarrow> uuid \<Rightarrow> nat \<Rightarrow> (app_state, unit, 'e) prog" where
  "sync_agent_tunnels x agent_id agent_sender =
     and_then (unwrap_or [] (on_db (list_tunnels_for_agent (uuid_to_string x agent_id)))) (\<lambda>db_tunnels.
     and_then (sync_loop x agent_id agent_sender db_tunnels) (\<lambda>tunnel_configs.
     modify (post agent_sender (SyncTunnels tunnel_configs))))"

section \<open>Disconnection\<close>

definition stop_and_free :: "ext \<Rightarrow> tunnel_record \<Rightarrow> app_state \<Rightarrow> app_state" where
  "stop_and_free x t s =
     (case uuid_parse_str x (tr_id t) of
        Some tid \<Rightarrow> free_port (tr_public_port t) (stop_tunnel_listener tid s)
      | None \<Rightarrow> s)"

definition cleanup_agent :: "ext \<Rightarrow> uuid \<Rightarrow> (app_state, unit, 'e) prog" where
  "cleanup_agent x agent_id =
     and_then (modify (\<lambda>s. s\<lparr>agent_senders := (agent_senders s)(agent_id := None)\<rparr>)) (\<lambda>_.
     and_then (ignore_err (on_db (set_agent_online (uuid_to_string x agent_id) False None))) (\<lambda>_.
     and_then (unwrap_or [] (on_db (list_tunnels_for_agent (uuid_to_string x agent_id)))) (\<lambda>db_tunnels.
     modify (fold (stop_and_free x) db_tunnels))))"

section \<open>The messages of an agent\<close>

definition claim_url :: "string \<Rightarrow> string" where
  "claim_url code = ''/claim/'' @ code"

definition set_pending :: "string \<Rightarrow> nat \<Rightarrow> app_state \<Rightarrow> app_state" where
  "set_pending code ch s = s\<lparr>pending_claims := (pending_claims s)(code \<mapsto> ch)\<rparr>"

definition on_request_claim ::
  "ext \<Rightarrow> ws_session \<Rightarrow> string \<Rightarrow> (app_state, ws_session, 'e) prog" where
  "on_request_claim x sess hostname =
     and_then (attempt (on_db (create_agent_claim x hostname))) (\<lambda>r.
     case r of
       Inr (record, code) \<Rightarrow>
         and_then (modify (set_pending code (s_chan sess))) (\<lambda>_.
         and_then (modify (post (s_chan sess)
           (ClaimReady code (claim_url code) (Some (ar_token record))))) (\<lambda>_.
         ret (sess\<lparr>current_claim_code := Some code\<rparr>)))
     | Inl e \<Rightarrow>
         and_then (modify (post (s_chan sess) (ErrorMsg ''Failed to generate claim code''))) (\<lambda>_.
         ret sess))"

definition register_sender :: "uuid \<Rightarrow> nat \<Rightarrow> app_state \<Rightarrow> app_state" where
  "register_sender agent_id ch s = s\<lparr>agent_senders := (agent_senders s)(agent_id \<mapsto> ch)\<rparr>"

definition on_auth ::
  "ext \<Rightarrow> ws_session \<Rightarrow> string \<Rightarrow> string \<Rightarrow> (app_state, ws_session, 'e) prog" where
  "on_auth x sess token hostname =
     and_then (attempt (on_db (get_agent_by_token token))) (\<lambda>agent_opt.
     case agent_opt of
       Inr (Some agent) \<Rightarrow>
         (case ar_claim_code agent of
            Some code \<Rightarrow>
              and_then (modify (set_pending code (s_chan sess))) (\<lambda>_.
              and_then (modify (post (s_chan sess)
                (ClaimReady code (claim_url code) (Some token)))) (\<lambda>_.
              ret (sess\<lparr>current_claim_code := Some code\<rparr>)))
          | None \<Rightarrow>
              (case uuid_parse_str x (ar_id agent) of
                 None \<Rightarrow>
                   and_then (modify (post (s_chan sess)
                     (ErrorMsg ''Invalid agent ID format in database''))) (\<lambda>_.
                   ret sess)
               | Some agent_id \<Rightarrow>
                   and_then (ignore_err (on_db
                     (set_agent_online (ar_id agent) True (Some hostname)))) (\<lambda>_.
                   and_then (modify (register_sender agent_id (s_chan sess))) (\<lambda>_.
                   and_then (modify (post (s_chan sess)
                     (AuthSuccess agent_id (ar_name agent) (ar_token agent)))) (\<lambda>_.
                   and_then (sync_agent_tunnels x agent_id (s_chan sess)) (\<lambda>_.
                   ret (sess\<lparr>authenticated_agent_id := Some agent_id\<rparr>)))))))
     | Inr None \<Rightarrow>
         and_then (modify (post (s_chan sess) (ErrorMsg ''Invalid or expired token''))) (\<lambda>_.
         ret sess)
     | Inl e \<Rightarrow>
         and_then (modify (post (s_chan sess) (ErrorMsg ''Database authentication error''))) (\<lambda>_.
         ret sess))"

definition on_data :: "ext \<Rightarrow> uuid \<Rightarrow> string \<Rightarrow> app_state \<Rightarrow> app_state" where
  "on_data x conn_id payload s =
     (case base64_decode x payload of
        Some data \<Rightarrow>
          (case tcp_conn_senders s conn_id of
             Some sender \<Rightarrow> send_data sender data s
           | None \<Rightarrow> s)
      | None \<Rightarrow> s)"

definition handle_text :: "ext \<Rightarrow> ws_session \<Rightarrow> string \<Rightarrow> (app_state, ws_session, 'e) prog" where
  "handle_text x sess text =
     (case json_agent_message x text of
        Some (RequestClaim hostname) \<Rightarrow> on_request_claim x sess hostname
      | Some (Auth token hostname) \<Rightarrow> on_auth x sess token hostname
      | Some (AgentData conn_id payload) \<Rightarrow>
          and_then (modify (on_data x conn_id payload)) (\<lambda>_. ret sess)
      | Some (AgentCloseConnection conn_id) \<Rightarrow>
          and_then (modify (remove_conn_sender conn_id)) (\<lambda>_. ret sess)
      | Some Ping \<Rightarrow> and_then (modify (post (s_chan sess) Pong)) (\<lambda>_. ret sess)
      | None \<Rightarrow> ret sess)"

section \<open>A session from upgrade to clean-up\<close>

definition open_socket :: "(app_state, ws_session, 'e) prog" where
  "open_socket =
     and_then (on_db new_v4) (\<lambda>session_id.
     and_then (total new_relay_chan) (\<lambda>tx.
     ret \<lparr>s_chan = tx, authenticated_agent_id = None, current_claim_code = None\<rparr>))"

definition socket_cleanup :: "ext \<Rightarrow> ws_session \<Rightarrow> (app_state, unit, 'e) prog" where
  "socket_cleanup x sess =
     and_then (modify (drop_relay_rx (s_chan sess))) (\<lambda>_.
     and_then (case current_claim_code sess of
         Some code \<Rightarrow> modify (\<lambda>s. s\<lparr>pending_claims := (pending_claims s)(code := None)\<rparr>)
       | None \<Rightarrow> ret ()) (\<lambda>_.
     case authenticated_agent_id sess of
       Some agent_id \<Rightarrow> cleanup_agent x agent_id
     | None \<Rightarrow> ret ()))"

text \<open>The result \<open>None\<close> says the receive loop ended and the clean-up ran.\<close>

definition on_frame :: "ext \<Rightarrow> ws_session \<Rightarrow> ws_frame \<Rightarrow> (app_state, ws_session option, 'e) prog" where
  "on_frame x sess frame =
     (case frame of
        WsText text \<Rightarrow> and_then (handle_text x sess text) (\<lambda>sess'. ret (Some sess'))
      | WsClose \<Rightarrow> and_then (socket_cleanup x sess) (\<lambda>_. ret None)
      | WsReadError \<Rightarrow> and_then (socket_cleanup x sess) (\<lambda>_. ret None)
      | WsEnd \<Rightarrow> and_then (socket_cleanup x sess) (\<lambda>_. ret None)
      | WsOther \<Rightarrow> ret (Some sess))"

text \<open>
  One message forwarded: the text written to the socket, if the message has a JSON form, and
  the state after. \<open>sent\<close> says whether the write succeeded; a failed write ends the task and
  drops the receiver.
\<close>

definition send_task_step :: "ext \<Rightarrow> nat \<Rightarrow> bool \<Rightarrow> app_state \<Rightarrow> string option \<times> app_state" where
  "send_task_step x ch sent s =
     (case relay_chans s ch of
        None \<Rightarrow> (None, s)
      | Some c \<Rightarrow>
          (if \<not> r_open c then (None, s)
           else case rq c of
             [] \<Rightarrow> (None, s)
           | msg # rest \<Rightarrow>
               let t = s\<lparr>relay_chans := (relay_chans s)(ch \<mapsto> c\<lparr>rq := rest\<rparr>)\<rparr> in
               (case json_relay_message x msg of
                  None \<Rightarrow> (None, t)
                | Some json \<Rightarrow> (if sent then (Some json, t) else (None, drop_relay_rx ch t)))))"

section \<open>Frames\<close>

lemma reserve_port_frame [simp]:
  "db (reserve_port p s) = db s" "listeners (reserve_port p s) = listeners s"
  "tunnel_tasks (reserve_port p s) = tunnel_tasks s" "next_listener (reserve_port p s) = next_listener s"
  "allocated_ports (reserve_port p s) = insert p (allocated_ports s)"
  "agent_senders (reserve_port p s) = agent_senders s" "relay_chans (reserve_port p s) = relay_chans s"
  by (simp_all add: reserve_port_def)

definition lis_step :: "app_state \<Rightarrow> app_state \<Rightarrow> bool" where
  "lis_step s t \<longleftrightarrow> (listeners_wf s \<longrightarrow> listeners_wf t)"

interpretation lis: step_rel lis_step
  by unfold_locales (auto simp: lis_step_def)

lemma lis_same:
  "listeners t = listeners s \<Longrightarrow> tunnel_tasks t = tunnel_tasks s \<Longrightarrow> next_listener t = next_listener s
    \<Longrightarrow> lis_step s t"
  by (simp add: lis_step_def listeners_wf_frame [of t s])

lemma on_db_lis [steps]: "obeys lis_step (on_db m)"
  by (rule obeysI) (simp add: on_db_snd lis_same)

lemma start_lis [steps]: "obeys lis_step (start_tunnel_listener k ch)"
  by (rule obeysI) (simp add: lis_step_def start_wf)

lemma stop_and_free_lis: "lis_step s (stop_and_free x t s)"
proof -
  have "lis_step s (stop_tunnel_listener i s)" for i by (simp add: lis_step_def stop_wf)
  moreover have "lis_step u (free_port p u)" for p u by (simp add: lis_same)
  ultimately show ?thesis
    by (auto simp: stop_and_free_def lis.R_refl split: option.split intro: lis.R_trans)
qed

lemma fold_step: "step_rel R \<Longrightarrow> (\<And>a s. R s (f a s)) \<Longrightarrow> R s (fold f as s)"
  by (induction as arbitrary: s) (auto intro: step_rel.R_refl step_rel.R_trans)

lemma sync_loop_lis [steps]: "obeys lis_step (sync_loop x a ch ts)"
proof (induction ts)
  case Nil
  then show ?case by (simp only: sync_loop.simps lis.rules)
next
  case (Cons t ts)
  then show ?case
    by (auto simp only: sync_loop.simps Let_def intro!: lis.rules steps lis.modify_step lis_same
        reserve_port_frame)
qed

lemma sync_agent_tunnels_lis [steps]: "obeys lis_step (sync_agent_tunnels x a ch)"
  unfolding sync_agent_tunnels_def
  by (intro lis.rules steps lis.modify_step lis_same post_frame)

lemma cleanup_agent_lis [steps]: "obeys lis_step (cleanup_agent x a)"
  unfolding cleanup_agent_def
  by (intro lis.rules steps lis.modify_step fold_step [of lis_step] lis.step_rel_axioms stop_and_free_lis)
    (simp add: lis_same)

lemma data_frame [simp]:
  "listeners (send_data ch bs s) = listeners s" "tunnel_tasks (send_data ch bs s) = tunnel_tasks s"
  "next_listener (send_data ch bs s) = next_listener s" "db (send_data ch bs s) = db s"
  "listeners (remove_conn_sender i s) = listeners s" "tunnel_tasks (remove_conn_sender i s) = tunnel_tasks s"
  "next_listener (remove_conn_sender i s) = next_listener s" "db (remove_conn_sender i s) = db s"
  "allocated_ports (send_data ch bs s) = allocated_ports s"
  "allocated_ports (remove_conn_sender i s) = allocated_ports s"
  by (simp_all add: send_data_def remove_conn_sender_def drop_data_tx_def split: option.split)

lemma on_data_frame [simp]:
  "listeners (on_data x i p s) = listeners s" "tunnel_tasks (on_data x i p s) = tunnel_tasks s"
  "next_listener (on_data x i p s) = next_listener s" "db (on_data x i p s) = db s"
  by (simp_all add: on_data_def split: option.split)

lemma drop_relay_rx_frame [simp]:
  "listeners (drop_relay_rx ch s) = listeners s" "tunnel_tasks (drop_relay_rx ch s) = tunnel_tasks s"
  "next_listener (drop_relay_rx ch s) = next_listener s" "db (drop_relay_rx ch s) = db s"
  "agent_senders (drop_relay_rx ch s) = agent_senders s"
  "allocated_ports (drop_relay_rx ch s) = allocated_ports s"
  "pending_claims (drop_relay_rx ch s) = pending_claims s"
  by (simp_all add: drop_relay_rx_def split: option.split)

lemma pending_frame [simp]:
  "listeners (set_pending c ch s) = listeners s" "tunnel_tasks (set_pending c ch s) = tunnel_tasks s"
  "next_listener (set_pending c ch s) = next_listener s" "db (set_pending c ch s) = db s"
  "listeners (register_sender a ch s) = listeners s" "tunnel_tasks (register_sender a ch s) = tunnel_tasks s"
  "next_listener (register_sender a ch s) = next_listener s" "db (register_sender a ch s) = db s"
  by (simp_all add: set_pending_def register_sender_def)

lemma handle_text_lis [steps]: "obeys lis_step (handle_text x sess text)"
  unfolding handle_text_def on_request_claim_def on_auth_def
  by (cases "json_agent_message x text"; simp only: option.case; (cases "the (json_agent_message x text)")?)
    (auto split: agent_message.split intro!: lis.rules steps lis.modify_step lis_same)

lemma on_frame_lis [steps]: "obeys lis_step (on_frame x sess f)"
  unfolding on_frame_def socket_cleanup_def
  by (cases f; simp only: ws_frame.case) (intro lis.rules steps lis.modify_step lis_same; simp)+

section \<open>The database functions a session calls\<close>

text \<open>
  The interface between a session and the database: a relation between connections that the
  six functions it calls respect is respected, on the state of the relay, by every handler.
\<close>

lemma fold_db: "(\<And>a s. db (f a s) = db s) \<Longrightarrow> db (fold f as s) = db s"
  by (induction as arbitrary: s) simp_all

lemma stop_and_free_db: "db (stop_and_free x t s) = db s"
  by (simp add: stop_and_free_def split: option.split)

locale agent_store = db_rel +
  assumes claim_obeys: "obeys R (create_agent_claim x n)"
    and token_obeys: "obeys R (get_agent_by_token k)"
    and online_obeys: "obeys R (set_agent_online i b m)"
    and tunnels_obeys: "obeys R (list_tunnels_for_agent i)"
    and new_v4_obeys: "obeys R (new_v4 :: (conn, uuid, unit) prog)"
begin

lemma start_step: "obeys app_R (start_tunnel_listener k ch)"
  by (rule obeysI) (use obeys_snd [OF start_frame] in \<open>simp add: mem_frame_def app_R_mem\<close>)

lemma sync_loop_step: "obeys app_R (sync_loop x a ch ts)"
proof (induction ts)
  case Nil
  then show ?case by (simp only: sync_loop.simps app.rules)
next
  case (Cons t ts)
  then show ?case
    by (auto simp only: sync_loop.simps Let_def intro!: app.rules modify_mem start_step
        reserve_port_frame)
qed

lemma sync_step: "obeys app_R (sync_agent_tunnels x a ch)"
  unfolding sync_agent_tunnels_def
  by (intro app.rules modify_mem on_db_step tunnels_obeys sync_loop_step post_frame)

lemma cleanup_step: "obeys app_R (cleanup_agent x a)"
  unfolding cleanup_agent_def
  by (intro app.rules modify_mem on_db_step online_obeys tunnels_obeys fold_db stop_and_free_db) simp

lemma handle_text_step: "obeys app_R (handle_text x sess text)"
  unfolding handle_text_def on_request_claim_def on_auth_def
  by (cases "json_agent_message x text"; simp only: option.case; (cases "the (json_agent_message x text)")?)
    (auto split: agent_message.split intro!: app.rules modify_mem on_db_step
      claim_obeys token_obeys online_obeys sync_step)

lemma on_frame_step: "obeys app_R (on_frame x sess f)"
  unfolding on_frame_def socket_cleanup_def
  by (cases f; simp only: ws_frame.case)
    (intro app.rules modify_mem handle_text_step cleanup_step; simp)+

end

interpretation ws_wf: agent_store wf_step
  by unfold_locales (intro steps same_tables_wf)+

interpretation ws_refs: agent_store refs_step
  by unfold_locales (intro steps same_tables_refs)+

interpretation ws_world: agent_store same_world
  by unfold_locales (intro steps)+

end
