(* ===== verification/Db_Invariants.thy ===== *)
theory Db_Invariants
  imports Ws_Handler
begin

text \<open>
  Invariants of the stored data that go beyond the schema, and the WebSocket handlers' part
  in keeping them.

  \<^item> \<open>port_owner\<close>: every tunnel belongs to a stored user and its public port is that user's
    dedicated port.
  \<^item> \<open>counters_zero\<close>: the stored traffic counters are still the zeros they were created with.

  \<open>inv_step I\<close> is the step relation "\<open>I\<close> of the tables is kept", for any such predicate.
\<close>

definition port_owner :: "tables \<Rightarrow> bool" where
  "port_owner t \<longleftrightarrow> (\<forall>k \<in> set (tunnels t). \<exists>u \<in> set (users t).
     t_user_id k = Some (ur_id u) \<and> t_public_port k = ur_dedicated_port u)"

definition counters_zero :: "tables \<Rightarrow> bool" where
  "counters_zero t \<longleftrightarrow> (\<forall>k \<in> set (tunnels t). t_bytes_in k = SqlInt 0 \<and> t_bytes_out k = SqlInt 0)"

definition inv_step :: "(tables \<Rightarrow> bool) \<Rightarrow> conn \<Rightarrow> conn \<Rightarrow> bool" where
  "inv_step I c d \<longleftrightarrow> (I (tabs c) \<longrightarrow> I (tabs d))"

interpretation inv_kept: step_rel "inv_step I" for I
  by unfold_locales (auto simp: inv_step_def)

lemma same_tables_inv: "obeys same_tables m \<Longrightarrow> obeys (inv_step I) m"
  by (simp add: obeys_def same_tables_def inv_step_def)

lemma exec_sql_inv:
  "(\<And>b t t'. f b t = Ok t' \<Longrightarrow> I t \<Longrightarrow> I t') \<Longrightarrow> obeys (inv_step I) (exec_sql f)"
  by (auto simp: obeys_def exec_sql_def inv_step_def split: option.split result.split)

text \<open>
  An invariant of users and tunnels only, such that adding a user, changing a user's flag,
  removing a tunnel and changing a tunnel's descriptive fields keep it.
\<close>

locale stored_invariant =
  fixes I :: "tables \<Rightarrow> bool"
  assumes agents_irrelevant: "I (t\<lparr>agents := as\<rparr>) = I t"
    and add_user: "I t \<Longrightarrow> I (t\<lparr>users := users t @ [r]\<rparr>)"
    and ban_user: "I t \<Longrightarrow> I (t\<lparr>users := update_by ur_id i (\<lambda>r. r\<lparr>ur_is_banned := b\<rparr>) (users t)\<rparr>)"
    and drop_tunnels: "I t \<Longrightarrow> I (t\<lparr>tunnels := filter P (tunnels t)\<rparr>)"
    and set_enabled: "I t \<Longrightarrow> I (t\<lparr>tunnels := update_by t_id i (\<lambda>k. k\<lparr>t_enabled := b\<rparr>) (tunnels t)\<rparr>)"
begin

lemma register_inv: "obeys (inv_step I) (register_user x n p pr)"
  unfolding register_user_def Let_def
  by (intro inv_kept.rules exec_sql_inv same_tables_inv steps)
    (auto simp: insert_user_def add_user split: if_splits)

lemma ban_inv: "obeys (inv_step I) (toggle_user_ban i b)"
  unfolding toggle_user_ban_def by (rule exec_sql_inv) (auto simp: ban_user)

lemma agents_inv: "I t \<Longrightarrow> t' = t\<lparr>agents := as\<rparr> \<Longrightarrow> I t'"
  by (simp add: agents_irrelevant)

lemma agent_ops_inv:
  "obeys (inv_step I) (create_agent_claim x n)" "obeys (inv_step I) (create_agent_for_user x i n)"
  "obeys (inv_step I) (claim_agent_to_user code i)" "obeys (inv_step I) (set_agent_online i b m)"
  "obeys (inv_step I) (db_delete_agent i)"
proof -
  show "obeys (inv_step I) (create_agent_claim x n)"
    unfolding create_agent_claim_def Let_def
    by (intro inv_kept.rules exec_sql_inv same_tables_inv steps)
      (auto simp: insert_agent_def agents_irrelevant split: if_splits)
  show "obeys (inv_step I) (create_agent_for_user x i n)"
    unfolding create_agent_for_user_def Let_def
    by (intro inv_kept.rules exec_sql_inv same_tables_inv steps)
      (auto simp: insert_agent_def agents_irrelevant split: if_splits)
  show "obeys (inv_step I) (claim_agent_to_user code i)"
    unfolding claim_agent_to_user_def Let_def
    by (intro inv_kept.rules exec_sql_inv same_tables_inv [OF query_sql_tables])
      (auto simp: set_claimed_def agents_irrelevant split: if_splits)
  show "obeys (inv_step I) (set_agent_online i b m)"
    unfolding set_agent_online_def
    by (intro inv_kept.rules exec_sql_inv same_tables_inv steps) (auto simp: agents_irrelevant)
  have swap: "t\<lparr>agents := as, tunnels := ts\<rparr> = (t\<lparr>tunnels := ts\<rparr>)\<lparr>agents := as\<rparr>" for t :: tables and as ts
    by simp
  show "obeys (inv_step I) (db_delete_agent i)"
    unfolding db_delete_agent_def
    by (intro inv_kept.rules exec_sql_inv)
      (auto simp: delete_agent_row_def delete_by_def swap agents_irrelevant intro: drop_tunnels
        split: if_splits)
qed

lemma tunnel_ops_inv:
  "obeys (inv_step I) (set_tunnel_enabled i b)" "obeys (inv_step I) (db_delete_tunnel i)"
  by (auto simp: set_tunnel_enabled_def db_delete_tunnel_def delete_by_def
      intro!: exec_sql_inv set_enabled drop_tunnels)

sublocale agent_store "inv_step I"
  by unfold_locales (intro agent_ops_inv same_tables_inv steps)+

end

text \<open>An invariant that does not look at what a tunnel's owner may edit.\<close>

locale detail_invariant = stored_invariant +
  assumes set_details: "I t \<Longrightarrow> I (t\<lparr>tunnels := update_by t_id i
      (\<lambda>k. k\<lparr>t_name := n, t_local_port := lp, t_protocol := pr, t_subdomain := sd\<rparr>) (tunnels t)\<rparr>)"
begin

lemma details_inv: "obeys (inv_step I) (db_update_tunnel i n lp pr sd)"
  by (auto simp: db_update_tunnel_def intro!: exec_sql_inv set_details)

end

text \<open>Registering and banning a user change no tunnel, so a user keeps its port.\<close>

lemma port_owner_users:
  assumes "port_owner t"
    and "\<And>u. u \<in> set (users t) \<Longrightarrow>
      \<exists>v \<in> set us. ur_id v = ur_id u \<and> ur_dedicated_port v = ur_dedicated_port u"
  shows "port_owner (t\<lparr>users := us\<rparr>)"
  using assms unfolding port_owner_def by simp metis

interpretation owner: detail_invariant port_owner
proof unfold_locales
  fix t i b r
  assume t: "port_owner t"
  then show "port_owner (t\<lparr>users := users t @ [r]\<rparr>)" by (rule port_owner_users) auto
  define f where "f r = (if ur_id r = i then r\<lparr>ur_is_banned := b\<rparr> else r)" for r :: user_row
  have "update_by ur_id i (\<lambda>r. r\<lparr>ur_is_banned := b\<rparr>) (users t) = map f (users t)"
    by (simp add: update_by_def f_def)
  moreover have "ur_id (f u) = ur_id u" "ur_dedicated_port (f u) = ur_dedicated_port u" for u
    by (simp_all add: f_def)
  ultimately show "port_owner (t\<lparr>users := update_by ur_id i (\<lambda>r. r\<lparr>ur_is_banned := b\<rparr>) (users t)\<rparr>)"
    using t by (auto intro!: port_owner_users)
qed (auto simp: port_owner_def set_update_by)

interpretation zeros: detail_invariant counters_zero
  by unfold_locales (auto simp: counters_zero_def set_update_by)

interpretation subs: stored_invariant subdomains_unique
proof unfold_locales
  fix t i b
  assume u: "subdomains_unique t"
  then show "subdomains_unique (t\<lparr>tunnels := update_by t_id i (\<lambda>k. k\<lparr>t_enabled := b\<rparr>) (tunnels t)\<rparr>)"
    by (rule subdomains_unique_frame) simp_all
qed (auto simp: subdomains_unique_def)

end
