(* ===== verification/Admin_Auth.thy ===== *)
theory Admin_Auth
  imports Db_Invariants
begin

text \<open>
  The authentication half of \<open>src/admin.rs\<close>: how a request names its session, the user
  endpoints and the administrator's.

  A handler is an operation on the state with a status and a body as its result, or a status
  and a message as its error. Headers are a map from lower-case names to raw values; JSON
  bodies arrive decoded, and a JSON body that leaves is the value it is made from.
\<close>

section \<open>Requests and responses\<close>

type_synonym headers = "string \<rightharpoonup> string"

record live_stat =
  ls_bytes_in :: u64
  ls_bytes_out :: u64
  ls_total_bytes :: nat

datatype page = AdminHtml | ClaimHtml

datatype body =
    Empty
  | Html page
  | Text string
  | JAuth string user_record
  | JUser user_record
  | JUsers "user_record list"
  | JToken string
  | JTokenId string string
  | JAgents "agent_record list"
  | JTunnels "tunnel_record list"
  | JTunnel tunnel_record
  | JStats "uuid \<rightharpoonup> live_stat"
  | Script string string string

type_synonym response = "nat \<times> body"
type_synonym handler = "(app_state, nat \<times> body, nat \<times> string) prog"

record auth_request =
  rq_username :: string
  rq_password :: string

section \<open>The session of a request\<close>

definition extract_token :: "ext \<Rightarrow> headers \<Rightarrow> string option" where
  "extract_token x headers =
     (let bearer = (case headers ''authorization'' of
          Some val \<Rightarrow> (case header_to_str x val of
              Some s \<Rightarrow> (if prefix ''Bearer '' s then Some (str_trim (drop 7 s)) else None)
            | None \<Rightarrow> None)
        | None \<Rightarrow> None)
      in case bearer of
           Some t \<Rightarrow> Some t
         | None \<Rightarrow> (case headers ''x-session-token'' of
               Some val \<Rightarrow> (case header_to_str x val of
                   Some s \<Rightarrow> Some (str_trim s)
                 | None \<Rightarrow> None)
             | None \<Rightarrow> None))"

definition get_current_user_id :: "ext \<Rightarrow> headers \<Rightarrow> app_state \<Rightarrow> string option" where
  "get_current_user_id x headers s =
     (case extract_token x headers of Some token \<Rightarrow> user_sessions s token | None \<Rightarrow> None)"

definition is_admin :: "ext \<Rightarrow> headers \<Rightarrow> app_state \<Rightarrow> bool" where
  "is_admin x headers s =
     (case extract_token x headers of Some token \<Rightarrow> token \<in> admin_sessions s | None \<Rightarrow> False)"

section \<open>User endpoints\<close>

definition db_error_500 :: "ext \<Rightarrow> db_error \<Rightarrow> nat \<times> string" where
  "db_error_500 x e = (500, ''DB error: '' @ show_db_error x e)"

definition session_token :: "ext \<Rightarrow> string \<Rightarrow> uuid \<Rightarrow> string" where
  "session_token x pre u = pre @ remove_dashes (uuid_to_string x u)"

definition add_user_session :: "string \<Rightarrow> string \<Rightarrow> app_state \<Rightarrow> app_state" where
  "add_user_session token user_id s = s\<lparr>user_sessions := (user_sessions s)(token \<mapsto> user_id)\<rparr>"

definition register :: "ext \<Rightarrow> auth_request \<Rightarrow> handler" where
  "register x body =
     (let username = str_trim (rq_username body) in
      if length username < 3 then throw (400, ''Username must be at least 3 characters'')
      else if length (rq_password body) < 6 then throw (400, ''Password must be at least 6 characters'')
      else
        and_then (reads port_range) (\<lambda>pr.
        and_then (map_err (\<lambda>e. (409, ''Registration failed (username might be taken): '' @ show_db_error x e))
          (on_db (register_user x username (rq_password body) pr))) (\<lambda>user.
        and_then (on_db new_v4) (\<lambda>u.
        let token = session_token x ''usr_'' u in
        and_then (modify (add_user_session token (ur_id user))) (\<lambda>_.
        ret (201, JAuth token user))))))"

definition login :: "ext \<Rightarrow> auth_request \<Rightarrow> handler" where
  "login x body =
     and_then (map_err (db_error_500 x)
       (on_db (verify_user (str_trim (rq_username body)) (rq_password body)))) (\<lambda>user_opt.
     case user_opt of
       Some user \<Rightarrow>
         (if ur_is_banned user then throw (403, ''This account is suspended'')
          else
            and_then (on_db new_v4) (\<lambda>u.
            let token = session_token x ''usr_'' u in
            and_then (modify (add_user_session token (ur_id user))) (\<lambda>_.
            ret (200, JAuth token user))))
     | None \<Rightarrow> throw (401, ''Invalid username or password''))"

definition get_me :: "ext \<Rightarrow> headers \<Rightarrow> handler" where
  "get_me x headers =
     and_then (reads (get_current_user_id x headers)) (\<lambda>uid.
     and_then (ok_or (401, ''Not logged in'') uid) (\<lambda>user_id.
     and_then (map_err (db_error_500 x) (on_db (get_user_by_id user_id))) (\<lambda>found.
     and_then (ok_or (404, ''User not found'') found) (\<lambda>user.
     ret (200, JUser user)))))"

definition logout :: "ext \<Rightarrow> headers \<Rightarrow> handler" where
  "logout x headers =
     and_then (case extract_token x headers of
         Some token \<Rightarrow> modify (\<lambda>s. s\<lparr>user_sessions := (user_sessions s)(token := None)\<rparr>)
       | None \<Rightarrow> ret ()) (\<lambda>_.
     ret (200, Empty))"

section \<open>Administrator endpoints\<close>

definition ADMIN_PASSWORD :: string where
  "ADMIN_PASSWORD = ''09090912Qw_''"

definition admin_login :: "ext \<Rightarrow> string \<Rightarrow> handler" where
  "admin_login x password =
     (if password = ADMIN_PASSWORD then
        and_then (on_db new_v4) (\<lambda>u.
        let token = session_token x ''adm_'' u in
        and_then (modify (\<lambda>s. s\<lparr>admin_sessions := insert token (admin_sessions s)\<rparr>)) (\<lambda>_.
        ret (200, JToken token)))
      else throw (401, ''Invalid master admin password''))"

definition require_admin :: "ext \<Rightarrow> headers \<Rightarrow> (app_state, unit, nat \<times> string) prog" where
  "require_admin x headers =
     and_then (reads (is_admin x headers)) (\<lambda>adm.
     if \<not> adm then throw (403, ''Admin access required'') else ret ())"

definition admin_list_users :: "ext \<Rightarrow> headers \<Rightarrow> handler" where
  "admin_list_users x headers =
     and_then (require_admin x headers) (\<lambda>_.
     and_then (map_err (db_error_500 x) (on_db list_all_users)) (\<lambda>users.
     ret (200, JUsers users)))"

definition admin_ban_user :: "ext \<Rightarrow> string \<Rightarrow> headers \<Rightarrow> handler" where
  "admin_ban_user x i headers =
     and_then (require_admin x headers) (\<lambda>_.
     and_then (ignore_err (on_db (toggle_user_ban i True))) (\<lambda>_.
     and_then (unwrap_or [] (on_db (list_tunnels_for_user i))) (\<lambda>tunnels.
     and_then (modify (fold (stop_and_free x) tunnels)) (\<lambda>_.
     ret (200, Empty)))))"

definition admin_unban_user :: "ext \<Rightarrow> string \<Rightarrow> headers \<Rightarrow> handler" where
  "admin_unban_user x i headers =
     and_then (require_admin x headers) (\<lambda>_.
     and_then (ignore_err (on_db (toggle_user_ban i False))) (\<lambda>_.
     ret (200, Empty)))"

section \<open>Who can change what\<close>

text \<open>A request without an administrator's session changes nothing and is refused.\<close>

lemma require_admin_run:
  "require_admin x headers s =
     (if is_admin x headers s then (Ok (), s) else (Err (403, ''Admin access required''), s))"
  by (simp add: require_admin_def)

lemma not_admin_refused:
  assumes "\<not> is_admin x headers s"
  shows "admin_list_users x headers s = (Err (403, ''Admin access required''), s)"
    and "admin_ban_user x i headers s = (Err (403, ''Admin access required''), s)"
    and "admin_unban_user x i headers s = (Err (403, ''Admin access required''), s)"
  using assms
  by (simp_all add: admin_list_users_def admin_ban_user_def admin_unban_user_def
      and_then_Err require_admin_run)

lemma extract_token_trimmed: "extract_token x headers = Some t \<Longrightarrow> str_trim t = t"
  by (auto simp: extract_token_def Let_def str_trim_idem split: option.splits if_splits)

lemma extract_token_bearer:
  "headers ''authorization'' = Some v \<Longrightarrow> header_to_str x v = Some (''Bearer '' @ t) \<Longrightarrow>
    extract_token x headers = Some (str_trim t)"
  by (simp add: extract_token_def Let_def)

lemma extract_token_session:
  "(\<And>v s. headers ''authorization'' = Some v \<Longrightarrow> header_to_str x v = Some s \<Longrightarrow> \<not> prefix ''Bearer '' s) \<Longrightarrow>
    headers ''x-session-token'' = Some v \<Longrightarrow> header_to_str x v = Some t \<Longrightarrow>
    extract_token x headers = Some (str_trim t)"
  by (auto simp: extract_token_def Let_def split: option.splits)

text \<open>
  The text form of a UUID is printable ASCII (the \<open>uuid\<close> crate writes lower-case hexadecimal
  digits and hyphens), so a session token survives the trimming of the headers.
\<close>

definition uuid_text_graphic :: "ext \<Rightarrow> bool" where
  "uuid_text_graphic x \<longleftrightarrow> (\<forall>u. graphic (uuid_to_string x u))"

lemma session_token_graphic:
  "uuid_text_graphic x \<Longrightarrow> graphic pre \<Longrightarrow> graphic (session_token x pre u)"
  by (auto simp: uuid_text_graphic_def session_token_def graphic_def remove_dashes_def)

lemma token_prefixes: "graphic ''usr_''" "graphic ''adm_''"
  by (simp_all add: graphic_def)

lemma session_token_trimmed:
  "uuid_text_graphic x \<Longrightarrow>
    str_trim (session_token x ''usr_'' u) = session_token x ''usr_'' u
    \<and> str_trim (session_token x ''adm_'' u) = session_token x ''adm_'' u"
  by (simp add: str_trim_graphic session_token_graphic token_prefixes)

end
