(* ===== verification/Admin_Tunnels.thy ===== *)
theory Admin_Tunnels
  imports Admin_Auth
begin

text \<open>
  The agent and tunnel endpoints of \<open>src/admin.rs\<close>: claiming an agent, listing, agent tokens,
  and the life of a tunnel (create, update, toggle, delete). Each handler is modelled whole,
  in the order of the code's effects, and as one atomic step with respect to the others.
\<close>

section \<open>Claiming\<close>

definition claim_agent :: "ext \<Rightarrow> string \<Rightarrow> headers \<Rightarrow> handler" where
  "claim_agent x code headers =
     and_then (reads (get_current_user_id x headers)) (\<lambda>uid.
     and_then (ok_or (401, ''Registration or login is required to link devices'') uid) (\<lambda>current_user_id.
     and_then (map_err (\<lambda>_. (500, ''Database error''))
       (on_db (claim_agent_to_user code current_user_id))) (\<lambda>agent_record.
     and_then (ok_or (404, ''Invalid or expired claim code'') agent_record) (\<lambda>agent.
     and_then (ok_or (500, ''Invalid agent ID'') (uuid_parse_str x (ar_id agent))) (\<lambda>agent_id.
     and_then (total (\<lambda>s. (pending_claims s code,
         s\<lparr>pending_claims := (pending_claims s)(code := None)\<rparr>))) (\<lambda>waiting_sender.
     and_then (case waiting_sender of
         Some sender \<Rightarrow>
           and_then (ignore_err (on_db (set_agent_online (ar_id agent) True None))) (\<lambda>_.
           and_then (modify (register_sender agent_id sender)) (\<lambda>_.
           and_then (modify (post sender
             (AuthSuccess agent_id (ar_name agent) (ar_token agent)))) (\<lambda>_.
           sync_agent_tunnels x agent_id sender)))
       | None \<Rightarrow> ret ()) (\<lambda>_.
     ret (200, Text ''Agent claimed successfully''))))))))"

section \<open>Agents\<close>

definition list_agents :: "ext \<Rightarrow> headers \<Rightarrow> handler" where
  "list_agents x headers =
     and_then (reads (\<lambda>s. (is_admin x headers s, get_current_user_id x headers s))) (\<lambda>(is_adm, current_uid).
     if \<not> is_adm \<and> current_uid = None then ret (401, JAgents [])
     else
       and_then (if is_adm then unwrap_or [] (on_db list_all_agents)
                 else unwrap_or [] (on_db (list_agents_for_user (the current_uid)))) (\<lambda>agents.
       ret (200, JAgents agents)))"

definition generate_agent_token :: "ext \<Rightarrow> headers \<Rightarrow> handler" where
  "generate_agent_token x headers =
     and_then (reads (get_current_user_id x headers)) (\<lambda>uid.
     and_then (ok_or (401, ''Please sign in first'') uid) (\<lambda>user_id.
     and_then (map_err (db_error_500 x) (on_db (list_agents_for_user user_id))) (\<lambda>existing_agents.
     case existing_agents of
       first # _ \<Rightarrow> ret (200, JTokenId (ar_token first) (ar_id first))
     | [] \<Rightarrow>
         and_then (map_err (db_error_500 x)
           (on_db (create_agent_for_user x user_id ''My Computer''))) (\<lambda>new_agent.
         ret (200, JTokenId (ar_token new_agent) (ar_id new_agent))))))"

definition remove_agent_sender :: "uuid \<Rightarrow> app_state \<Rightarrow> app_state" where
  "remove_agent_sender agent_id s =
     (case agent_senders s agent_id of
        Some sender \<Rightarrow> post sender (ErrorMsg ''Agent deleted from dashboard'')
          (s\<lparr>agent_senders := (agent_senders s)(agent_id := None)\<rparr>)
      | None \<Rightarrow> s)"

definition delete_agent :: "ext \<Rightarrow> string \<Rightarrow> handler" where
  "delete_agent x i =
     and_then (case uuid_parse_str x i of
         Some agent_id \<Rightarrow> modify (remove_agent_sender agent_id)
       | None \<Rightarrow> ret ()) (\<lambda>_.
     and_then (ignore_err (on_db (db_delete_agent i))) (\<lambda>_.
     ret (200, Empty)))"

section \<open>Tunnels\<close>

definition list_tunnels :: "ext \<Rightarrow> headers \<Rightarrow> handler" where
  "list_tunnels x headers =
     and_then (reads (\<lambda>s. (is_admin x headers s, get_current_user_id x headers s))) (\<lambda>(is_adm, current_uid).
     if \<not> is_adm \<and> current_uid = None then ret (401, JTunnels [])
     else
       and_then (if is_adm then unwrap_or [] (on_db list_all_tunnels)
                 else unwrap_or [] (on_db (list_tunnels_for_user (the current_uid)))) (\<lambda>tunnels.
       ret (200, JTunnels tunnels)))"

record create_tunnel_request =
  cr_agent_id :: string
  cr_name :: string
  cr_local_port :: u16
  cr_protocol :: string
  cr_preferred_port :: "u16 option"
  cr_subdomain :: "string option"

text \<open>The answer to a busy port is in Russian; these are its UTF-8 bytes around the port.\<close>

definition port_busy_prefix :: string where
  "port_busy_prefix =
     [CHR 0xD0, CHR 0x92, CHR 0xD0, CHR 0xB0, CHR 0xD1, CHR 0x88] @ '' '' @ [CHR 0xD0, CHR 0xB2,
      CHR 0xD1, CHR 0x8B, CHR 0xD0, CHR 0xB4, CHR 0xD0, CHR 0xB5, CHR 0xD0, CHR 0xBB, CHR 0xD0,
      CHR 0xB5, CHR 0xD0, CHR 0xBD, CHR 0xD0, CHR 0xBD, CHR 0xD1, CHR 0x8B, CHR 0xD0, CHR 0xB9] @
      '' '' @ [CHR 0xD0, CHR 0xBF, CHR 0xD0, CHR 0xBE, CHR 0xD1, CHR 0x80, CHR 0xD1, CHR 0x82] @
      '' :''"

definition port_busy_suffix :: string where
  "port_busy_suffix =
     '' '' @ [CHR 0xD1, CHR 0x83, CHR 0xD0, CHR 0xB6, CHR 0xD0, CHR 0xB5] @ '' '' @ [CHR 0xD0,
      CHR 0xB8, CHR 0xD1, CHR 0x81, CHR 0xD0, CHR 0xBF, CHR 0xD0, CHR 0xBE, CHR 0xD0, CHR 0xBB,
      CHR 0xD1, CHR 0x8C, CHR 0xD0, CHR 0xB7, CHR 0xD1, CHR 0x83, CHR 0xD0, CHR 0xB5, CHR 0xD1,
      CHR 0x82, CHR 0xD1, CHR 0x81, CHR 0xD1, CHR 0x8F] @ '' '' @ [CHR 0xD0, CHR 0xB4, CHR 0xD1,
      CHR 0x80, CHR 0xD1, CHR 0x83, CHR 0xD0, CHR 0xB3, CHR 0xD0, CHR 0xB8, CHR 0xD0, CHR 0xBC] @
      '' '' @ [CHR 0xD0, CHR 0xB0, CHR 0xD0, CHR 0xBA, CHR 0xD1, CHR 0x82, CHR 0xD0, CHR 0xB8, CHR
      0xD0, CHR 0xB2, CHR 0xD0, CHR 0xBD, CHR 0xD1, CHR 0x8B, CHR 0xD0, CHR 0xBC] @ '' '' @ [CHR
      0xD1, CHR 0x82, CHR 0xD1, CHR 0x83, CHR 0xD0, CHR 0xBD, CHR 0xD0, CHR 0xBD, CHR 0xD0, CHR
      0xB5, CHR 0xD0, CHR 0xBB, CHR 0xD0, CHR 0xB5, CHR 0xD0, CHR 0xBC] @ ''. '' @ [CHR 0xD0, CHR
      0x9E, CHR 0xD1, CHR 0x82, CHR 0xD0, CHR 0xBA, CHR 0xD0, CHR 0xBB, CHR 0xD1, CHR 0x8E, CHR
      0xD1, CHR 0x87, CHR 0xD0, CHR 0xB8, CHR 0xD1, CHR 0x82, CHR 0xD0, CHR 0xB5] @ '' '' @ [CHR
      0xD0, CHR 0xB8, CHR 0xD0, CHR 0xBB, CHR 0xD0, CHR 0xB8] @ '' '' @ [CHR 0xD1, CHR 0x83, CHR
      0xD0, CHR 0xB4, CHR 0xD0, CHR 0xB0, CHR 0xD0, CHR 0xBB, CHR 0xD0, CHR 0xB8, CHR 0xD1, CHR
      0x82, CHR 0xD0, CHR 0xB5] @ '' '' @ [CHR 0xD0, CHR 0xB5, CHR 0xD0, CHR 0xB3, CHR 0xD0, CHR
      0xBE] @ ''.''"

definition quoted :: "string \<Rightarrow> string" where
  "quoted s = [CHR 0x27] @ s @ [CHR 0x27]"

text \<open>\<open>as_deref().map(trim).filter(non-empty)\<close>.\<close>

definition clean_subdomain :: "string option \<Rightarrow> string option" where
  "clean_subdomain sd = (case sd of
      None \<Rightarrow> None | Some s \<Rightarrow> (if str_trim s = [] then None else Some (str_trim s)))"

definition config_of_created :: "uuid \<Rightarrow> uuid \<Rightarrow> u16 \<Rightarrow> tunnel_record \<Rightarrow> tunnel_config" where
  "config_of_created tid agent_id public_port t =
     \<lparr>tc_id = tid, tc_agent_id = agent_id, tc_name = tr_name t, tc_local_port = tr_local_port t,
      tc_protocol = tr_protocol t, tc_public_port = public_port,
      tc_subdomain = tr_subdomain t, tc_enabled = True\<rparr>"

text \<open>The subdomain check and the port reservation of \<open>create_tunnel\<close>.\<close>

definition check_new_subdomain :: "string option \<Rightarrow> (app_state, unit, nat \<times> string) prog" where
  "check_new_subdomain sd = (case sd of
         Some sub \<Rightarrow>
           let clean = str_trim sub in
           if clean \<noteq> [] then
             and_then (unwrap_or False (on_db (is_subdomain_taken clean None))) (\<lambda>taken.
             if taken then throw (409, ''Subdomain '' @ quoted clean @ '' is already in use'')
             else ret ())
           else ret ()
       | None \<Rightarrow> ret ())"

definition take_dedicated_port :: "u16 \<Rightarrow> (app_state, u16, nat \<times> string) prog" where
  "take_dedicated_port dedicated_port =
     and_then (total (allocate_port (Some dedicated_port))) (\<lambda>allocated.
     case allocated of
       Some p \<Rightarrow> (if p = dedicated_port then ret p
         else throw (409, port_busy_prefix @ fmt_dec (unat dedicated_port) @ port_busy_suffix))
     | None \<Rightarrow> throw (409, port_busy_prefix @ fmt_dec (unat dedicated_port) @ port_busy_suffix))"

definition create_tunnel :: "ext \<Rightarrow> headers \<Rightarrow> create_tunnel_request \<Rightarrow> handler" where
  "create_tunnel x headers body =
     and_then (reads (get_current_user_id x headers)) (\<lambda>uid.
     and_then (ok_or (401, ''Registration or sign in is required to create tunnels'') uid) (\<lambda>current_uid.
     and_then (ok_or (400, ''Invalid agent ID'') (uuid_parse_str x (cr_agent_id body))) (\<lambda>agent_id.
     and_then (check_new_subdomain (cr_subdomain body)) (\<lambda>_.
     and_then (map_err (db_error_500 x) (on_db (get_user_by_id current_uid))) (\<lambda>found.
     and_then (ok_or (401, ''User account not found'') found) (\<lambda>user.
     let dedicated_port = ur_dedicated_port user in
     and_then (take_dedicated_port dedicated_port) (\<lambda>public_port.
     and_then (map_err (db_error_500 x) (on_db (db_create_tunnel x (cr_agent_id body)
       (Some current_uid) (cr_name body) (cr_local_port body) (cr_protocol body) public_port
       (clean_subdomain (cr_subdomain body))))) (\<lambda>tunnel_record.
     and_then (ok_or (500, ''UUID parse error'') (uuid_parse_str x (tr_id tunnel_record))) (\<lambda>tunnel_id.
     let config = config_of_created tunnel_id agent_id public_port tunnel_record in
     and_then (reads (\<lambda>s. agent_senders s agent_id)) (\<lambda>sender.
     and_then (case sender of
         Some agent_sender \<Rightarrow>
           and_then (ignore_err (start_tunnel_listener config agent_sender)) (\<lambda>_.
           modify (post agent_sender (StartTunnel config)))
       | None \<Rightarrow> ret ()) (\<lambda>_.
     ret (201, JTunnel tunnel_record))))))))))))"

record update_tunnel_request =
  ut_name :: string
  ut_local_port :: u16
  ut_protocol :: string
  ut_subdomain :: "string option"

text \<open>The subdomain check and the final synchronisation of \<open>update_tunnel\<close>.\<close>

definition check_free_subdomain ::
  "string \<Rightarrow> string option \<Rightarrow> (app_state, unit, nat \<times> string) prog" where
  "check_free_subdomain i clean_sub = (case clean_sub of
         Some sub \<Rightarrow>
           and_then (unwrap_or False (on_db (is_subdomain_taken sub (Some i)))) (\<lambda>taken.
           if taken then throw (409, ''Subdomain '' @ quoted sub @ '' is already taken'')
           else ret ())
       | None \<Rightarrow> ret ())"

definition resync_agent :: "ext \<Rightarrow> string \<Rightarrow> (app_state, unit, nat \<times> string) prog" where
  "resync_agent x agent_text = (case uuid_parse_str x agent_text of
         Some agent_id \<Rightarrow>
           and_then (reads (\<lambda>s. agent_senders s agent_id)) (\<lambda>sender.
           case sender of
             Some sender \<Rightarrow> sync_agent_tunnels x agent_id sender
           | None \<Rightarrow> ret ())
       | None \<Rightarrow> ret ())"

definition update_tunnel :: "ext \<Rightarrow> string \<Rightarrow> update_tunnel_request \<Rightarrow> handler" where
  "update_tunnel x i body =
     and_then (map_err (db_error_500 x) (on_db (get_tunnel_by_id i))) (\<lambda>found.
     and_then (ok_or (404, ''Tunnel not found'') found) (\<lambda>tunnel.
     let clean_sub = clean_subdomain (ut_subdomain body) in
     and_then (check_free_subdomain i clean_sub) (\<lambda>_.
     and_then (map_err (db_error_500 x) (on_db (db_update_tunnel i (ut_name body)
       (ut_local_port body) (ut_protocol body) clean_sub))) (\<lambda>_.
     and_then (resync_agent x (tr_agent_id tunnel)) (\<lambda>_.
     ret (200, Empty))))))"

text \<open>The part of \<open>toggle_tunnel\<close> after the flag is stored.\<close>

definition switch_tunnel ::
  "tunnel_record \<Rightarrow> uuid \<Rightarrow> uuid \<Rightarrow> bool \<Rightarrow> (app_state, unit, nat \<times> string) prog" where
  "switch_tunnel tunnel tunnel_id agent_id new_enabled =
     and_then (reads (\<lambda>s. agent_senders s agent_id)) (\<lambda>agent_sender_opt.
     if new_enabled then
       and_then (modify (reserve_port (tr_public_port tunnel))) (\<lambda>_.
       let config = config_of_created tunnel_id agent_id (tr_public_port tunnel) tunnel in
       case agent_sender_opt of
         Some agent_sender \<Rightarrow>
           and_then (ignore_err (start_tunnel_listener config agent_sender)) (\<lambda>_.
           modify (post agent_sender (StartTunnel config)))
       | None \<Rightarrow> ret ())
     else
       and_then (modify (stop_tunnel_listener tunnel_id)) (\<lambda>_.
       and_then (modify (free_port (tr_public_port tunnel))) (\<lambda>_.
       case agent_sender_opt of
         Some agent_sender \<Rightarrow> modify (post agent_sender (StopTunnel tunnel_id))
       | None \<Rightarrow> ret ())))"

definition toggle_tunnel :: "ext \<Rightarrow> string \<Rightarrow> handler" where
  "toggle_tunnel x i =
     and_then (map_err (db_error_500 x) (on_db (get_tunnel_by_id i))) (\<lambda>found.
     and_then (ok_or (404, ''Tunnel not found'') found) (\<lambda>tunnel.
     and_then (ok_or (500, ''Invalid ID'') (uuid_parse_str x (tr_id tunnel))) (\<lambda>tunnel_id.
     and_then (ok_or (500, ''Invalid agent ID'') (uuid_parse_str x (tr_agent_id tunnel))) (\<lambda>agent_id.
     let new_enabled = (\<not> tr_enabled tunnel) in
     and_then (ignore_err (on_db (set_tunnel_enabled i new_enabled))) (\<lambda>_.
     and_then (switch_tunnel tunnel tunnel_id agent_id new_enabled) (\<lambda>_.
     ret (200, Empty)))))))"

definition notify_stop :: "ext \<Rightarrow> tunnel_record \<Rightarrow> uuid \<Rightarrow> app_state \<Rightarrow> app_state" where
  "notify_stop x t tunnel_id s =
     (case uuid_parse_str x (tr_agent_id t) of
        Some agent_id \<Rightarrow>
          (case agent_senders s agent_id of
             Some sender \<Rightarrow> post sender (StopTunnel tunnel_id) s
           | None \<Rightarrow> s)
      | None \<Rightarrow> s)"

definition delete_tunnel :: "ext \<Rightarrow> string \<Rightarrow> handler" where
  "delete_tunnel x i =
     and_then (map_err (db_error_500 x) (on_db (get_tunnel_by_id i))) (\<lambda>tunnel.
     and_then (case tunnel of
         Some t \<Rightarrow>
           and_then (case uuid_parse_str x (tr_id t) of
               Some tunnel_id \<Rightarrow>
                 and_then (modify (stop_tunnel_listener tunnel_id)) (\<lambda>_.
                 and_then (modify (free_port (tr_public_port t))) (\<lambda>_.
                 modify (notify_stop x t tunnel_id)))
             | None \<Rightarrow> ret ()) (\<lambda>_.
           ignore_err (on_db (db_delete_tunnel i)))
       | None \<Rightarrow> ret ()) (\<lambda>_.
     ret (200, Empty)))"

end
