(* ===== verification/Admin_Scripts.thy ===== *)
theory Admin_Scripts
  imports Complex_Main Admin_Tunnels
begin

text \<open>
  The telemetry and launcher endpoints of \<open>src/admin.rs\<close>, and its route table.

  \<open>total_mb\<close> is a 64-bit float in the code: the conversion of the 64-bit sum rounds to 53
  significant bits, ties to even, and the division by \<open>2 ^ 20\<close> is exact. \<open>round_f64\<close> is the
  rounding, \<open>total_mb\<close> the quotient as a rational.
\<close>

section \<open>Telemetry\<close>

fun bit_length :: "nat \<Rightarrow> nat" where
  "bit_length n = (if n = 0 then 0 else Suc (bit_length (n div 2)))"

declare bit_length.simps [simp del]

definition round_f64 :: "nat \<Rightarrow> nat" where
  "round_f64 n =
     (let e = bit_length n - 53; q = n div 2 ^ e; r = n mod 2 ^ e
      in if e = 0 then n
         else if r * 2 > 2 ^ e \<or> (r * 2 = 2 ^ e \<and> odd q) then (q + 1) * 2 ^ e
         else q * 2 ^ e)"

definition stat_of :: "u64 \<times> u64 \<Rightarrow> live_stat" where
  "stat_of v = \<lparr>ls_bytes_in = fst v, ls_bytes_out = snd v,
                ls_total_bytes = round_f64 (unat (fst v + snd v))\<rparr>"

definition total_mb :: "live_stat \<Rightarrow> rat" where
  "total_mb st = of_nat (ls_total_bytes st) / (1024 * 1024)"

definition get_live_stats :: handler where
  "get_live_stats = and_then (reads live_traffic) (\<lambda>traffic.
     ret (200, JStats (\<lambda>i. map_option stat_of (traffic i))))"

section \<open>Launcher scripts\<close>

record script_query =
  q_token :: "string option"
  q_session :: "string option"

definition resolve_from_session ::
  "ext \<Rightarrow> script_query \<Rightarrow> headers \<Rightarrow> (app_state, string option, 'e) prog" where
  "resolve_from_session x query headers =
     and_then (reads (\<lambda>s. case q_session query of
         Some sess \<Rightarrow> user_sessions s sess
       | None \<Rightarrow> get_current_user_id x headers s)) (\<lambda>user_id.
     case user_id of
       Some uid \<Rightarrow>
         and_then (attempt (on_db (list_agents_for_user uid))) (\<lambda>agents.
         case agents of
           Inr (first # _) \<Rightarrow> ret (Some (ar_token first))
         | _ \<Rightarrow>
             and_then (attempt (on_db (create_agent_for_user x uid ''My Computer''))) (\<lambda>created.
             case created of
               Inr new_agent \<Rightarrow> ret (Some (ar_token new_agent))
             | Inl _ \<Rightarrow> ret None))
     | None \<Rightarrow> ret None)"

definition resolve_token_for_script ::
  "ext \<Rightarrow> script_query \<Rightarrow> headers \<Rightarrow> (app_state, string option, 'e) prog" where
  "resolve_token_for_script x query headers =
     (case q_token query of
        Some t \<Rightarrow>
          (if str_trim t \<noteq> [] \<and> t \<noteq> ''YOUR_TOKEN_HERE'' then ret (Some (str_trim t))
           else resolve_from_session x query headers)
      | None \<Rightarrow> resolve_from_session x query headers)"

definition newline :: string where
  "newline = [CHR 0x0A]"

definition token_arg :: "string option \<Rightarrow> string" where
  "token_arg t = (case t of
      Some tok \<Rightarrow> ''--token '' @ [CHR 0x22] @ tok @ [CHR 0x22]
    | None \<Rightarrow> [])"

definition launcher_sh_head :: string where
  "launcher_sh_head =
      ''#!/bin/bash''
      @ newline @ ''set -e''
      @ newline @ ''echo '' @ [CHR 0x22, CHR 0xE2, CHR 0x9A, CHR 0xA1] @ '' Downloading tunnelit-agent...'' @ [CHR 0x22]
      @ newline @ ''mkdir -p '' @ [CHR 0x22] @ ''$HOME/.tunnelit'' @ [CHR 0x22]
      @ newline @ ''curl -sSL '' @ [CHR 0x22] @ ''https://github.com/visionn1488/tunnelit-agent/releases/download/latest/tunnelit-agent-linux-amd64'' @ [CHR 0x22] @ '' -o '' @ [CHR 0x22] @ ''$HOME/.tunnelit/tunnelit-agent'' @ [CHR 0x22]
      @ newline @ ''chmod +x '' @ [CHR 0x22] @ ''$HOME/.tunnelit/tunnelit-agent'' @ [CHR 0x22]
      @ newline
      @ newline @ ''echo '' @ [CHR 0x22, CHR 0xF0, CHR 0x9F, CHR 0x9A, CHR 0x80] @ '' Starting tunnelit-agent...'' @ [CHR 0x22]
      @ newline @ [CHR 0x22] @ ''$HOME/.tunnelit/tunnelit-agent'' @ [CHR 0x22] @ '' ''"

definition launcher_sh_tail :: string where
  "launcher_sh_tail =
      '' --relay '' @ [CHR 0x22] @ ''wss://ws.ezbchat.fun/ws'' @ [CHR 0x22]
      @ newline"

definition launcher_bat_head :: string where
  "launcher_bat_head =
      ''@echo off''
      @ newline @ ''echo '' @ [CHR 0xE2, CHR 0x9A, CHR 0xA1] @ '' Downloading tunnelit-agent for Windows...''
      @ newline @ ''powershell -Command '' @ [CHR 0x22] @ ''Invoke-WebRequest -Uri '' @ [CHR 0x27] @ ''https://github.com/visionn1488/tunnelit-agent/releases/download/latest/tunnelit-agent-windows-amd64.exe'' @ [CHR 0x27] @ '' -OutFile '' @ [CHR 0x27] @ ''tunnelit-agent.exe'' @ [CHR 0x27, CHR 0x22]
      @ newline @ ''echo '' @ [CHR 0xF0, CHR 0x9F, CHR 0x9A, CHR 0x80] @ '' Starting tunnelit-agent...''
      @ newline @ ''tunnelit-agent.exe ''"

definition launcher_bat_tail :: string where
  "launcher_bat_tail =
      '' --relay '' @ [CHR 0x22] @ ''wss://ws.ezbchat.fun/ws'' @ [CHR 0x22]
      @ newline @ ''pause''
      @ newline"

definition get_launcher_sh :: "ext \<Rightarrow> script_query \<Rightarrow> headers \<Rightarrow> handler" where
  "get_launcher_sh x query headers =
     and_then (resolve_token_for_script x query headers) (\<lambda>tok.
     ret (200, Script ''text/x-shellscript''
       (''attachment; filename='' @ [CHR 0x22] @ ''launch-tunnelit.sh'' @ [CHR 0x22])
       (launcher_sh_head @ token_arg tok @ launcher_sh_tail)))"

definition get_launcher_bat :: "ext \<Rightarrow> script_query \<Rightarrow> headers \<Rightarrow> handler" where
  "get_launcher_bat x query headers =
     and_then (resolve_token_for_script x query headers) (\<lambda>tok.
     ret (200, Script ''text/plain''
       (''attachment; filename='' @ [CHR 0x22] @ ''launch-tunnelit.bat'' @ [CHR 0x22])
       (launcher_bat_head @ token_arg tok @ launcher_bat_tail)))"

definition serve_admin_page :: handler where
  "serve_admin_page = ret (200, Html AdminHtml)"

definition serve_claim_page :: handler where
  "serve_claim_page = ret (200, Html ClaimHtml)"

end
