(* ===== verification/Conn_Router.thy ===== *)
theory Conn_Router
  imports Db_Invariants
begin

text \<open>
  The routing of data from an agent to a connection: \<open>tcp_conn_senders\<close> and the data channels
  behind it, shared by the session handler, which routes, and the two proxies, which register
  connections and take their data.

  \<open>inbox s i\<close> is the data queued for connection \<open>i\<close>, if it is registered. \<open>conns_wf\<close> is the
  invariant: every registered sender leads to a channel of its own whose receiver is alive.
  The locale \<open>conn_router\<close> is the contract.
\<close>

definition insert_conn_sender :: "uuid \<Rightarrow> nat \<Rightarrow> app_state \<Rightarrow> app_state" where
  "insert_conn_sender conn_id tx s =
     (let t = (case tcp_conn_senders s conn_id of None \<Rightarrow> s | Some old \<Rightarrow> drop_data_tx old s)
      in t\<lparr>tcp_conn_senders := (tcp_conn_senders t)(conn_id \<mapsto> tx)\<rparr>)"

definition register_conn :: "uuid \<Rightarrow> app_state \<Rightarrow> app_state" where
  "register_conn conn_id s =
     insert_conn_sender conn_id (fst (new_data_chan s)) (snd (new_data_chan s))"

definition route_data :: "uuid \<Rightarrow> bytes \<Rightarrow> app_state \<Rightarrow> app_state" where
  "route_data conn_id data s =
     (case tcp_conn_senders s conn_id of Some sender \<Rightarrow> send_data sender data s | None \<Rightarrow> s)"

lemma on_data_route:
  "on_data x i payload s =
     (case base64_decode x payload of None \<Rightarrow> s | Some data \<Rightarrow> route_data i data s)"
  by (simp add: on_data_def route_data_def split: option.split)

definition inbox :: "app_state \<Rightarrow> uuid \<Rightarrow> bytes list option" where
  "inbox s i = (case tcp_conn_senders s i of
      None \<Rightarrow> None | Some ch \<Rightarrow> map_option dq (data_chans s ch))"

definition conns_wf :: "app_state \<Rightarrow> bool" where
  "conns_wf s \<longleftrightarrow>
     (\<forall>i ch. tcp_conn_senders s i = Some ch \<longrightarrow> (\<exists>c. data_chans s ch = Some c \<and> d_rx c))
   \<and> (\<forall>i j ch. tcp_conn_senders s i = Some ch \<and> tcp_conn_senders s j = Some ch \<longrightarrow> i = j)
   \<and> (\<forall>ch c. data_chans s ch = Some c \<longrightarrow> ch < next_data_chan s)"

lemma conns_wf_frame:
  "tcp_conn_senders t = tcp_conn_senders s \<Longrightarrow> data_chans t = data_chans s \<Longrightarrow>
    next_data_chan t = next_data_chan s \<Longrightarrow> conns_wf t = conns_wf s"
  by (simp add: conns_wf_def)

lemma conns_chan: "conns_wf s \<Longrightarrow> tcp_conn_senders s i = Some ch \<Longrightarrow> \<exists>c. data_chans s ch = Some c \<and> d_rx c"
  unfolding conns_wf_def by blast

lemma conns_inj:
  "conns_wf s \<Longrightarrow> tcp_conn_senders s i = Some ch \<Longrightarrow> tcp_conn_senders s j = Some ch \<Longrightarrow> i = j"
  unfolding conns_wf_def by blast

lemma conns_bound: "conns_wf s \<Longrightarrow> data_chans s ch = Some c \<Longrightarrow> ch < next_data_chan s"
  unfolding conns_wf_def by blast

lemma conns_wfI:
  assumes "\<And>i ch. tcp_conn_senders s i = Some ch \<Longrightarrow> \<exists>c. data_chans s ch = Some c \<and> d_rx c"
    and "\<And>i j ch. tcp_conn_senders s i = Some ch \<Longrightarrow> tcp_conn_senders s j = Some ch \<Longrightarrow> i = j"
    and "\<And>ch c. data_chans s ch = Some c \<Longrightarrow> ch < next_data_chan s"
  shows "conns_wf s"
  unfolding conns_wf_def using assms by blast

lemma drop_data_tx_fields [simp]:
  "tcp_conn_senders (drop_data_tx ch s) = tcp_conn_senders s"
  "next_data_chan (drop_data_tx ch s) = next_data_chan s"
  "data_chans (drop_data_tx ch s) k =
     (if k = ch then map_option (\<lambda>c. c\<lparr>d_tx := False\<rparr>) (data_chans s k) else data_chans s k)"
  by (auto simp: drop_data_tx_def split: option.split)

lemma send_data_fields [simp]:
  "tcp_conn_senders (send_data ch bs s) = tcp_conn_senders s"
  "next_data_chan (send_data ch bs s) = next_data_chan s"
  "data_chans (send_data ch bs s) k =
     (if k = ch then map_option (\<lambda>c. if d_rx c then c\<lparr>dq := dq c @ [bs]\<rparr> else c) (data_chans s k)
      else data_chans s k)"
  by (auto simp: send_data_def split: option.split)

lemma new_data_chan_fields [simp]:
  "fst (new_data_chan s) = next_data_chan s"
  "tcp_conn_senders (snd (new_data_chan s)) = tcp_conn_senders s"
  "next_data_chan (snd (new_data_chan s)) = Suc (next_data_chan s)"
  "data_chans (snd (new_data_chan s)) =
     (data_chans s)(next_data_chan s \<mapsto> \<lparr>dq = [], d_rx = True, d_tx = True\<rparr>)"
  by (simp_all add: new_data_chan_def)

lemma insert_conn_sender_fields [simp]:
  "tcp_conn_senders (insert_conn_sender i tx s) = (tcp_conn_senders s)(i \<mapsto> tx)"
  "next_data_chan (insert_conn_sender i tx s) = next_data_chan s"
  by (simp_all add: insert_conn_sender_def Let_def split: option.split)

lemma insert_conn_sender_chan:
  "data_chans (insert_conn_sender i tx s) k =
     (if tcp_conn_senders s i = Some k then map_option (\<lambda>c. c\<lparr>d_tx := False\<rparr>) (data_chans s k)
      else data_chans s k)"
  by (auto simp: insert_conn_sender_def Let_def split: option.split)

lemma remove_conn_sender_fields [simp]:
  "tcp_conn_senders (remove_conn_sender i s) = (tcp_conn_senders s)(i := None)"
  "next_data_chan (remove_conn_sender i s) = next_data_chan s"
  by (auto simp: remove_conn_sender_def split: option.split)

lemma remove_conn_sender_chan:
  "data_chans (remove_conn_sender i s) k =
     (if tcp_conn_senders s i = Some k then map_option (\<lambda>c. c\<lparr>d_tx := False\<rparr>) (data_chans s k)
      else data_chans s k)"
  by (auto simp: remove_conn_sender_def split: option.split)

section \<open>The contract\<close>

locale conn_router =
  fixes register :: "uuid \<Rightarrow> 's \<Rightarrow> 's"
    and route :: "uuid \<Rightarrow> bytes \<Rightarrow> 's \<Rightarrow> 's"
    and unregister :: "uuid \<Rightarrow> 's \<Rightarrow> 's"
    and queue :: "'s \<Rightarrow> uuid \<Rightarrow> bytes list option"
    and wf :: "'s \<Rightarrow> bool"
  assumes wf_register: "wf s \<Longrightarrow> wf (register i s)"
    and wf_route: "wf s \<Longrightarrow> wf (route i b s)"
    and wf_unregister: "wf s \<Longrightarrow> wf (unregister i s)"
    and queue_register: "wf s \<Longrightarrow> queue (register i s) j = (if j = i then Some [] else queue s j)"
    and queue_route: "wf s \<Longrightarrow>
      queue (route i b s) j = (if j = i then map_option (\<lambda>q. q @ [b]) (queue s i) else queue s j)"
    and queue_unregister: "wf s \<Longrightarrow> queue (unregister i s) j = (if j = i then None else queue s j)"
begin

lemma route_all:
  "wf s \<Longrightarrow> wf (fold (route i) bs s)
    \<and> queue (fold (route i) bs s) j =
        (if j = i then map_option (\<lambda>q. q @ bs) (queue s i) else queue s j)"
proof (induction bs arbitrary: s)
  case Nil
  then show ?case by (simp add: option.map_ident)
next
  case (Cons b bs)
  then show ?case using wf_route by (simp add: queue_route option.map_comp comp_def)
qed

text \<open>Data for several connections, in any interleaving: each gets its own, in order.\<close>

lemma route_interleaved:
  "wf s \<Longrightarrow> wf (fold (\<lambda>(i, b). route i b) ms s)
    \<and> queue (fold (\<lambda>(i, b). route i b) ms s) j =
        map_option (\<lambda>q. q @ map snd (filter (\<lambda>m. fst m = j) ms)) (queue s j)"
proof (induction ms arbitrary: s)
  case Nil
  then show ?case by (simp add: option.map_ident)
next
  case (Cons m ms)
  obtain i b where m: "m = (i, b)" by (cases m)
  have "wf (route i b s)" using Cons.prems by (rule wf_route)
  with Cons.IH [OF this] show ?case
    by (simp add: m queue_route [OF Cons.prems] option.map_comp comp_def)
qed

lemma closed_drops: "wf s \<Longrightarrow> queue (route i b (unregister i s)) i = None"
  by (simp add: wf_unregister queue_route queue_unregister)

lemma register_then_route: "wf s \<Longrightarrow> queue (fold (route i) bs (register i s)) i = Some bs"
  using route_all [OF wf_register, of s i bs i i] by (simp add: queue_register)

end

lemma register_conn_wf: "conns_wf s \<Longrightarrow> conns_wf (register_conn i s)"
proof (rule conns_wfI)
  assume wf: "conns_wf s"
  have new: "tcp_conn_senders s j \<noteq> Some (next_data_chan s)" for j
    using conns_chan [OF wf, of j] conns_bound [OF wf] by blast
  fix j k ch c
  show "tcp_conn_senders (register_conn i s) j = Some ch \<Longrightarrow>
      \<exists>c. data_chans (register_conn i s) ch = Some c \<and> d_rx c"
    using conns_chan [OF wf, of j ch] new
    by (auto simp: register_conn_def insert_conn_sender_chan split: if_splits)
  show "tcp_conn_senders (register_conn i s) j = Some ch \<Longrightarrow>
      tcp_conn_senders (register_conn i s) k = Some ch \<Longrightarrow> j = k"
    using conns_inj [OF wf, of j ch k] new by (auto simp: register_conn_def split: if_splits)
  show "data_chans (register_conn i s) ch = Some c \<Longrightarrow> ch < next_data_chan (register_conn i s)"
    using conns_bound [OF wf, of ch]
    by (auto simp: register_conn_def insert_conn_sender_chan less_Suc_eq split: if_splits)
qed

lemma route_data_wf: "conns_wf s \<Longrightarrow> conns_wf (route_data i b s)"
proof (rule conns_wfI)
  assume wf: "conns_wf s"
  fix j k ch c
  show "tcp_conn_senders (route_data i b s) j = Some ch \<Longrightarrow>
      \<exists>c. data_chans (route_data i b s) ch = Some c \<and> d_rx c"
    using conns_chan [OF wf, of j ch] by (auto simp: route_data_def split: option.splits)
  show "tcp_conn_senders (route_data i b s) j = Some ch \<Longrightarrow>
      tcp_conn_senders (route_data i b s) k = Some ch \<Longrightarrow> j = k"
    using conns_inj [OF wf, of j ch k] by (auto simp: route_data_def split: option.splits)
  show "data_chans (route_data i b s) ch = Some c \<Longrightarrow> ch < next_data_chan (route_data i b s)"
    using conns_bound [OF wf, of ch] by (auto simp: route_data_def split: option.splits if_splits)
qed

lemma remove_conn_sender_wf: "conns_wf s \<Longrightarrow> conns_wf (remove_conn_sender i s)"
proof (rule conns_wfI)
  assume wf: "conns_wf s"
  fix j k ch c
  show "tcp_conn_senders (remove_conn_sender i s) j = Some ch \<Longrightarrow>
      \<exists>c. data_chans (remove_conn_sender i s) ch = Some c \<and> d_rx c"
    using conns_chan [OF wf, of j ch] by (auto simp: remove_conn_sender_chan split: if_splits)
  show "tcp_conn_senders (remove_conn_sender i s) j = Some ch \<Longrightarrow>
      tcp_conn_senders (remove_conn_sender i s) k = Some ch \<Longrightarrow> j = k"
    using conns_inj [OF wf, of j ch k] by (auto split: if_splits)
  show "data_chans (remove_conn_sender i s) ch = Some c \<Longrightarrow> ch < next_data_chan (remove_conn_sender i s)"
    using conns_bound [OF wf, of ch] by (auto simp: remove_conn_sender_chan split: if_splits)
qed

interpretation router: conn_router register_conn route_data remove_conn_sender inbox conns_wf
proof unfold_locales
  fix s i j and b :: bytes
  assume wf: "conns_wf s"
  have new: "tcp_conn_senders s j \<noteq> Some (next_data_chan s)" for j
    using conns_chan [OF wf, of j] conns_bound [OF wf] by blast
  show "inbox (register_conn i s) j = (if j = i then Some [] else inbox s j)"
    using new [of j] new [of i] conns_inj [OF wf, of i _ j]
    by (auto simp: inbox_def register_conn_def insert_conn_sender_chan split: option.split)
  show "inbox (route_data i b s) j =
      (if j = i then map_option (\<lambda>q. q @ [b]) (inbox s i) else inbox s j)"
    using conns_inj [OF wf, of i _ j] conns_chan [OF wf, of i]
    by (auto simp: inbox_def route_data_def split: option.split)
  show "inbox (remove_conn_sender i s) j = (if j = i then None else inbox s j)"
    using conns_inj [OF wf, of i _ j]
    by (auto simp: inbox_def remove_conn_sender_chan split: option.split)
qed (simp_all add: register_conn_wf route_data_wf remove_conn_sender_wf)

end
