(* ===== verification/Tcp_Proxy.thy ===== *)
theory Tcp_Proxy
  imports Conn_Router
begin

text \<open>
  \<open>src/tcp_proxy.rs\<close>: the accept loop of a TCP tunnel and the task of each connection.

  The loop alternates between its \<open>is_closed\<close> check and \<open>accept\<close>; \<open>l_waiting\<close> of the
  listener says where it is. A connection is the record \<open>tcp_conn\<close>, with the bytes written to
  the client so far. Its task's \<open>select!\<close> picks a branch that is ready, so reading from the
  client and taking the agent's data are separate steps: \<open>tcp_read\<close> and \<open>tcp_deliver\<close>.
\<close>

record tcp_conn =
  k_conn :: uuid
  k_tunnel :: uuid
  k_sender :: nat
  k_data :: nat
  k_open :: bool
  k_out :: bytes

datatype accept_result = Accepted | AcceptFailed

datatype client_read = ReadEof | ReadBytes bytes | ReadError

section \<open>The accept loop\<close>

definition set_waiting :: "nat \<Rightarrow> bool \<Rightarrow> app_state \<Rightarrow> app_state" where
  "set_waiting h w s = (case listeners s h of
      None \<Rightarrow> s
    | Some l \<Rightarrow> s\<lparr>listeners := (listeners s)(h \<mapsto> l\<lparr>l_waiting := w\<rparr>)\<rparr>)"

text \<open>The head of the loop: end when the agent's channel is closed, else wait.\<close>

definition loop_head :: "nat \<Rightarrow> app_state \<Rightarrow> app_state" where
  "loop_head h s = (case listeners s h of
      None \<Rightarrow> s
    | Some l \<Rightarrow>
        (if l_status l = Running \<and> \<not> l_waiting l then
           (if relay_closed (l_sender l) s then set_status h Finished s else set_waiting h True s)
         else s))"

definition draw_uuid :: "app_state \<Rightarrow> uuid \<times> app_state" where
  "draw_uuid s = (entropy (host_of (db s)) (draws (host_of (db s))),
     s\<lparr>db := (db s)\<lparr>host_of := (host_of (db s))\<lparr>draws := draws (host_of (db s)) + 1\<rparr>\<rparr>\<rparr>)"

lemma draw_uuid_new_v4: "on_db new_v4 s = (Ok (fst (draw_uuid s)), snd (draw_uuid s))"
  by (simp add: on_db_def new_v4_def draw_uuid_def)

definition tcp_accept :: "nat \<Rightarrow> accept_result \<Rightarrow> app_state \<Rightarrow> tcp_conn option \<times> app_state" where
  "tcp_accept h r s = (case listeners s h of
      None \<Rightarrow> (None, s)
    | Some l \<Rightarrow>
        (if l_status l = Running \<and> l_waiting l \<and> l_proto l = Tcp then
           (case r of
              Accepted \<Rightarrow>
                (let (conn_id, s) = draw_uuid s;
                     (sent, s) = send_relay (l_sender l) (NewConnection (l_tunnel l) conn_id) s
                 in if sent then
                      (let tx = next_data_chan s; s = register_conn conn_id s
                       in (Some \<lparr>k_conn = conn_id, k_tunnel = l_tunnel l, k_sender = l_sender l,
                                 k_data = tx, k_open = True, k_out = []\<rparr>,
                           set_waiting h False s))
                    else (None, set_status h Finished s))
            | AcceptFailed \<Rightarrow> (None, set_waiting h False s))
         else (None, s)))"

section \<open>A connection\<close>

text \<open>After the loop: tell the agent, drop the sender, and end the task.\<close>

definition tcp_finish :: "tcp_conn \<Rightarrow> app_state \<Rightarrow> tcp_conn \<times> app_state" where
  "tcp_finish k s =
     (k\<lparr>k_open := False\<rparr>,
      drop_data_rx (k_data k)
        (remove_conn_sender (k_conn k) (post (k_sender k) (CloseConnection (k_conn k)) s)))"

definition tcp_read :: "ext \<Rightarrow> client_read \<Rightarrow> tcp_conn \<Rightarrow> app_state \<Rightarrow> tcp_conn \<times> app_state" where
  "tcp_read x r k s =
     (if \<not> k_open k then (k, s)
      else case r of
        ReadEof \<Rightarrow> tcp_finish k s
      | ReadBytes buf \<Rightarrow>
          (let s = record_traffic (k_tunnel k) (of_nat (length buf)) 0 s;
               (sent, s) = send_relay (k_sender k) (RelayData (k_conn k) (base64_encode x buf)) s
           in if sent then (k, s) else tcp_finish k s)
      | ReadError \<Rightarrow> tcp_finish k s)"

text \<open>
  The branch \<open>Some(data) = rx.recv()\<close>: it is disabled while the queue is empty, for good once
  the sender is dropped too. \<open>ok\<close> says whether \<open>write_all\<close> succeeded.
\<close>

definition tcp_deliver :: "bool \<Rightarrow> tcp_conn \<Rightarrow> app_state \<Rightarrow> tcp_conn \<times> app_state" where
  "tcp_deliver ok k s =
     (if \<not> k_open k then (k, s)
      else case data_chans s (k_data k) of
        None \<Rightarrow> (k, s)
      | Some c \<Rightarrow>
          (case dq c of
             [] \<Rightarrow> (k, s)
           | data # rest \<Rightarrow>
               (let s = s\<lparr>data_chans := (data_chans s)(k_data k \<mapsto> c\<lparr>dq := rest\<rparr>)\<rparr>;
                    s = record_traffic (k_tunnel k) 0 (of_nat (length data)) s
                in if ok then (k\<lparr>k_out := k_out k @ data\<rparr>, s) else tcp_finish k s)))"

section \<open>Frames\<close>

lemma set_waiting_frame [simp]:
  "db (set_waiting h w s) = db s" "tunnel_tasks (set_waiting h w s) = tunnel_tasks s"
  "next_listener (set_waiting h w s) = next_listener s"
  "tcp_conn_senders (set_waiting h w s) = tcp_conn_senders s"
  "data_chans (set_waiting h w s) = data_chans s"
  "next_data_chan (set_waiting h w s) = next_data_chan s"
  "relay_chans (set_waiting h w s) = relay_chans s"
  "allocated_ports (set_waiting h w s) = allocated_ports s"
  by (simp_all add: set_waiting_def split: option.split)

lemma set_status_fields [simp]:
  "tcp_conn_senders (set_status h st s) = tcp_conn_senders s" "data_chans (set_status h st s) = data_chans s"
  "next_data_chan (set_status h st s) = next_data_chan s" "db (set_status h st s) = db s"
  "relay_chans (set_status h st s) = relay_chans s"
  by (simp_all add: set_status_def split: option.split)

text \<open>Changing where a loop is, or ending it, keeps the registry well formed.\<close>

lemma wf_update_listener:
  assumes wf: "listeners_wf s" and l: "listeners s h = Some l"
    and same: "l_tunnel l' = l_tunnel l" "l_proto l' = l_proto l" "l_port l' = l_port l"
    and run: "l_status l' = Running \<Longrightarrow> l_status l = Running"
  shows "listeners_wf (s\<lparr>listeners := (listeners s)(h \<mapsto> l')\<rparr>)"
proof (rule listeners_wfI)
  fix i k m m' n
  let ?t = "s\<lparr>listeners := (listeners s)(h \<mapsto> l')\<rparr>"
  show "listeners ?t k = Some m \<Longrightarrow> k < next_listener ?t"
    using wf_bound [OF wf, of k] l by (auto split: if_splits)
  show "tunnel_tasks ?t i = Some k \<Longrightarrow> \<exists>l. listeners ?t k = Some l \<and> l_tunnel l = i"
    using wf_task [OF wf, of i k] l same by auto
  assume m: "listeners ?t k = Some m" "l_status m = Running"
  then show "tunnel_tasks ?t (l_tunnel m) = Some k"
    using wf_registered [OF wf, of k] l same run by (auto split: if_splits)
  assume m': "listeners ?t n = Some m'" "l_status m' = Running" "l_proto m = l_proto m'" "l_port m = l_port m'"
  obtain a where "listeners s k = Some a" "l_status a = Running" "l_proto a = l_proto m" "l_port a = l_port m"
    using m l same run by (cases "k = h") auto
  moreover obtain b where "listeners s n = Some b" "l_status b = Running" "l_proto b = l_proto m'"
      "l_port b = l_port m'"
    using m' l same run by (cases "n = h") auto
  ultimately show "k = n" using wf_one_socket [OF wf] m'(3,4) by metis
qed

lemma set_waiting_lis: "lis_step s (set_waiting h w s)"
  unfolding lis_step_def set_waiting_def by (auto split: option.split intro!: wf_update_listener)

lemma set_finished_lis: "lis_step s (set_status h Finished s)"
  unfolding lis_step_def set_status_def by (auto split: option.split intro!: wf_update_listener)

lemma loop_head_lis: "lis_step s (loop_head h s)"
  using set_waiting_lis set_finished_lis by (auto simp: loop_head_def lis.R_refl split: option.split)

lemma draw_uuid_frame [simp]:
  "tabs (db (snd (draw_uuid s))) = tabs (db s)" "listeners (snd (draw_uuid s)) = listeners s"
  "tunnel_tasks (snd (draw_uuid s)) = tunnel_tasks s" "next_listener (snd (draw_uuid s)) = next_listener s"
  "tcp_conn_senders (snd (draw_uuid s)) = tcp_conn_senders s" "data_chans (snd (draw_uuid s)) = data_chans s"
  "next_data_chan (snd (draw_uuid s)) = next_data_chan s" "relay_chans (snd (draw_uuid s)) = relay_chans s"
  "same_world (db s) (db (snd (draw_uuid s)))"
  by (simp_all add: draw_uuid_def same_world_def)

lemma register_conn_frame [simp]:
  "db (register_conn i s) = db s" "listeners (register_conn i s) = listeners s"
  "tunnel_tasks (register_conn i s) = tunnel_tasks s" "next_listener (register_conn i s) = next_listener s"
  "relay_chans (register_conn i s) = relay_chans s"
  by (simp_all add: register_conn_def insert_conn_sender_def new_data_chan_def drop_data_tx_def Let_def
      split: option.split)

lemma drop_data_rx_frame [simp]:
  "db (drop_data_rx ch s) = db s" "listeners (drop_data_rx ch s) = listeners s"
  "tunnel_tasks (drop_data_rx ch s) = tunnel_tasks s" "next_listener (drop_data_rx ch s) = next_listener s"
  "relay_chans (drop_data_rx ch s) = relay_chans s"
  "tcp_conn_senders (drop_data_rx ch s) = tcp_conn_senders s"
  "next_data_chan (drop_data_rx ch s) = next_data_chan s"
  by (simp_all add: drop_data_rx_def split: option.split)

lemma remove_conn_sender_relay [simp]: "relay_chans (remove_conn_sender i s) = relay_chans s"
  by (simp add: remove_conn_sender_def drop_data_tx_def split: option.split)

lemma tcp_finish_frame [simp]:
  "db (snd (tcp_finish k s)) = db s" "listeners (snd (tcp_finish k s)) = listeners s"
  "tunnel_tasks (snd (tcp_finish k s)) = tunnel_tasks s" "next_listener (snd (tcp_finish k s)) = next_listener s"
  by (simp_all add: tcp_finish_def)

lemma send_relay_post: "send_relay ch m s = (\<not> relay_closed ch s, post ch m s)"
  by (auto simp: post_def send_relay_def relay_closed_def split: option.split)

lemma tcp_accept_lis: "lis_step s (snd (tcp_accept h r s))"
proof (cases "listeners s h")
  case None
  then show ?thesis by (simp add: tcp_accept_def lis.R_refl)
next
  case (Some l)
  obtain i u where u: "draw_uuid s = (i, u)" by (cases "draw_uuid s")
  then have su: "snd (draw_uuid s) = u" by simp
  define t where "t = post (l_sender l) (NewConnection (l_tunnel l) i) u"
  have t: "lis_step s t"
    using draw_uuid_frame [of s] unfolding su by (simp add: t_def lis_same)
  have "lis_step t (set_waiting h False (register_conn i t))"
    by (rule lis.R_trans [OF lis_same set_waiting_lis]) simp_all
  with t have "lis_step s (set_waiting h False (register_conn i t))" by (rule lis.R_trans)
  moreover have "lis_step s (set_status h Finished t)"
    by (rule lis.R_trans [OF t set_finished_lis])
  ultimately show ?thesis
    using Some set_waiting_lis
    by (auto simp: tcp_accept_def send_relay_post u t_def Let_def lis.R_refl split: accept_result.split)
qed

section \<open>What a connection does with data\<close>

text \<open>Data from the client goes to the agent, encoded; the traffic counter grows by it.\<close>

lemma tcp_read_bytes:
  assumes "k_open k" and "\<not> relay_closed (k_sender k) s"
  shows "tcp_read x (ReadBytes buf) k s =
    (k, post (k_sender k) (RelayData (k_conn k) (base64_encode x buf))
          (record_traffic (k_tunnel k) (of_nat (length buf)) 0 s))"
proof -
  have "relay_closed (k_sender k) (record_traffic (k_tunnel k) (of_nat (length buf)) 0 s)
      = relay_closed (k_sender k) s"
    by (simp add: relay_closed_def)
  with assms show ?thesis by (simp add: tcp_read_def send_relay_post)
qed

lemma drop_data_rx_chan [simp]:
  "data_chans (drop_data_rx ch s) j =
     (if j = ch then map_option (\<lambda>c. c\<lparr>dq := [], d_rx := False\<rparr>) (data_chans s j) else data_chans s j)"
  by (auto simp: drop_data_rx_def split: option.split)

text \<open>A closed connection's sender is gone.\<close>

lemma tcp_finish_unregisters: "tcp_conn_senders (snd (tcp_finish k s)) (k_conn k) = None"
  by (simp add: tcp_finish_def)

lemma tcp_finish_conns_wf:
  assumes wf: "conns_wf s" and own: "\<And>i. tcp_conn_senders s i = Some (k_data k) \<Longrightarrow> i = k_conn k"
  shows "conns_wf (snd (tcp_finish k s))"
proof -
  let ?p = "post (k_sender k) (CloseConnection (k_conn k)) s"
  let ?t = "remove_conn_sender (k_conn k) ?p"
  have p: "conns_wf ?p" using wf by (simp add: conns_wf_frame [of ?p s])
  have t: "conns_wf ?t" by (rule remove_conn_sender_wf [OF p])
  have no: "tcp_conn_senders ?t i \<noteq> Some (k_data k)" for i using own [of i] by auto
  show ?thesis unfolding tcp_finish_def snd_conv
  proof (rule conns_wfI)
    fix i j ch c
    show "tcp_conn_senders (drop_data_rx (k_data k) ?t) i = Some ch \<Longrightarrow>
        \<exists>c. data_chans (drop_data_rx (k_data k) ?t) ch = Some c \<and> d_rx c"
      using conns_chan [OF t, of i ch] no [of i] by auto
    show "tcp_conn_senders (drop_data_rx (k_data k) ?t) i = Some ch \<Longrightarrow>
        tcp_conn_senders (drop_data_rx (k_data k) ?t) j = Some ch \<Longrightarrow> i = j"
      using conns_inj [OF t, of i ch j] by simp
    show "data_chans (drop_data_rx (k_data k) ?t) ch = Some c \<Longrightarrow>
        ch < next_data_chan (drop_data_rx (k_data k) ?t)"
      using conns_bound [OF t, of ch] by (auto split: if_splits)
  qed
qed

text \<open>Delivering a whole queue writes its concatenation.\<close>

primrec tcp_deliver_n :: "nat \<Rightarrow> tcp_conn \<Rightarrow> app_state \<Rightarrow> tcp_conn \<times> app_state" where
  "tcp_deliver_n 0 k s = (k, s)"
| "tcp_deliver_n (Suc n) k s = (let (k', t) = tcp_deliver True k s in tcp_deliver_n n k' t)"

lemma tcp_deliver_queue:
  "k_open k \<Longrightarrow> data_chans s (k_data k) = Some c \<Longrightarrow> dq c = ds @ rest \<Longrightarrow>
    \<exists>t. tcp_deliver_n (length ds) k s = (k\<lparr>k_out := k_out k @ concat ds\<rparr>, t)
      \<and> data_chans t (k_data k) = Some (c\<lparr>dq := rest\<rparr>)"
proof (induction ds arbitrary: k s c)
  case Nil
  then show ?case by (cases k; cases c) simp
next
  case (Cons d ds)
  let ?k = "k\<lparr>k_out := k_out k @ d\<rparr>"
  let ?s = "record_traffic (k_tunnel k) 0 (of_nat (length d))
      (s\<lparr>data_chans := (data_chans s)(k_data k \<mapsto> c\<lparr>dq := ds @ rest\<rparr>)\<rparr>)"
  have step: "tcp_deliver True k s = (?k, ?s)"
    using Cons.prems by (simp add: tcp_deliver_def)
  have "\<exists>t. tcp_deliver_n (length ds) ?k ?s = (?k\<lparr>k_out := k_out ?k @ concat ds\<rparr>, t)
      \<and> data_chans t (k_data ?k) = Some (c\<lparr>dq := ds @ rest\<rparr>\<lparr>dq := rest\<rparr>)"
    by (rule Cons.IH) (use Cons.prems in simp_all)
  with step show ?case by simp
qed

end
