(* ===== verification/Udp_Proxy.thy ===== *)
theory Udp_Proxy
  imports Tcp_Proxy
begin

text \<open>
  \<open>src/udp_proxy.rs\<close>: one task per UDP tunnel, with two maps between client addresses and
  connection ids, and one forwarding task per connection.

  The record \<open>udp_task\<close> holds the loop's local variables, the queue of its own channel
  (\<open>u_inbox\<close>), the datagrams sent (\<open>u_sent\<close>), and the forwarding tasks: for each connection
  the number of its data channel and whether the task has registered it yet, since the spawned
  task registers the sender after the loop has gone on. A select branch is one step:
  \<open>udp_recv\<close> and \<open>udp_deliver\<close>; a forwarding task's steps are \<open>udp_register\<close> and \<open>udp_forward\<close>.

  \<open>udp_maps_wf\<close> says the two maps are inverse to each other; it holds as long as drawn ids are
  new.
\<close>

type_synonym socket_addr = "nat \<times> u16"

record udp_task =
  u_listener :: nat
  u_tunnel :: uuid
  u_sender :: nat
  addr_to_conn :: "socket_addr \<rightharpoonup> uuid"
  conn_to_addr :: "uuid \<rightharpoonup> socket_addr"
  u_forwarders :: "uuid \<rightharpoonup> nat \<times> bool"
  u_inbox :: "(uuid \<times> bytes) list"
  u_sent :: "(socket_addr \<times> bytes) list"

definition new_udp_task :: "nat \<Rightarrow> listener \<Rightarrow> udp_task" where
  "new_udp_task h l =
     \<lparr>u_listener = h, u_tunnel = l_tunnel l, u_sender = l_sender l, addr_to_conn = Map.empty,
      conn_to_addr = Map.empty, u_forwarders = Map.empty, u_inbox = [], u_sent = []\<rparr>"

definition udp_active :: "udp_task \<Rightarrow> app_state \<Rightarrow> bool" where
  "udp_active u s = (case listeners s (u_listener u) of
      None \<Rightarrow> False | Some l \<Rightarrow> l_status l = Running \<and> l_waiting l \<and> l_proto l = Udp)"

text \<open>\<open>entry(addr).or_insert_with(...)\<close>.\<close>

definition udp_conn_for :: "socket_addr \<Rightarrow> udp_task \<Rightarrow> app_state \<Rightarrow> uuid \<times> udp_task \<times> app_state" where
  "udp_conn_for addr u s =
     (case addr_to_conn u addr of
        Some conn_id \<Rightarrow> (conn_id, u, s)
      | None \<Rightarrow>
          (let (i, s) = draw_uuid s;
               s = post (u_sender u) (NewConnection (u_tunnel u) i) s;
               (conn_tx, s) = new_data_chan s
           in (i, u\<lparr>addr_to_conn := (addr_to_conn u)(addr \<mapsto> i),
                    conn_to_addr := (conn_to_addr u)(i \<mapsto> addr),
                    u_forwarders := (u_forwarders u)(i \<mapsto> (conn_tx, False))\<rparr>, s)))"

definition udp_recv ::
  "ext \<Rightarrow> (socket_addr \<times> bytes) option \<Rightarrow> udp_task \<Rightarrow> app_state \<Rightarrow> udp_task \<times> app_state" where
  "udp_recv x r u s =
     (if \<not> udp_active u s then (u, s)
      else case r of
        None \<Rightarrow> (u, set_waiting (u_listener u) False s)
      | Some (addr, buf) \<Rightarrow>
          (let (conn_id, u, s) = udp_conn_for addr u s;
               s = record_traffic (u_tunnel u) (of_nat (length buf)) 0 s;
               s = post (u_sender u) (RelayData conn_id (base64_encode x buf)) s
           in (u, set_waiting (u_listener u) False s)))"

definition udp_register :: "uuid \<Rightarrow> udp_task \<Rightarrow> app_state \<Rightarrow> udp_task \<times> app_state" where
  "udp_register i u s =
     (case u_forwarders u i of
        Some (tx, False) \<Rightarrow>
          (u\<lparr>u_forwarders := (u_forwarders u)(i \<mapsto> (tx, True))\<rparr>, insert_conn_sender i tx s)
      | _ \<Rightarrow> (u, s))"

text \<open>The loop's own channel is closed once its task has ended; the send is then ignored.\<close>

definition udp_alive :: "udp_task \<Rightarrow> app_state \<Rightarrow> bool" where
  "udp_alive u s = (case listeners s (u_listener u) of
      None \<Rightarrow> False | Some l \<Rightarrow> l_status l = Running)"

definition udp_forward :: "uuid \<Rightarrow> udp_task \<Rightarrow> app_state \<Rightarrow> udp_task \<times> app_state" where
  "udp_forward i u s =
     (case u_forwarders u i of
        Some (ch, True) \<Rightarrow>
          (case data_chans s ch of
             None \<Rightarrow> (u, s)
           | Some c \<Rightarrow>
               (case dq c of
                  [] \<Rightarrow> (u, s)
                | data # rest \<Rightarrow>
                    ((if udp_alive u s then u\<lparr>u_inbox := u_inbox u @ [(i, data)]\<rparr> else u),
                     s\<lparr>data_chans := (data_chans s)(ch \<mapsto> c\<lparr>dq := rest\<rparr>)\<rparr>)))
      | _ \<Rightarrow> (u, s))"

definition udp_deliver :: "udp_task \<Rightarrow> app_state \<Rightarrow> udp_task \<times> app_state" where
  "udp_deliver u s =
     (if \<not> udp_active u s then (u, s)
      else case u_inbox u of
        [] \<Rightarrow> (u, s)
      | (conn_id, data) # rest \<Rightarrow>
          (let u = u\<lparr>u_inbox := rest\<rparr>; s = set_waiting (u_listener u) False s
           in case conn_to_addr u conn_id of
                Some addr \<Rightarrow>
                  (u\<lparr>u_sent := u_sent u @ [(addr, data)]\<rparr>,
                   record_traffic (u_tunnel u) 0 (of_nat (length data)) s)
              | None \<Rightarrow> (u, s)))"

section \<open>The two maps\<close>

definition udp_maps_wf :: "udp_task \<Rightarrow> bool" where
  "udp_maps_wf u \<longleftrightarrow> (\<forall>a i. addr_to_conn u a = Some i \<longleftrightarrow> conn_to_addr u i = Some a)"

definition next_uuid :: "app_state \<Rightarrow> uuid" where
  "next_uuid s = fst (draw_uuid s)"

lemma udp_conn_for_known:
  "addr_to_conn u a = Some i \<Longrightarrow> udp_conn_for a u s = (i, u, s)"
  by (simp add: udp_conn_for_def)

lemma udp_conn_for_new:
  "addr_to_conn u a = None \<Longrightarrow>
    udp_conn_for a u s =
      (next_uuid s,
       u\<lparr>addr_to_conn := (addr_to_conn u)(a \<mapsto> next_uuid s),
         conn_to_addr := (conn_to_addr u)(next_uuid s \<mapsto> a),
         u_forwarders := (u_forwarders u)(next_uuid s \<mapsto> (next_data_chan s, False))\<rparr>,
       snd (new_data_chan (post (u_sender u) (NewConnection (u_tunnel u) (next_uuid s))
         (snd (draw_uuid s)))))"
  by (simp add: udp_conn_for_def next_uuid_def case_prod_unfold Let_def)

lemma udp_maps_add:
  assumes wf: "udp_maps_wf u" and a: "addr_to_conn u a = None" and i: "conn_to_addr u i = None"
    and v: "addr_to_conn v = (addr_to_conn u)(a \<mapsto> i)" "conn_to_addr v = (conn_to_addr u)(i \<mapsto> a)"
  shows "udp_maps_wf v"
proof -
  have "addr_to_conn v b = Some j \<longleftrightarrow> conn_to_addr v j = Some b" for b j
  proof -
    have "addr_to_conn u b = Some j \<longleftrightarrow> conn_to_addr u j = Some b" "addr_to_conn u b \<noteq> Some i"
      "conn_to_addr u j \<noteq> Some a"
      using wf a i unfolding udp_maps_wf_def by (metis option.distinct(1))+
    then show ?thesis by (auto simp: v)
  qed
  then show ?thesis by (simp add: udp_maps_wf_def)
qed

lemma udp_conn_for_maps:
  assumes wf: "udp_maps_wf u" and fresh: "addr_to_conn u a = None \<Longrightarrow> conn_to_addr u (next_uuid s) = None"
    and run: "udp_conn_for a u s = (i, v, t)"
  shows "udp_maps_wf v \<and> addr_to_conn v a = Some i"
proof (cases "addr_to_conn u a")
  case (Some j)
  with run wf show ?thesis by (simp add: udp_conn_for_known)
next
  case None
  with run have "i = next_uuid s" "addr_to_conn v = (addr_to_conn u)(a \<mapsto> i)"
    "conn_to_addr v = (conn_to_addr u)(i \<mapsto> a)"
    by (auto simp: udp_conn_for_new)
  with udp_maps_add [OF wf None] fresh [OF None] show ?thesis by simp
qed

lemma udp_recv_maps:
  assumes "udp_maps_wf u"
    and "\<And>a buf. r = Some (a, buf) \<Longrightarrow> addr_to_conn u a = None \<Longrightarrow> conn_to_addr u (next_uuid s) = None"
  shows "udp_maps_wf (fst (udp_recv x r u s))"
  using assms
  by (auto simp: udp_recv_def Let_def split: option.split prod.split dest: udp_conn_for_maps)

lemma udp_other_maps:
  "udp_maps_wf u \<Longrightarrow> udp_maps_wf (fst (udp_register i u s))"
  "udp_maps_wf u \<Longrightarrow> udp_maps_wf (fst (udp_forward i u s))"
  "udp_maps_wf u \<Longrightarrow> udp_maps_wf (fst (udp_deliver u s))"
  by (auto simp: udp_maps_wf_def udp_register_def udp_forward_def udp_deliver_def Let_def
      split: option.split list.split bool.split)

section \<open>What a datagram does\<close>

text \<open>A datagram from a known address is one message to the agent, under the known id.\<close>

lemma udp_recv_known:
  assumes "udp_active u s" and "addr_to_conn u a = Some i"
  shows "udp_recv x (Some (a, buf)) u s =
    (u, set_waiting (u_listener u) False
          (post (u_sender u) (RelayData i (base64_encode x buf))
            (record_traffic (u_tunnel u) (of_nat (length buf)) 0 s)))"
  using assms by (simp add: udp_recv_def udp_conn_for_known Let_def)

text \<open>An answer of the agent that reached the loop goes to the address of its connection.\<close>

lemma udp_deliver_reply:
  assumes "udp_active u s" and "u_inbox u = (i, data) # rest" and "conn_to_addr u i = Some a"
  shows "fst (udp_deliver u s) = u\<lparr>u_inbox := rest, u_sent := u_sent u @ [(a, data)]\<rparr>"
  using assms by (simp add: udp_deliver_def Let_def)

section \<open>Frames\<close>

lemma udp_conn_for_frame:
  assumes "udp_conn_for a u s = (i, v, t)"
  shows "listeners t = listeners s" "tunnel_tasks t = tunnel_tasks s" "next_listener t = next_listener s"
    "tabs (db t) = tabs (db s)" "same_world (db s) (db t)" "u_listener v = u_listener u"
    "u_sender v = u_sender u" "u_tunnel v = u_tunnel u"
  using assms
  by (cases "addr_to_conn u a"; force simp: udp_conn_for_def case_prod_unfold Let_def new_data_chan_def
      same_world_def draw_uuid_def)+

lemma udp_recv_lis: "lis_step s (snd (udp_recv x r u s))"
proof (cases "udp_active u s \<and> r \<noteq> None")
  case False
  then show ?thesis
    using set_waiting_lis by (cases r) (auto simp: udp_recv_def lis.R_refl split: prod.split)
next
  case True
  then obtain a buf where r: "r = Some (a, buf)" by force
  obtain i v t where c: "udp_conn_for a u s = (i, v, t)" by (cases "udp_conn_for a u s")
  let ?t = "post (u_sender v) (RelayData i (base64_encode x buf))
      (record_traffic (u_tunnel v) (of_nat (length buf)) 0 t)"
  have "lis_step s ?t" using udp_conn_for_frame [OF c] by (simp add: lis_same)
  then have "lis_step s (set_waiting (u_listener v) False ?t)"
    by (rule lis.R_trans [OF _ set_waiting_lis])
  with True r c show ?thesis by (simp add: udp_recv_def Let_def)
qed

lemma insert_conn_sender_frame [simp]:
  "db (insert_conn_sender i tx s) = db s" "listeners (insert_conn_sender i tx s) = listeners s"
  "tunnel_tasks (insert_conn_sender i tx s) = tunnel_tasks s"
  "next_listener (insert_conn_sender i tx s) = next_listener s"
  by (simp_all add: insert_conn_sender_def drop_data_tx_def Let_def split: option.split)

lemma udp_register_lis: "lis_step s (snd (udp_register i u s))"
  by (auto simp: udp_register_def lis.R_refl lis_same split: option.split bool.split)

lemma udp_forward_lis: "lis_step s (snd (udp_forward i u s))"
  by (auto simp: udp_forward_def lis.R_refl lis_same split: option.split bool.split list.split)

lemma udp_deliver_lis: "lis_step s (snd (udp_deliver u s))"
proof -
  have "lis_step s (record_traffic i a b (set_waiting h w s))" for i a b h w
    by (rule lis.R_trans [OF set_waiting_lis lis_same]) simp_all
  then show ?thesis
    using set_waiting_lis
    by (auto simp: udp_deliver_def Let_def lis.R_refl split: list.split option.split)
qed

end
