(* ===== verification/Handler_Steps.thy ===== *)
theory Handler_Steps
  imports Admin_Scripts Udp_Proxy
begin

text \<open>
  What every HTTP handler respects, proved once.

  The locale \<open>handler_rel\<close> is the interface between the handlers of \<open>src/admin.rs\<close> and what
  they call: a reflexive and transitive relation between states of the relay that the
  database functions, the start and stop of a listener and the memory operations respect. Its
  lemmas say every handler respects it; \<open>creating_rel\<close> adds the insertion of a tunnel and
  with it the creation handler. The interpretations are the invariants: well-formed tables,
  sound references, the registry of listeners, and the routing of data, which no handler
  touches.
\<close>

text \<open>A step in memory that leaves the database, the listeners and the data channels alone.\<close>

definition quiet :: "app_state \<Rightarrow> app_state \<Rightarrow> bool" where
  "quiet s t \<longleftrightarrow> db t = db s \<and> listeners t = listeners s \<and> tunnel_tasks t = tunnel_tasks s
     \<and> next_listener t = next_listener s \<and> tcp_conn_senders t = tcp_conn_senders s
     \<and> data_chans t = data_chans s \<and> next_data_chan t = next_data_chan s"

lemma quiet_ops [simp]:
  "quiet s (post ch m s)" "quiet s (free_port p s)" "quiet s (reserve_port p s)"
  "quiet s (snd (allocate_port q s))" "quiet s (register_sender a ch s)"
  "quiet s (set_pending c ch s)" "quiet s (add_user_session k u s)" "quiet s (remove_agent_sender a s)"
  "quiet s (notify_stop x t i s)"
  by (simp_all add: quiet_def free_port_def reserve_port_def allocate_port_def register_sender_def
      set_pending_def add_user_session_def remove_agent_sender_def notify_stop_def split: option.split)

locale handler_rel = step_rel R for R :: "app_state \<Rightarrow> app_state \<Rightarrow> bool" +
  assumes quiet_R: "quiet s t \<Longrightarrow> R s t"
    and stop_R: "R s (stop_tunnel_listener tid s)"
    and start_R: "obeys R (start_tunnel_listener k ch)"
    and sync_R: "obeys R (sync_agent_tunnels x aid ch :: (app_state, unit, nat \<times> string) prog)"
    and register_R: "obeys R (on_db (register_user x n p bounds))"
    and verify_R: "obeys R (on_db (verify_user n p))"
    and user_R: "obeys R (on_db (get_user_by_id i))"
    and users_R: "obeys R (on_db list_all_users)"
    and ban_R: "obeys R (on_db (toggle_user_ban i b))"
    and draw_R: "obeys R (on_db new_v4 :: (app_state, uuid, nat \<times> string) prog)"
    and claim_R: "obeys R (on_db (claim_agent_to_user code i))"
    and online_R: "obeys R (on_db (set_agent_online i b m))"
    and agents_R: "obeys R (on_db (list_agents_for_user i))" "obeys R (on_db list_all_agents)"
    and new_agent_R: "obeys R (on_db (create_agent_for_user x i n))"
    and drop_agent_R: "obeys R (on_db (db_delete_agent i))"
    and tunnels_R: "obeys R (on_db (list_tunnels_for_user i))" "obeys R (on_db list_all_tunnels)"
    and tunnel_R: "obeys R (on_db (get_tunnel_by_id i))"
    and enable_R: "obeys R (on_db (set_tunnel_enabled i b))"
    and taken_R: "obeys R (on_db (is_subdomain_taken sub e))"
    and delete_R: "obeys R (on_db (db_delete_tunnel i))"
begin

lemmas db_R = register_R verify_R user_R users_R ban_R draw_R claim_R online_R agents_R new_agent_R
  drop_agent_R tunnels_R tunnel_R enable_R taken_R delete_R sync_R start_R

lemma modify_quiet: "(\<And>s. quiet s (f s)) \<Longrightarrow> obeys R (modify f)"
  by (rule modify_step) (rule quiet_R)

lemma total_quiet: "(\<And>s. quiet s (snd (f s))) \<Longrightarrow> obeys R (total f)"
  by (rule total_step) (rule quiet_R)

lemma stop_and_free_R: "R s (stop_and_free x t s)"
proof (cases "uuid_parse_str x (tr_id t)")
  case (Some tid)
  then show ?thesis using R_trans [OF stop_R [of s tid] quiet_R [OF quiet_ops(2)]]
    by (simp add: stop_and_free_def)
qed (simp add: stop_and_free_def R_refl)

lemma modify_stops: "obeys R (modify (stop_tunnel_listener i))" "obeys R (modify (fold (stop_and_free x) ts))"
  using fold_step [of R "stop_and_free x", OF step_rel_axioms stop_and_free_R]
  by (simp_all add: modify_step stop_R)

lemma list_step:
  "obeys R n \<Longrightarrow> (\<And>x xs. obeys R (f x xs)) \<Longrightarrow>
    obeys R (case v of [] \<Rightarrow> n | x # xs \<Rightarrow> f x xs)"
  by (cases v) simp_all

lemmas handler_rules = rules list_step db_R modify_stops modify_quiet total_quiet quiet_ops

lemma auth_handlers:
  "obeys R (register x b)" "obeys R (login x b)" "obeys R (get_me x h)" "obeys R (logout x h)"
  "obeys R (admin_login x pw)"
  unfolding register_def login_def get_me_def logout_def admin_login_def Let_def
  by (intro handler_rules; simp add: quiet_def)+

lemma require_admin_R: "obeys R (require_admin x h)"
  unfolding require_admin_def by (intro rules)

lemma admin_handlers:
  "obeys R (admin_list_users x h)" "obeys R (admin_ban_user x i h)" "obeys R (admin_unban_user x i h)"
  unfolding admin_list_users_def admin_ban_user_def admin_unban_user_def
  by (intro handler_rules require_admin_R)+

lemma claim_agent_R: "obeys R (claim_agent x code h)"
  unfolding claim_agent_def
  by (intro handler_rules; simp add: quiet_def)+

lemma agent_handlers:
  "obeys R (list_agents x h)" "obeys R (generate_agent_token x h)" "obeys R (delete_agent x i)"
  "obeys R (list_tunnels x h)"
  unfolding list_agents_def generate_agent_token_def delete_agent_def list_tunnels_def
  by (intro handler_rules)+

lemma toggle_tunnel_R: "obeys R (toggle_tunnel x i)"
  unfolding toggle_tunnel_def switch_tunnel_def Let_def by (intro handler_rules)+

lemma delete_tunnel_R: "obeys R (delete_tunnel x i)"
  unfolding delete_tunnel_def Let_def by (intro handler_rules)+

lemma resolve_R: "obeys R (resolve_token_for_script x q h)"
  unfolding resolve_token_for_script_def resolve_from_session_def
  by (intro handler_rules)+

lemma script_handlers:
  "obeys R (get_launcher_sh x q h)" "obeys R (get_launcher_bat x q h)" "obeys R get_live_stats"
  "obeys R serve_admin_page" "obeys R serve_claim_page"
  unfolding get_launcher_sh_def get_launcher_bat_def get_live_stats_def serve_admin_page_def
    serve_claim_page_def
  by (intro rules resolve_R)+

end

locale updating_rel = handler_rel +
  assumes update_R: "obeys R (on_db (db_update_tunnel i n lp pr sd))"
begin

lemma update_tunnel_R: "obeys R (update_tunnel x i b)"
  unfolding update_tunnel_def check_free_subdomain_def resync_agent_def Let_def
  by (intro handler_rules update_R)+

end

locale creating_rel = updating_rel +
  assumes create_R: "obeys R (on_db (db_create_tunnel x a u n lp pr pp sd))"
begin

lemma create_tunnel_R: "obeys R (create_tunnel x h b)"
  unfolding create_tunnel_def check_new_subdomain_def take_dedicated_port_def Let_def
  by (intro handler_rules create_R)

end

section \<open>The invariants the handlers keep\<close>

lemma quiet_db: "quiet s t \<Longrightarrow> db t = db s"
  by (simp add: quiet_def)

lemma quiet_lis: "quiet s t \<Longrightarrow> lis_step s t"
  by (simp add: quiet_def lis_same)

lemma stop_lis: "lis_step s (stop_tunnel_listener i s)"
  by (simp add: lis_step_def stop_wf)

interpretation web_lis: creating_rel lis_step
  by unfold_locales (intro steps quiet_lis stop_lis; assumption)+

interpretation web_wf: creating_rel app_wf.app_R
  by unfold_locales
    (intro app_wf.on_db_step steps same_tables_wf ws_wf.start_step ws_wf.sync_step app_wf.app_R_mem
      stop_fields quiet_db; assumption)+

interpretation web_refs: creating_rel app_refs.app_R
  by unfold_locales
    (intro app_refs.on_db_step steps same_tables_refs ws_refs.start_step ws_refs.sync_step
      app_refs.app_R_mem stop_fields quiet_db; assumption)+

interpretation web_world: creating_rel app_world.app_R
  by unfold_locales
    (intro app_world.on_db_step steps ws_world.start_step ws_world.sync_step
      app_world.app_R_mem stop_fields quiet_db; assumption)+

context stored_invariant begin

sublocale web: handler_rel app_R
  by unfold_locales
    (intro on_db_step steps register_inv ban_inv agent_ops_inv tunnel_ops_inv same_tables_inv
      start_step sync_step app_R_mem stop_fields quiet_db; assumption)+

end

context detail_invariant begin

sublocale editing: updating_rel app_R
  by unfold_locales (intro on_db_step details_inv)

end

text \<open>No handler, and no step of a session but data and close, touches the data channels.\<close>

definition data_same :: "app_state \<Rightarrow> app_state \<Rightarrow> bool" where
  "data_same s t \<longleftrightarrow> tcp_conn_senders t = tcp_conn_senders s \<and> data_chans t = data_chans s
     \<and> next_data_chan t = next_data_chan s"

interpretation data_kept: step_rel data_same
  by unfold_locales (simp_all add: data_same_def)

lemma on_db_data: "obeys data_same (on_db m)"
  by (simp add: obeys_def on_db_snd data_same_def)

lemma mem_frame_data: "mem_frame s t \<Longrightarrow> data_same s t"
  by (simp add: mem_frame_def data_same_def)

lemma quiet_data: "quiet s t \<Longrightarrow> data_same s t"
  by (simp add: quiet_def data_same_def)

lemma start_data: "obeys data_same (start_tunnel_listener k ch)"
  by (rule obeysI) (rule mem_frame_data, rule obeys_snd, rule start_frame)

lemma sync_loop_data: "obeys data_same (sync_loop x a ch ts)"
proof (induction ts)
  case Nil
  then show ?case by (simp only: sync_loop.simps data_kept.rules)
next
  case (Cons t ts)
  then show ?case
    by (auto simp only: sync_loop.simps Let_def intro!: data_kept.rules start_data
        data_kept.modify_step quiet_data quiet_ops)
qed

lemma sync_data: "obeys data_same (sync_agent_tunnels x a ch)"
  unfolding sync_agent_tunnels_def
  by (intro data_kept.rules on_db_data sync_loop_data data_kept.modify_step quiet_data quiet_ops)

interpretation web_data: creating_rel data_same
  by unfold_locales
    (intro on_db_data start_data sync_data quiet_data mem_frame_data stop_frame; assumption)+

end
