(* ===== verification/Session_Facts.thy ===== *)
theory Session_Facts
  imports Handler_Steps
begin

text \<open>
  What the session handlers of \<open>src/ws_handler.rs\<close> do, on every branch: synchronisation,
  authentication, claim requests and the clean-up after a disconnect.

  \<open>read_only\<close> is the relation of the operations that only read: they change nothing of the
  state but how far the outside world's answers have been used. \<open>sync_frame\<close> is what a
  synchronisation leaves alone.
\<close>

section \<open>Reading\<close>

definition read_only :: "app_state \<Rightarrow> app_state \<Rightarrow> bool" where
  "read_only s t \<longleftrightarrow> t = s\<lparr>db := db t\<rparr> \<and> tabs (db t) = tabs (db s) \<and> same_world (db s) (db t)"

interpretation reading: step_rel read_only
proof unfold_locales
  fix s t u
  show "read_only s s" by (simp add: read_only_def same_world_def)
  assume a: "read_only s t" "read_only t u"
  then obtain c d where "t = s\<lparr>db := c\<rparr>" "u = t\<lparr>db := d\<rparr>" unfolding read_only_def by metis
  then have "u = s\<lparr>db := db u\<rparr>" by simp
  with a show "read_only s u" by (simp add: read_only_def same_world_def)
qed

lemma on_db_reading: "obeys same_tables m \<Longrightarrow> obeys same_world m \<Longrightarrow> obeys read_only (on_db m)"
  by (simp add: obeys_def on_db_snd read_only_def same_tables_def)

lemma read_only_fields:
  assumes "read_only s t"
  shows "tabs (db t) = tabs (db s)" "allocated_ports t = allocated_ports s" "listeners t = listeners s"
    "tunnel_tasks t = tunnel_tasks s" "next_listener t = next_listener s" "user_sessions t = user_sessions s"
    "admin_sessions t = admin_sessions s" "agent_senders t = agent_senders s"
    "pending_claims t = pending_claims s" "relay_chans t = relay_chans s" "port_range t = port_range s"
    "reliable (db t) = reliable (db s)" "fk_enforced (db t) = fk_enforced (db s)"
    "bind_error t = bind_error s" "binds t = binds s" "live_traffic t = live_traffic s"
    "clock_ok (db t) = clock_ok (db s)"
proof -
  from assms have t: "t = s\<lparr>db := db t\<rparr>" and w: "same_world (db s) (db t)"
    and "tabs (db t) = tabs (db s)" by (simp_all add: read_only_def)
  then show "tabs (db t) = tabs (db s)" by simp
  show "reliable (db t) = reliable (db s)" using w by (rule same_world_reliable)
  show "clock_ok (db t) = clock_ok (db s)" using w by (rule same_world_clock)
  show "fk_enforced (db t) = fk_enforced (db s)" using w by (simp add: same_world_def)
  show "allocated_ports t = allocated_ports s" by (subst t) simp
  show "listeners t = listeners s" by (subst t) simp
  show "tunnel_tasks t = tunnel_tasks s" by (subst t) simp
  show "next_listener t = next_listener s" by (subst t) simp
  show "user_sessions t = user_sessions s" by (subst t) simp
  show "admin_sessions t = admin_sessions s" by (subst t) simp
  show "agent_senders t = agent_senders s" by (subst t) simp
  show "pending_claims t = pending_claims s" by (subst t) simp
  show "relay_chans t = relay_chans s" by (subst t) simp
  show "port_range t = port_range s" by (subst t) simp
  show "bind_error t = bind_error s" by (subst t) simp
  show "binds t = binds s" by (subst t) simp
  show "live_traffic t = live_traffic s" by (subst t) simp
qed

lemma require_admin_reading: "obeys read_only (require_admin x h)"
  unfolding require_admin_def by (intro reading.rules)

lemma reading_handlers:
  "obeys read_only (get_me x h)" "obeys read_only (list_agents x h)" "obeys read_only (list_tunnels x h)"
  "obeys read_only (admin_list_users x h)" "obeys read_only get_live_stats"
  unfolding get_me_def list_agents_def list_tunnels_def admin_list_users_def get_live_stats_def
  by (intro reading.rules on_db_reading steps require_admin_reading)+

text \<open>Reading the database inside the state, on a reliable connection.\<close>

lemma read_run:
  assumes "obeys same_tables m" and "obeys same_world m" and "m (db s) = (r, c)"
  shows "on_db m s = (r, s\<lparr>db := c\<rparr>)" and "read_only s (s\<lparr>db := c\<rparr>)"
proof -
  show "on_db m s = (r, s\<lparr>db := c\<rparr>)" using assms(3) by (simp add: on_db_def)
  with obeysD [OF on_db_reading [OF assms(1,2)]] show "read_only s (s\<lparr>db := c\<rparr>)" by blast
qed

lemma draw_reading: "read_only s (snd (draw_uuid s))"
  by (simp add: read_only_def draw_uuid_def same_world_def)

lemma and_then_draw [simp]: "and_then (on_db new_v4) f s = f (fst (draw_uuid s)) (snd (draw_uuid s))"
  by (rule and_then_Ok) (rule draw_uuid_new_v4)

section \<open>Stopping a list of tunnels\<close>

definition parsed_ids :: "ext \<Rightarrow> tunnel_record list \<Rightarrow> uuid set" where
  "parsed_ids x ts = {i. \<exists>k \<in> set ts. uuid_parse_str x (tr_id k) = Some i}"

definition parsed_ports :: "ext \<Rightarrow> tunnel_record list \<Rightarrow> u16 set" where
  "parsed_ports x ts = {p. \<exists>k \<in> set ts. uuid_parse_str x (tr_id k) \<noteq> None \<and> tr_public_port k = p}"

lemma parsed_Nil [simp]: "parsed_ids x [] = {}" "parsed_ports x [] = {}"
  by (simp_all add: parsed_ids_def parsed_ports_def)

lemma parsed_Cons:
  "parsed_ids x (k # ts) = set_option (uuid_parse_str x (tr_id k)) \<union> parsed_ids x ts"
  "parsed_ports x (k # ts) =
     (if uuid_parse_str x (tr_id k) = None then {} else {tr_public_port k}) \<union> parsed_ports x ts"
  by (auto simp: parsed_ids_def parsed_ports_def)

lemma free_port_wf [simp]: "listeners_wf (free_port p s) = listeners_wf s"
  by (simp add: listeners_wf_def)

lemma free_port_running [simp]: "running (free_port p s) i = running s i"
  by (simp add: running_def)

lemma stop_and_free_run:
  assumes "listeners_wf s"
  shows "listeners_wf (stop_and_free x k s)"
    "running (stop_and_free x k s) j \<longleftrightarrow> running s j \<and> uuid_parse_str x (tr_id k) \<noteq> Some j"
    "allocated_ports (stop_and_free x k s) =
       allocated_ports s - (if uuid_parse_str x (tr_id k) = None then {} else {tr_public_port k})"
  using assms
  by (auto simp: stop_and_free_def registry.wf_stop registry.up_stop split: option.split)

lemma stop_and_free_all:
  "listeners_wf s \<Longrightarrow> listeners_wf (fold (stop_and_free x) ts s)
    \<and> (running (fold (stop_and_free x) ts s) j \<longleftrightarrow> running s j \<and> j \<notin> parsed_ids x ts)
    \<and> allocated_ports (fold (stop_and_free x) ts s) = allocated_ports s - parsed_ports x ts"
proof (induction ts arbitrary: s)
  case Nil
  then show ?case by simp
next
  case (Cons k ts)
  note k = stop_and_free_run [OF Cons.prems, of x k]
  show ?case using Cons.IH [OF k(1)] k(2,3) by (auto simp: parsed_Cons)
qed

lemma stop_and_free_fields [simp]:
  "db (stop_and_free x k s) = db s" "agent_senders (stop_and_free x k s) = agent_senders s"
  "user_sessions (stop_and_free x k s) = user_sessions s" "relay_chans (stop_and_free x k s) = relay_chans s"
  "pending_claims (stop_and_free x k s) = pending_claims s"
  by (simp_all add: stop_and_free_def split: option.split)

lemma fold_field: "(\<And>a s. g (f a s) = g s) \<Longrightarrow> g (fold f as s) = g s"
  by (induction as arbitrary: s) simp_all

lemma stop_all_fields [simp]:
  "db (fold (stop_and_free x) ts s) = db s" "agent_senders (fold (stop_and_free x) ts s) = agent_senders s"
  "user_sessions (fold (stop_and_free x) ts s) = user_sessions s"
  "relay_chans (fold (stop_and_free x) ts s) = relay_chans s"
  "pending_claims (fold (stop_and_free x) ts s) = pending_claims s"
  by (rule fold_field, simp)+

section \<open>Synchronisation\<close>

text \<open>The configurations a synchronisation sends, and what it leaves alone.\<close>

definition sync_configs :: "ext \<Rightarrow> uuid \<Rightarrow> tunnel_record list \<Rightarrow> tunnel_config list" where
  "sync_configs x a ts = List.map_filter (\<lambda>k. map_option (\<lambda>i. config_of_record i a k)
     (uuid_parse_str x (tr_id k))) ts"

definition sync_frame :: "app_state \<Rightarrow> app_state \<Rightarrow> bool" where
  "sync_frame s t \<longleftrightarrow> db t = db s \<and> user_sessions t = user_sessions s \<and> admin_sessions t = admin_sessions s
     \<and> agent_senders t = agent_senders s \<and> pending_claims t = pending_claims s
     \<and> relay_chans t = relay_chans s \<and> port_range t = port_range s"

interpretation syncing: step_rel sync_frame
  by unfold_locales (simp_all add: sync_frame_def)

lemma start_sync_frame: "obeys sync_frame (start_tunnel_listener k ch)"
  using start_frame [of k ch] by (simp add: obeys_def mem_frame_def sync_frame_def)

lemma reserve_sync_frame: "sync_frame s (reserve_port p s)"
  by (simp add: sync_frame_def reserve_port_def)

lemma sync_loop_frame: "obeys sync_frame (sync_loop x a ch ts)"
proof (induction ts)
  case Nil
  then show ?case by (simp only: sync_loop.simps syncing.rules)
next
  case (Cons t ts)
  then show ?case
    by (auto simp only: sync_loop.simps Let_def intro!: syncing.rules start_sync_frame
        syncing.modify_step reserve_sync_frame)
qed

lemma start_allocated: "allocated_ports (snd (start_tunnel_listener k ch s)) = allocated_ports s"
  using obeys_snd [OF start_frame, of s k ch] by (simp add: mem_frame_def)

text \<open>One entry of the loop: what happens to the state when the entry is enabled.\<close>

definition sync_one :: "ext \<Rightarrow> uuid \<Rightarrow> nat \<Rightarrow> tunnel_record \<Rightarrow> app_state \<Rightarrow> app_state" where
  "sync_one x a ch k s =
     (case uuid_parse_str x (tr_id k) of
        None \<Rightarrow> s
      | Some i \<Rightarrow>
          (if tr_enabled k
           then snd (start_tunnel_listener (config_of_record i a k) ch (reserve_port (tr_public_port k) s))
           else s))"

lemma config_of_record_fields [simp]:
  "tc_id (config_of_record i a k) = i" "tc_enabled (config_of_record i a k) = tr_enabled k"
  "tc_public_port (config_of_record i a k) = tr_public_port k"
  "tc_protocol (config_of_record i a k) = tr_protocol k" "tc_agent_id (config_of_record i a k) = a"
  by (simp_all add: config_of_record_def)

lemma ignore_start [simp]:
  "ignore_err (start_tunnel_listener k ch) s = (Ok (), snd (start_tunnel_listener k ch s))"
proof -
  obtain r t where st: "start_tunnel_listener k ch s = (r, t)"
    by (cases "start_tunnel_listener k ch s")
  with registry.no_panic [of k ch s] show ?thesis
    by (cases r) (simp_all add: ignore_err_Ok ignore_err_Err)
qed

lemma sync_loop_run:
  "sync_loop x a ch ts s = (Ok (sync_configs x a ts), fold (sync_one x a ch) ts s)"
proof (induction ts arbitrary: s)
  case Nil
  then show ?case by (simp add: sync_configs_def map_filter_def)
next
  case (Cons k ts)
  show ?case
  proof (cases "uuid_parse_str x (tr_id k)")
    case None
    then show ?thesis using Cons.IH by (simp add: sync_configs_def sync_one_def map_filter_def)
  next
    case (Some i)
    then show ?thesis using Cons.IH
      by (cases "tr_enabled k")
        (simp_all add: Let_def and_then_assoc and_then_def sync_one_def sync_configs_def map_filter_def)
  qed
qed

definition enabled_ports :: "ext \<Rightarrow> tunnel_record list \<Rightarrow> u16 set" where
  "enabled_ports x ts = {p. \<exists>k \<in> set ts. uuid_parse_str x (tr_id k) \<noteq> None \<and> tr_enabled k
     \<and> tr_public_port k = p}"

definition enabled_ids :: "ext \<Rightarrow> tunnel_record list \<Rightarrow> uuid set" where
  "enabled_ids x ts = {i. \<exists>k \<in> set ts. uuid_parse_str x (tr_id k) = Some i \<and> tr_enabled k}"

lemma sync_all_wf: "listeners_wf s \<Longrightarrow> listeners_wf (fold (sync_one x a ch) ts s)"
proof (induction ts arbitrary: s)
  case (Cons k ts)
  have "listeners_wf (sync_one x a ch k s)"
    using Cons.prems by (auto simp: sync_one_def listeners_wf_frame [of "reserve_port _ s" s]
        registry.wf_start split: option.split)
  then show ?case by (simp add: Cons.IH)
qed simp

lemma sync_all_ports:
  "allocated_ports (fold (sync_one x a ch) ts s) = allocated_ports s \<union> enabled_ports x ts"
proof (induction ts arbitrary: s)
  case (Cons k ts)
  have "allocated_ports (sync_one x a ch k s) = allocated_ports s \<union> enabled_ports x [k]"
    by (auto simp: sync_one_def start_allocated enabled_ports_def split: option.split)
  moreover have "enabled_ports x (k # ts) = enabled_ports x [k] \<union> enabled_ports x ts"
    by (auto simp: enabled_ports_def)
  ultimately show ?case using Cons.IH by auto
qed (simp add: enabled_ports_def)

text \<open>Every message of a synchronisation is one \<open>SyncTunnels\<close> after the loop.\<close>

definition agent_tunnels :: "ext \<Rightarrow> uuid \<Rightarrow> app_state \<Rightarrow> tunnel_record list" where
  "agent_tunnels x a s = (case fst (list_tunnels_for_agent (uuid_to_string x a) (db s)) of
      Ok ts \<Rightarrow> ts | _ \<Rightarrow> [])"

lemma list_tunnels_no_panic: "fst (list_tunnels_for_agent a c) \<noteq> Panic"
proof -
  have "collect tunnel_of_row rs \<noteq> Panic" for rs
    by (induction rs) (auto simp: tunnel_of_row_def get_u64_def split: result.splits sql_num.splits if_splits)
  then show ?thesis by (simp add: list_tunnels_for_agent_def query_sql_def split: option.split)
qed

definition listed :: "ext \<Rightarrow> uuid \<Rightarrow> app_state \<Rightarrow> app_state" where
  "listed x a s = s\<lparr>db := snd (list_tunnels_for_agent (uuid_to_string x a) (db s))\<rparr>"

lemma listed_reading: "read_only s (listed x a s)"
  unfolding listed_def by (rule read_run(2) [OF tunnel_query_steps(4,3) prod.collapse [symmetric]])

lemma list_tunnels_agent_run:
  "unwrap_or [] (on_db (list_tunnels_for_agent (uuid_to_string x a))) s
     = (Ok (agent_tunnels x a s), listed x a s)"
proof -
  let ?m = "list_tunnels_for_agent (uuid_to_string x a)"
  obtain r c where c: "?m (db s) = (r, c)" by (cases "?m (db s)")
  have m: "on_db ?m s = (r, s\<lparr>db := c\<rparr>)" using c by (simp add: on_db_def)
  have "r \<noteq> Panic" using list_tunnels_no_panic [of "uuid_to_string x a" "db s"] c by auto
  with m c show ?thesis
    by (cases r) (simp_all add: unwrap_or_Ok unwrap_or_Err agent_tunnels_def listed_def)
qed

definition synced :: "ext \<Rightarrow> uuid \<Rightarrow> nat \<Rightarrow> app_state \<Rightarrow> app_state" where
  "synced x a ch s = post ch (SyncTunnels (sync_configs x a (agent_tunnels x a s)))
     (fold (sync_one x a ch) (agent_tunnels x a s) (listed x a s))"

lemma sync_run [simp]: "sync_agent_tunnels x a ch s = (Ok (), synced x a ch s)"
  by (simp add: sync_agent_tunnels_def and_then_Ok [OF list_tunnels_agent_run] and_then_Ok
      sync_loop_run synced_def)

section \<open>The messages queued for an agent\<close>

definition outbox :: "app_state \<Rightarrow> nat \<Rightarrow> relay_message list option" where
  "outbox s ch = (case relay_chans s ch of
      None \<Rightarrow> None | Some c \<Rightarrow> (if r_open c then Some (rq c) else None))"

lemma outbox_post:
  "outbox (post ch m s) j = (if j = ch then map_option (\<lambda>q. q @ [m]) (outbox s ch) else outbox s j)"
  by (auto simp: outbox_def post_def send_relay_def split: option.split)

lemma outbox_frame: "relay_chans t = relay_chans s \<Longrightarrow> outbox t j = outbox s j"
  by (simp add: outbox_def)

lemma sync_one_frame: "sync_frame s (sync_one x a ch k s)"
proof -
  have "sync_frame (reserve_port p s) (snd (start_tunnel_listener c ch (reserve_port p s)))" for p c
    by (rule obeys_snd) (rule start_sync_frame)
  then have "sync_frame s (snd (start_tunnel_listener c ch (reserve_port p s)))" for p c
    using syncing.R_trans [OF reserve_sync_frame] by blast
  then show ?thesis using syncing.R_refl [of s] by (simp add: sync_one_def split: option.split)
qed

lemma sync_all_frame: "sync_frame s (fold (sync_one x a ch) ts s)"
  using fold_step [OF syncing.step_rel_axioms, of "sync_one x a ch"] sync_one_frame by blast

text \<open>The whole effect of a synchronisation on what a client of it can see.\<close>

lemma sync_effect:
  fixes x :: ext and a ch s
  defines "t \<equiv> synced x a ch s"
  shows "tabs (db t) = tabs (db s)" "same_world (db s) (db t)"
    "agent_senders t = agent_senders s" "user_sessions t = user_sessions s"
    "pending_claims t = pending_claims s"
    "allocated_ports t = allocated_ports s \<union> enabled_ports x (agent_tunnels x a s)"
    "outbox t j = (if j = ch
       then map_option (\<lambda>q. q @ [SyncTunnels (sync_configs x a (agent_tunnels x a s))]) (outbox s ch)
       else outbox s j)"
    "listeners_wf s \<Longrightarrow> listeners_wf t"
proof -
  let ?ts = "agent_tunnels x a s"
  let ?u = "listed x a s"
  let ?w = "fold (sync_one x a ch) ?ts ?u"
  note f = sync_all_frame [of ?u x a ch ?ts, unfolded sync_frame_def]
    and d = read_only_fields [OF listed_reading [of s x a]]
  have t: "t = post ch (SyncTunnels (sync_configs x a ?ts)) ?w" by (simp add: t_def synced_def)
  show "tabs (db t) = tabs (db s)" "same_world (db s) (db t)"
    using f d listed_reading [of s x a] by (simp_all add: t read_only_def)
  show "agent_senders t = agent_senders s" "user_sessions t = user_sessions s"
    "pending_claims t = pending_claims s"
    using f d by (simp_all add: t)
  show "allocated_ports t = allocated_ports s \<union> enabled_ports x ?ts"
    using d by (simp add: t sync_all_ports)
  have "outbox ?w k = outbox s k" for k using f d by (simp add: outbox_def)
  then show "outbox t j = (if j = ch
       then map_option (\<lambda>q. q @ [SyncTunnels (sync_configs x a ?ts)]) (outbox s ch) else outbox s j)"
    by (simp add: t outbox_post)
  show "listeners_wf s \<Longrightarrow> listeners_wf t"
    using d sync_all_wf [of ?u x a ch ?ts]
    by (simp add: t listeners_wf_frame [of ?u s] listeners_wf_frame [of "post _ _ ?w" ?w])
qed

section \<open>The online flag\<close>

lemma set_online_run:
  assumes "reliable c" "clock_ok c"
  obtains now d where "set_agent_online i b m c = (Ok (), d)" "same_world c d"
    "tabs d = (tabs c)\<lparr>agents := update_by ar_id i
      (\<lambda>a. a\<lparr>ar_is_online := b, ar_last_seen := now,
             ar_name := (case m of None \<Rightarrow> ar_name a | Some n \<Rightarrow> n)\<rparr>) (agents (tabs c))\<rparr>"
proof -
  have now: "\<not> clock (host_of c) n < 0" for n using assms(2) by (simp add: clock_ok_def not_less)
  have "\<exists>d. set_agent_online i b m c = (Ok (), d)"
    using assms(1) now by (auto simp: set_agent_online_def and_then_def now_secs_def Let_def
        exec_sql_def reliable_def split: option.split)
  then obtain d where d: "set_agent_online i b m c = (Ok (), d)" ..
  show thesis by (rule set_agent_online_Ok [OF d]) (rule that [OF d obeysD [OF agent_update_world(4) d]])
qed

section \<open>Authentication\<close>

lemma by_token_run:
  assumes "reliable (db s)"
  obtains t where "read_only s t"
    "on_db (get_agent_by_token k) s = (Ok (lookup_by ar_token k (agents (tabs (db s)))), t)"
proof -
  have c: "get_agent_by_token k (db s) = (Ok (lookup_by ar_token k (agents (tabs (db s)))), next_stmt (db s))"
    using assms by (simp add: get_agent_by_token_def)
  note m = read_run [OF agent_query_steps(2,1) c]
  from that [OF m(2,1)] show thesis .
qed

text \<open>A token that no agent has: an error message and nothing else.\<close>

lemma auth_unknown:
  assumes "reliable (db s)" and "k \<notin> ar_token ` set (agents (tabs (db s)))"
  obtains t where "read_only s t"
    "on_auth x sess k hostname s = (Ok sess, post (s_chan sess) (ErrorMsg ''Invalid or expired token'') t)"
proof -
  have n: "lookup_by ar_token k (agents (tabs (db s))) = None" using assms(2) by (simp add: lookup_by_None)
  show thesis
  proof (rule by_token_run [OF assms(1), of k])
    fix t
    assume "read_only s t"
      "on_db (get_agent_by_token k) s = (Ok (lookup_by ar_token k (agents (tabs (db s)))), t)"
    with that n show thesis by (simp add: on_auth_def and_then_Ok attempt_Ok)
  qed
qed

text \<open>A token of an agent that still has a claim code: the session waits for the claim.\<close>

lemma auth_pending:
  assumes "reliable (db s)" and "lookup_by ar_token k (agents (tabs (db s))) = Some ag"
    and "ar_claim_code ag = Some code"
  obtains t where "read_only s t"
    "on_auth x sess k hostname s =
       (Ok (sess\<lparr>current_claim_code := Some code\<rparr>),
        post (s_chan sess) (ClaimReady code (claim_url code) (Some k)) (set_pending code (s_chan sess) t))"
proof -
  show thesis
  proof (rule by_token_run [OF assms(1), of k])
    fix t
    assume "read_only s t"
      "on_db (get_agent_by_token k) s = (Ok (lookup_by ar_token k (agents (tabs (db s)))), t)"
    with that assms(2,3) show thesis by (simp add: on_auth_def and_then_Ok attempt_Ok)
  qed
qed

lemma agent_tunnels_cong:
  "reliable (db t) \<Longrightarrow> reliable (db s) \<Longrightarrow> tunnels (tabs (db t)) = tunnels (tabs (db s)) \<Longrightarrow>
    agent_tunnels x a t = agent_tunnels x a s"
  by (simp add: agent_tunnels_def list_tunnels_for_agent_def)

lemma on_db_online:
  assumes "reliable (db s)" "clock_ok (db s)"
  obtains now t where
    "on_db (set_agent_online i b m) s = (Ok (), t)" "t = s\<lparr>db := db t\<rparr>" "same_world (db s) (db t)"
    "tabs (db t) = (tabs (db s))\<lparr>agents := update_by ar_id i
      (\<lambda>a. a\<lparr>ar_is_online := b, ar_last_seen := now,
             ar_name := (case m of None \<Rightarrow> ar_name a | Some n \<Rightarrow> n)\<rparr>) (agents (tabs (db s)))\<rparr>"
proof (rule set_online_run [OF assms, of i b m])
  fix now d
  assume d: "set_agent_online i b m (db s) = (Ok (), d)" "same_world (db s) d"
    "tabs d = (tabs (db s))\<lparr>agents := update_by ar_id i
      (\<lambda>a. a\<lparr>ar_is_online := b, ar_last_seen := now,
             ar_name := (case m of None \<Rightarrow> ar_name a | Some n \<Rightarrow> n)\<rparr>) (agents (tabs (db s)))\<rparr>"
  show thesis
    by (rule that [of "s\<lparr>db := d\<rparr>" now]) (use d in \<open>simp_all add: on_db_run\<close>)
qed

lemma register_sender_fields [simp]:
  "agent_senders (register_sender a ch s) = (agent_senders s)(a \<mapsto> ch)"
  "relay_chans (register_sender a ch s) = relay_chans s"
  "allocated_ports (register_sender a ch s) = allocated_ports s"
  "user_sessions (register_sender a ch s) = user_sessions s"
  "pending_claims (register_sender a ch s) = pending_claims s"
  by (simp_all add: register_sender_def)

text \<open>
  What the authentication and the web claim do once the agent is known: register the session's
  channel, send \<open>AuthSuccess\<close>, and synchronise.
\<close>

definition connect_agent ::
  "ext \<Rightarrow> uuid \<Rightarrow> string \<Rightarrow> string \<Rightarrow> nat \<Rightarrow> app_state \<Rightarrow> app_state" where
  "connect_agent x a name token ch s =
     synced x a ch (post ch (AuthSuccess a name token) (register_sender a ch s))"

lemma connect_effect:
  fixes x :: ext and a name token ch s
  defines "t \<equiv> connect_agent x a name token ch s"
  shows "tabs (db t) = tabs (db s)" "same_world (db s) (db t)"
    "agent_senders t = (agent_senders s)(a \<mapsto> ch)"
    "user_sessions t = user_sessions s" "pending_claims t = pending_claims s"
    "allocated_ports t = allocated_ports s \<union> enabled_ports x (agent_tunnels x a s)"
    "outbox t ch = map_option (\<lambda>q. q @ [AuthSuccess a name token,
       SyncTunnels (sync_configs x a (agent_tunnels x a s))]) (outbox s ch)"
    "j \<noteq> ch \<Longrightarrow> outbox t j = outbox s j" "listeners_wf s \<Longrightarrow> listeners_wf t"
proof -
  let ?u = "post ch (AuthSuccess a name token) (register_sender a ch s)"
  note e = sync_effect [where x = x and a = a and ch = ch and s = ?u, folded connect_agent_def, folded t_def]
  have u: "db ?u = db s" "user_sessions ?u = user_sessions s" "pending_claims ?u = pending_claims s"
    "allocated_ports ?u = allocated_ports s" "agent_senders ?u = (agent_senders s)(a \<mapsto> ch)" by simp_all
  have ts: "agent_tunnels x a ?u = agent_tunnels x a s" by (simp add: agent_tunnels_def)
  have o: "outbox (register_sender a ch s) k = outbox s k" for k by (simp add: outbox_def)
  show "tabs (db t) = tabs (db s)" "same_world (db s) (db t)" "agent_senders t = (agent_senders s)(a \<mapsto> ch)"
    "user_sessions t = user_sessions s" "pending_claims t = pending_claims s"
    "allocated_ports t = allocated_ports s \<union> enabled_ports x (agent_tunnels x a s)"
    using e u ts by simp_all
  show "outbox t ch = map_option (\<lambda>q. q @ [AuthSuccess a name token,
       SyncTunnels (sync_configs x a (agent_tunnels x a s))]) (outbox s ch)"
    using e(7) [where j = ch] ts by (simp add: outbox_post o option.map_comp comp_def)
  show "j \<noteq> ch \<Longrightarrow> outbox t j = outbox s j" using e(7) [where j = j] by (simp add: outbox_post o)
  show "listeners_wf s \<Longrightarrow> listeners_wf t"
    using e(8) by (simp add: listeners_wf_frame [of ?u s])
qed

text \<open>A token of a claimed agent: the session becomes that agent's.\<close>

lemma auth_success:
  assumes rel: "reliable (db s)" "clock_ok (db s)"
    and ag: "lookup_by ar_token k (agents (tabs (db s))) = Some ag" "ar_claim_code ag = None"
    and id: "uuid_parse_str x (ar_id ag) = Some a"
  obtains now u where
    "on_auth x sess k hostname s =
       (Ok (sess\<lparr>authenticated_agent_id := Some a\<rparr>), connect_agent x a (ar_name ag) k (s_chan sess) u)"
    "u = s\<lparr>db := db u\<rparr>" "same_world (db s) (db u)"
    "tabs (db u) = (tabs (db s))\<lparr>agents := update_by ar_id (ar_id ag)
       (\<lambda>a. a\<lparr>ar_is_online := True, ar_last_seen := now, ar_name := hostname\<rparr>) (agents (tabs (db s)))\<rparr>"
proof -
  have tok: "ar_token ag = k" using lookup_by_Some [OF ag(1)] by simp
  obtain v where v: "read_only s v"
    "on_db (get_agent_by_token k) s = (Ok (lookup_by ar_token k (agents (tabs (db s)))), v)"
    by (rule by_token_run [OF rel(1)])
  note f = read_only_fields [OF v(1)]
  have relv: "reliable (db v)" "clock_ok (db v)" using rel f by simp_all
  show thesis
  proof (rule on_db_online [OF relv, of "ar_id ag" True "Some hostname"])
    fix now u
    assume u: "on_db (set_agent_online (ar_id ag) True (Some hostname)) v = (Ok (), u)"
      "u = v\<lparr>db := db u\<rparr>" "same_world (db v) (db u)"
      "tabs (db u) = (tabs (db v))\<lparr>agents := update_by ar_id (ar_id ag)
      (\<lambda>a. a\<lparr>ar_is_online := True, ar_last_seen := now,
             ar_name := (case Some hostname of None \<Rightarrow> ar_name a | Some n \<Rightarrow> n)\<rparr>) (agents (tabs (db v)))\<rparr>"
    have su: "same_world (db s) (db u)"
      using world.R_trans [OF _ u(3)] v(1) by (simp add: read_only_def)
    have "u = s\<lparr>db := db u\<rparr>" using u(2) v(1) unfolding read_only_def
      by (metis app_state.surjective app_state.update_convs(1))
    with that [of u now] u(1,4) su v(2) ag id tok f(1) show thesis
      by (simp add: on_auth_def and_then_Ok attempt_Ok ignore_err_Ok connect_agent_def)
  qed
qed

section \<open>Claim requests\<close>

lemma request_claim_run:
  "create_agent_claim x n (db s) = (Ok (r, code), c) \<Longrightarrow>
    on_request_claim x sess n s =
      (Ok (sess\<lparr>current_claim_code := Some code\<rparr>),
       post (s_chan sess) (ClaimReady code (claim_url code) (Some (ar_token r)))
         (set_pending code (s_chan sess) (s\<lparr>db := c\<rparr>)))"
  "create_agent_claim x n (db s) = (Err e, c) \<Longrightarrow>
    on_request_claim x sess n s =
      (Ok sess, post (s_chan sess) (ErrorMsg ''Failed to generate claim code'') (s\<lparr>db := c\<rparr>))"
  by (simp_all add: on_request_claim_def and_then_def attempt_def on_db_def)

section \<open>The clean-up after a disconnect\<close>

lemma cleanup_run:
  assumes rel: "reliable (db s)" "clock_ok (db s)" and wf: "listeners_wf s"
  obtains now t where "cleanup_agent x a s = (Ok (), t)"
    "agent_senders t = (agent_senders s)(a := None)"
    "tabs (db t) = (tabs (db s))\<lparr>agents := update_by ar_id (uuid_to_string x a)
       (\<lambda>r. r\<lparr>ar_is_online := False, ar_last_seen := now\<rparr>) (agents (tabs (db s)))\<rparr>"
    "\<And>j. running t j \<longleftrightarrow> running s j \<and> j \<notin> parsed_ids x (agent_tunnels x a s)"
    "allocated_ports t = allocated_ports s - parsed_ports x (agent_tunnels x a s)"
    "pending_claims t = pending_claims s" "user_sessions t = user_sessions s" "listeners_wf t"
    "relay_chans t = relay_chans s"
proof -
  let ?s = "s\<lparr>agent_senders := (agent_senders s)(a := None)\<rparr>"
  have rel': "reliable (db ?s)" "clock_ok (db ?s)" using rel by simp_all
  show thesis
  proof (rule on_db_online [OF rel', of "uuid_to_string x a" False None])
    fix now u
    assume u: "on_db (set_agent_online (uuid_to_string x a) False None) ?s = (Ok (), u)"
      "u = ?s\<lparr>db := db u\<rparr>" "same_world (db ?s) (db u)"
      "tabs (db u) = (tabs (db ?s))\<lparr>agents := update_by ar_id (uuid_to_string x a)
      (\<lambda>r. r\<lparr>ar_is_online := False, ar_last_seen := now,
             ar_name := (case None of None \<Rightarrow> ar_name r | Some n \<Rightarrow> n)\<rparr>) (agents (tabs (db ?s)))\<rparr>"
    have relu: "reliable (db u)" using u(3) rel by (simp add: same_world_reliable)
    have ts: "agent_tunnels x a u = agent_tunnels x a s"
      by (rule agent_tunnels_cong [OF relu rel(1)]) (simp add: u(4))
    let ?l = "listed x a u"
    let ?t = "fold (stop_and_free x) (agent_tunnels x a u) ?l"
    note l = read_only_fields [OF listed_reading [of u x a]]
    have eq: "agent_senders u = (agent_senders s)(a := None)" "listeners u = listeners s"
      "tunnel_tasks u = tunnel_tasks s" "next_listener u = next_listener s"
      "allocated_ports u = allocated_ports s" "pending_claims u = pending_claims s"
      "user_sessions u = user_sessions s" "relay_chans u = relay_chans s"
      by (subst u(2), simp)+
    have wfl: "listeners_wf ?l" using wf by (simp add: listeners_wf_frame [of ?l s] l eq)
    note all = stop_and_free_all [OF wfl, of x "agent_tunnels x a u"]
    have run: "cleanup_agent x a s = (Ok (), ?t)"
      by (simp add: cleanup_agent_def and_then_Ok ignore_err_Ok u(1) list_tunnels_agent_run)
    have tabs: "tabs (db ?t) = (tabs (db s))\<lparr>agents := update_by ar_id (uuid_to_string x a)
       (\<lambda>r. r\<lparr>ar_is_online := False, ar_last_seen := now\<rparr>) (agents (tabs (db s)))\<rparr>"
      using u(4) by (simp add: l)
    have up: "running ?t j \<longleftrightarrow> running s j \<and> j \<notin> parsed_ids x (agent_tunnels x a s)" for j
      using all [of j] ts running_frame [of ?l s j] by (simp add: l eq)
    show thesis
      by (rule that [OF run _ tabs up]) (use all ts in \<open>simp_all add: l eq\<close>)
  qed
qed

lemma db_update_registry [simp]:
  "listeners_wf (s\<lparr>db := c\<rparr>) = listeners_wf s" "running (s\<lparr>db := c\<rparr>) i = running s i"
  by (simp_all add: listeners_wf_def running_def)

end
