(* ===== verification/Admin_Facts.thy ===== *)
theory Admin_Facts
  imports Session_Facts
begin

text \<open>
  What the HTTP handlers of \<open>src/admin.rs\<close> do, on every branch that matters: sessions,
  registration and login, banning, claiming, and the life of a tunnel.
\<close>

section \<open>Sessions\<close>

definition bearer :: "ext \<Rightarrow> headers \<Rightarrow> string \<Rightarrow> bool" where
  "bearer x h token \<longleftrightarrow> (\<exists>v. h ''authorization'' = Some v \<and> header_to_str x v = Some (''Bearer '' @ token))"

lemma bearer_session:
  "bearer x h token \<Longrightarrow> get_current_user_id x h s = user_sessions s (str_trim token)"
  unfolding bearer_def get_current_user_id_def
  by (elim exE conjE) (simp add: extract_token_bearer)

lemma register_Ok:
  assumes run: "register x b s = (Ok (st, page), t)"
  obtains u r c where "st = 201" "page = JAuth (session_token x ''usr_'' u) r"
    "register_user x (str_trim (rq_username b)) (rq_password b) (port_range s) (db s) = (Ok r, c)"
    "tabs (db t) = tabs c" "same_world c (db t)"
    "user_sessions t = (user_sessions s)(session_token x ''usr_'' u \<mapsto> ur_id r)"
    "3 \<le> length (str_trim (rq_username b))" "6 \<le> length (rq_password b)"
proof -
  from run obtain r c s1 u s2 where
    reg: "on_db (register_user x (str_trim (rq_username b)) (rq_password b) (port_range s)) s = (Ok r, s1)"
    and len: "3 \<le> length (str_trim (rq_username b))" "6 \<le> length (rq_password b)"
    and draw: "(on_db new_v4 s1 :: (uuid, nat \<times> string) result \<times> app_state) = (Ok u, s2)"
    and res: "st = 201" "page = JAuth (session_token x ''usr_'' u) r"
      "t = add_user_session (session_token x ''usr_'' u) (ur_id r) s2"
    by (auto simp: register_def Let_def prog_inv simp del: and_then_draw split: if_splits)
  from reg obtain c where c: "register_user x (str_trim (rq_username b)) (rq_password b) (port_range s) (db s)
      = (Ok r, c)" and s1: "s1 = s\<lparr>db := c\<rparr>" by (auto simp: on_db_eq)
  have ro: "read_only s1 s2" using obeysD [OF on_db_reading draw] steps by blast
  show thesis
    by (rule that [OF res(1,2) c _ _ _ len])
      (use ro s1 read_only_fields [OF ro] res(3) in \<open>simp_all add: add_user_session_def read_only_def\<close>)
qed

lemma register_refused:
  "length (str_trim (rq_username b)) < 3 \<Longrightarrow>
    register x b s = (Err (400, ''Username must be at least 3 characters''), s)"
  "3 \<le> length (str_trim (rq_username b)) \<Longrightarrow> length (rq_password b) < 6 \<Longrightarrow>
    register x b s = (Err (400, ''Password must be at least 6 characters''), s)"
  by (simp_all add: register_def Let_def)

lemma register_Err:
  assumes run: "register x b s = (Err (st, m), t)"
  shows "(st = 400 \<or> st = 409) \<and> tabs (db t) = tabs (db s) \<and> t = s\<lparr>db := db t\<rparr>"
proof -
  let ?reg = "register_user x (str_trim (rq_username b)) (rq_password b) (port_range s)"
  obtain r c where c: "?reg (db s) = (r, c)" by (cases "?reg (db s)")
  show ?thesis
  proof (cases "3 \<le> length (str_trim (rq_username b)) \<and> 6 \<le> length (rq_password b)")
    case True
    have d: "on_db ?reg s = (r, s\<lparr>db := c\<rparr>)" using c by (simp add: on_db_run)
    show ?thesis
    proof (cases r)
      case (Ok u)
      with run True d show ?thesis
        by (auto simp: register_def Let_def and_then_Ok map_err_Ok and_then_def on_db_def new_v4_def)
    next
      case (Err e)
      with register_user_failed [OF c] have "tabs c = tabs (db s)" by simp
      with Err run True d show ?thesis
        by (auto simp: register_def Let_def and_then_Err map_err_Err)
    next
      case Panic
      with run True d show ?thesis
        by (auto simp: register_def Let_def and_then_def map_err_def)
    qed
  qed (use run in \<open>auto simp: register_def Let_def split: if_splits\<close>)
qed

text \<open>A login answers what the stored users say, and opens a session only for a user who is
  not banned.\<close>

lemma login_run:
  assumes "fst (verify_user (str_trim (rq_username b)) (rq_password b) (db s)) = Ok v"
  obtains t u where "read_only s t" and
    "login x b s =
      (case v of
         None \<Rightarrow> (Err (401, ''Invalid username or password''), t)
       | Some user \<Rightarrow>
           (if ur_is_banned user then (Err (403, ''This account is suspended''), t)
            else (Ok (200, JAuth (session_token x ''usr_'' u) user),
                  add_user_session (session_token x ''usr_'' u) (ur_id user) t)))"
proof -
  let ?m = "verify_user (str_trim (rq_username b)) (rq_password b)"
  obtain c where c: "?m (db s) = (Ok v, c)" using assms by (cases "?m (db s)") simp
  let ?s = "s\<lparr>db := c\<rparr>"
  note m = read_run [OF user_query_steps(2,1) c]
  show thesis
  proof (cases "\<exists>user. v = Some user \<and> \<not> ur_is_banned user")
    case True
    then obtain user where "v = Some user" "\<not> ur_is_banned user" by blast
    with m(1) that [OF reading.R_trans [OF m(2) draw_reading], of "fst (draw_uuid ?s)"]
    show thesis by (simp add: login_def and_then_Ok map_err_Ok Let_def)
  next
    case False
    with m(1) that [OF m(2)] show thesis
      by (auto simp: login_def and_then_Ok map_err_Ok split: option.split option.splits)
  qed
qed

lemma get_me_run:
  assumes "get_current_user_id x h s = Some i" and "reliable (db s)"
  obtains t where "read_only s t" and
    "get_me x h s =
      (case lookup_by ur_id i (users (tabs (db s))) of
         None \<Rightarrow> (Err (404, ''User not found''), t)
       | Some r \<Rightarrow> (Ok (200, JUser (user_of_row r)), t))"
proof -
  have c: "get_user_by_id i (db s) =
      (Ok (map_option user_of_row (lookup_by ur_id i (users (tabs (db s))))), next_stmt (db s))"
    using assms(2) by (simp add: get_user_by_id_def)
  note m = read_run [OF user_query_steps(4,3) c]
  have "get_me x h s =
      (case lookup_by ur_id i (users (tabs (db s))) of
         None \<Rightarrow> (Err (404, ''User not found''), s\<lparr>db := next_stmt (db s)\<rparr>)
       | Some r \<Rightarrow> (Ok (200, JUser (user_of_row r)), s\<lparr>db := next_stmt (db s)\<rparr>))"
    using m(1) assms(1) by (simp add: get_me_def and_then_Ok map_err_Ok split: option.split)
  with m(2) that show thesis by blast
qed

text \<open>Registering, logging in with the same password and asking who one is: the same user.\<close>

lemma verify_user_tabs:
  "reliable c \<Longrightarrow> reliable d \<Longrightarrow> tabs c = tabs d \<Longrightarrow> fst (verify_user n p c) = fst (verify_user n p d)"
  by (simp add: verify_user_def Let_def)

lemma lookup_append_last:
  "k \<notin> key ` set rows \<Longrightarrow> key r = k \<Longrightarrow> lookup_by key k (rows @ [r]) = Some r"
  by (simp add: lookup_by_append_new)

lemma register_stored:
  assumes rel: "reliable (db s)" and run: "register x b s = (Ok (st, page), t)"
  obtains tok r where "st = 201" "page = JAuth tok r" "reliable (db t)"
    "ur_username r = str_trim (rq_username b)" "\<not> ur_is_banned r"
    "ur_id r \<notin> ur_id ` set (users (tabs (db s)))"
    "user_sessions t = (user_sessions s)(tok \<mapsto> ur_id r)"
    "tabs (db t) = (tabs (db s))\<lparr>users := users (tabs (db s)) @
       [\<lparr>ur_id = ur_id r, ur_username = ur_username r, ur_dedicated_port = ur_dedicated_port r,
         ur_is_banned = False, ur_created_at = ur_created_at r,
         ur_password_hash = hash_password (rq_password b)\<rparr>]\<rparr>"
    "\<And>n pw. n = ur_username r \<Longrightarrow> fst (verify_user n pw (db t))
       = Ok (if hash_password pw = hash_password (rq_password b) then Some r else None)"
proof -
  from register_Ok [OF run] obtain u r c where page: "page = JAuth (session_token x ''usr_'' u) r" "st = 201"
    and reg: "register_user x (str_trim (rq_username b)) (rq_password b) (port_range s) (db s) = (Ok r, c)"
    and t: "tabs (db t) = tabs c" "same_world c (db t)"
    and ses: "user_sessions t = (user_sessions s)(session_token x ''usr_'' u \<mapsto> ur_id r)" .
  have c: "reliable c" using obeysD [OF register_user_world reg] rel by (simp add: same_world_reliable)
  then have rt: "reliable (db t)" using t(2) by (simp add: same_world_reliable)
  from register_user_Ok [OF reg] have ban: "\<not> ur_is_banned r"
    and un: "ur_username r = str_trim (rq_username b)"
    and new: "ur_id r \<notin> ur_id ` set (users (tabs (db s)))"
    and rows: "tabs c = (tabs (db s))\<lparr>users := users (tabs (db s)) @
       [\<lparr>ur_id = ur_id r, ur_username = str_trim (rq_username b),
         ur_dedicated_port = ur_dedicated_port r, ur_is_banned = False,
         ur_created_at = ur_created_at r, ur_password_hash = hash_password (rq_password b)\<rparr>]\<rparr>"
    by blast+
  have "fst (verify_user n pw (db t))
       = Ok (if hash_password pw = hash_password (rq_password b) then Some r else None)"
    if "n = ur_username r" for n pw
    using register_then_verify [OF reg c, of pw] verify_user_tabs [OF c rt] t(1) that un by simp
  from that [OF page(2,1) rt un ban new ses _ this] show thesis using rows t(1) un by simp
qed

lemma user_row_record:
  assumes "\<not> ur_is_banned r"
  shows "user_of_row \<lparr>ur_id = ur_id r, ur_username = ur_username r,
    ur_dedicated_port = ur_dedicated_port r, ur_is_banned = False, ur_created_at = ur_created_at r,
    ur_password_hash = h\<rparr> = r"
  using assms by (cases r) (simp add: user_of_row_def)

lemma logout_run:
  "logout x h s = (Ok (200, Empty), (case extract_token x h of
      None \<Rightarrow> s | Some token \<Rightarrow> s\<lparr>user_sessions := (user_sessions s)(token := None)\<rparr>))"
  by (simp add: logout_def and_then_def split: option.split)

lemma logout_ends: "get_current_user_id x h (snd (logout x h s)) = None"
  by (simp add: logout_run get_current_user_id_def split: option.split)

text \<open>The administrator's login.\<close>

lemma admin_login_run:
  "admin_login x pw s =
     (if pw = ADMIN_PASSWORD
      then (let (u, t) = draw_uuid s; token = session_token x ''adm_'' u
            in (Ok (200, JToken token), t\<lparr>admin_sessions := insert token (admin_sessions t)\<rparr>))
      else (Err (401, ''Invalid master admin password''), s))"
  by (simp add: admin_login_def Let_def split_def)

section \<open>Banning\<close>

definition user_tunnels :: "string \<Rightarrow> app_state \<Rightarrow> tunnel_record list" where
  "user_tunnels i s = (case fst (list_tunnels_for_user i (db s)) of Ok ts \<Rightarrow> ts | _ \<Rightarrow> [])"

lemma collect_no_panic: "collect tunnel_of_row rs \<noteq> Panic"
  by (induction rs) (auto simp: tunnel_of_row_def get_u64_def split: result.splits sql_num.splits if_splits)

lemma user_tunnels_run:
  "unwrap_or [] (on_db (list_tunnels_for_user i)) s
     = (Ok (user_tunnels i s), s\<lparr>db := snd (list_tunnels_for_user i (db s))\<rparr>)"
proof -
  let ?m = "list_tunnels_for_user i"
  obtain r c where c: "?m (db s) = (r, c)" by (cases "?m (db s)")
  have m: "on_db ?m s = (r, s\<lparr>db := c\<rparr>)" using c by (simp add: on_db_def)
  have "r \<noteq> Panic"
    using c collect_no_panic by (auto simp: list_tunnels_for_user_def query_sql_def split: option.splits)
  with m c show ?thesis
    by (cases r) (simp_all add: unwrap_or_Ok unwrap_or_Err user_tunnels_def)
qed

text \<open>
  A ban stops the user's listeners and frees their ports; the user's sessions stay as they are.
\<close>

lemma ban_run:
  assumes adm: "is_admin x h s" and rel: "reliable (db s)" and wf: "listeners_wf s"
  obtains t where "admin_ban_user x i h s = (Ok (200, Empty), t)"
    "tabs (db t) = (tabs (db s))\<lparr>users := update_by ur_id i (\<lambda>r. r\<lparr>ur_is_banned := True\<rparr>) (users (tabs (db s)))\<rparr>"
    "\<And>j. running t j \<longleftrightarrow> running s j \<and> j \<notin> parsed_ids x (user_tunnels i s)"
    "allocated_ports t = allocated_ports s - parsed_ports x (user_tunnels i s)"
    "user_sessions t = user_sessions s" "listeners_wf t" "same_world (db s) (db t)"
proof -
  let ?c = "(next_stmt (db s))\<lparr>tabs := (tabs (db s))\<lparr>users := update_by ur_id i
    (\<lambda>r. r\<lparr>ur_is_banned := True\<rparr>) (users (tabs (db s)))\<rparr>\<rparr>"
  let ?u = "s\<lparr>db := ?c\<rparr>"
  have b: "on_db (toggle_user_ban i True) s = (Ok (), ?u)"
    using rel by (simp add: on_db_def toggle_user_ban_def reliable_exec)
  let ?l = "?u\<lparr>db := snd (list_tunnels_for_user i ?c)\<rparr>"
  have "user_tunnels i ?u = user_tunnels i s"
    using rel by (simp add: user_tunnels_def list_tunnels_for_user_def)
  then have run: "admin_ban_user x i h s = (Ok (200, Empty), fold (stop_and_free x) (user_tunnels i s) ?l)"
    using adm by (simp add: admin_ban_user_def require_admin_run and_then_Ok ignore_err_Ok b user_tunnels_run)
  have lt: "obeys same_tables (list_tunnels_for_user i)" "obeys same_world (list_tunnels_for_user i)"
    by (rule steps)+
  have tabs: "tabs (snd (list_tunnels_for_user i ?c)) = tabs ?c"
    using obeys_snd [OF lt(1), of ?c] by (simp add: same_tables_def)
  have "same_world (db s) ?c" by (simp add: same_world_def next_stmt_def)
  then have w: "same_world (db s) (snd (list_tunnels_for_user i ?c))"
    using obeys_snd [OF lt(2), of ?c] by (rule world.R_trans)
  have wfl: "listeners_wf ?l" using wf by simp
  note all = stop_and_free_all [OF wfl, of x "user_tunnels i s"]
  have up: "running (fold (stop_and_free x) (user_tunnels i s) ?l) j
      \<longleftrightarrow> running s j \<and> j \<notin> parsed_ids x (user_tunnels i s)" for j
    using all [of j] by simp
  show thesis by (rule that [OF run _ up]) (use all tabs w in simp_all)
qed

section \<open>Claiming\<close>

text \<open>Nobody is logged in, or no agent has the code: nothing changes.\<close>

lemma claim_refused:
  "get_current_user_id x h s = None \<Longrightarrow>
    claim_agent x code h s = (Err (401, ''Registration or login is required to link devices''), s)"
  by (simp add: claim_agent_def)

lemma claim_unknown:
  assumes "get_current_user_id x h s = Some u" "reliable (db s)"
    and "\<And>a. a \<in> set (agents (tabs (db s))) \<Longrightarrow> ar_claim_code a \<noteq> Some code"
  shows "claim_agent x code h s =
    (Err (404, ''Invalid or expired claim code''), s\<lparr>db := next_stmt (db s)\<rparr>)"
proof -
  have "find (\<lambda>a. ar_claim_code a = Some code) (agents (tabs (db s))) = None"
    using assms(3) by (auto simp: find_None_iff)
  then have "on_db (claim_agent_to_user code u) s = (Ok None, s\<lparr>db := next_stmt (db s)\<rparr>)"
    using assms(2) by (simp add: on_db_def claim_agent_to_user_def and_then_def)
  with assms(1) show ?thesis by (simp add: claim_agent_def and_then_Ok map_err_Ok)
qed

text \<open>
  A claim with a waiting session: the agent gets its user, loses its code, goes online, and the
  waiting session becomes the agent's.
\<close>

lemma claim_waiting:
  assumes usr: "get_current_user_id x h s = Some u" "u \<in> ur_id ` set (users (tabs (db s)))"
    and rel: "reliable (db s)" "clock_ok (db s)"
    and ag: "find (\<lambda>a. ar_claim_code a = Some code) (agents (tabs (db s))) = Some ag"
    and id: "uuid_parse_str x (ar_id ag) = Some a"
    and wait: "pending_claims s code = Some ch"
  obtains now v where
    "claim_agent x code h s =
       (Ok (200, Text ''Agent claimed successfully''), connect_agent x a (ar_name ag) (ar_token ag) ch v)"
    "v = s\<lparr>pending_claims := (pending_claims s)(code := None), db := db v\<rparr>" "same_world (db s) (db v)"
    "tabs (db v) = (tabs (db s))\<lparr>agents := update_by ar_id (ar_id ag)
       (\<lambda>r. r\<lparr>ar_claim_code := None, ar_user_id := Some u, ar_is_online := True, ar_last_seen := now\<rparr>)
       (agents (tabs (db s)))\<rparr>"
proof -
  let ?f = "\<lambda>r. r\<lparr>ar_claim_code := None, ar_user_id := Some u\<rparr>"
  let ?d = "(next_stmt (next_stmt (db s)))\<lparr>tabs := (tabs (db s))\<lparr>agents :=
      update_by ar_id (ar_id ag) ?f (agents (tabs (db s)))\<rparr>\<rparr>"
  let ?w = "s\<lparr>db := ?d, pending_claims := (pending_claims s)(code := None)\<rparr>"
  have c: "on_db (claim_agent_to_user code u) s = (Ok (Some (ag\<lparr>ar_user_id := Some u\<rparr>)), s\<lparr>db := ?d\<rparr>)"
    using ag usr(2) rel(1)
    by (simp add: on_db_def claim_agent_to_user_def and_then_def set_claimed_def exec_sql_def reliable_def
        next_stmt_def query_sql_def Let_def)
  have relw: "reliable (db ?w)" "clock_ok (db ?w)"
    using rel by (simp_all add: reliable_def clock_ok_def next_stmt_def)
  show thesis
  proof (rule on_db_online [OF relw, of "ar_id ag" True None])
    fix now v
    assume v: "on_db (set_agent_online (ar_id ag) True None) ?w = (Ok (), v)"
      "v = ?w\<lparr>db := db v\<rparr>" "same_world (db ?w) (db v)"
      "tabs (db v) = (tabs (db ?w))\<lparr>agents := update_by ar_id (ar_id ag)
      (\<lambda>r. r\<lparr>ar_is_online := True, ar_last_seen := now,
             ar_name := (case None of None \<Rightarrow> ar_name r | Some n \<Rightarrow> n)\<rparr>) (agents (tabs (db ?w)))\<rparr>"
    have run: "claim_agent x code h s =
       (Ok (200, Text ''Agent claimed successfully''), connect_agent x a (ar_name ag) (ar_token ag) ch v)"
      using usr(1) c id wait v(1)
      by (simp add: claim_agent_def and_then_Ok map_err_Ok ignore_err_Ok connect_agent_def)
    have w: "same_world (db s) (db v)"
      using v(3) by (simp add: same_world_def next_stmt_def)
    have t: "tabs (db v) = (tabs (db s))\<lparr>agents := update_by ar_id (ar_id ag)
       (\<lambda>r. r\<lparr>ar_claim_code := None, ar_user_id := Some u, ar_is_online := True, ar_last_seen := now\<rparr>)
       (agents (tabs (db s)))\<rparr>"
      using v(4) by (auto simp: update_by_def)
    have m: "v = s\<lparr>pending_claims := (pending_claims s)(code := None), db := db v\<rparr>"
      by (subst v(2)) simp
    show thesis by (rule that [OF run m w t])
  qed
qed

section \<open>Creating a tunnel\<close>

text \<open>The answer the handlers work with: an I/O failure counts as "free".\<close>

definition seen_taken :: "string \<Rightarrow> string option \<Rightarrow> app_state \<Rightarrow> bool" where
  "seen_taken sd e s = (case fst (is_subdomain_taken sd e (db s)) of Ok b \<Rightarrow> b | _ \<Rightarrow> False)"

definition checked :: "string \<Rightarrow> string option \<Rightarrow> app_state \<Rightarrow> app_state" where
  "checked sd e s = s\<lparr>db := snd (is_subdomain_taken sd e (db s))\<rparr>"

lemma checked_reading: "read_only s (checked sd e s)"
  unfolding checked_def
  by (rule read_run(2) [OF is_subdomain_taken_tables is_subdomain_taken_world prod.collapse [symmetric]])

lemma taken_run:
  "unwrap_or False (on_db (is_subdomain_taken sd e)) s = (Ok (seen_taken sd e s), checked sd e s)"
proof -
  let ?m = "is_subdomain_taken sd e"
  obtain r c where c: "?m (db s) = (r, c)" by (cases "?m (db s)")
  have m: "on_db ?m s = (r, s\<lparr>db := c\<rparr>)" using c by (simp add: on_db_def)
  have "r \<noteq> Panic"
    using c by (auto simp: is_subdomain_taken_def and_then_def query_sql_def split: option.splits)
  with m c show ?thesis
    by (cases r) (simp_all add: unwrap_or_Ok unwrap_or_Err seen_taken_def checked_def)
qed

lemma seen_taken_iff:
  assumes "reliable (db s)"
  shows "seen_taken sd e s \<longleftrightarrow>
    (\<exists>k \<in> set (tunnels (tabs (db s))). same_subdomain sd k \<and> e \<noteq> Some (t_id k))"
proof -
  obtain b c where c: "is_subdomain_taken sd e (db s) = (Ok b, c)"
    using assms by (cases e) (simp_all add: is_subdomain_taken_def and_then_def)
  with is_subdomain_taken_Ok [OF c] show ?thesis by (simp add: seen_taken_def)
qed

lemma subdomain_check:
  assumes "check_new_subdomain sd s = (r, t)"
  shows "read_only s t \<and>
    (reliable (db s) \<longrightarrow>
      r = (case clean_subdomain sd of None \<Rightarrow> Ok ()
         | Some c \<Rightarrow> (if \<exists>k \<in> set (tunnels (tabs (db s))). same_subdomain c k
             then Err (409, ''Subdomain '' @ quoted c @ '' is already in use'') else Ok ())))
    \<and> r \<noteq> Panic"
proof (cases "clean_subdomain sd")
  case None
  with assms show ?thesis
    by (auto simp: check_new_subdomain_def clean_subdomain_def reading.R_refl Let_def
        split: option.splits if_splits)
next
  case (Some c)
  then obtain sub where sub: "sd = Some sub" "c = str_trim sub" "c \<noteq> []"
    by (auto simp: clean_subdomain_def split: option.splits if_splits)
  have "(r, t) = (if seen_taken c None s then throw (409, ''Subdomain '' @ quoted c @ '' is already in use'') else ret ()) (checked c None s)"
    using assms sub by (cases "seen_taken c None s") (simp_all add: check_new_subdomain_def and_then_Ok [OF taken_run] Let_def)
  with checked_reading [of s c None] seen_taken_iff [of s c None] Some show ?thesis
    by (cases "seen_taken c None s") auto
qed

section \<open>Creating a tunnel\<close>

lemma take_port_run:
  "take_dedicated_port p s =
     (if 1024 \<le> p \<and> p \<notin> allocated_ports s
      then (Ok p, s\<lparr>allocated_ports := insert p (allocated_ports s)\<rparr>)
      else (Err (409, port_busy_prefix @ fmt_dec (unat p) @ port_busy_suffix), s))"
  by (simp add: take_dedicated_port_def allocate_port_def)

text \<open>Starting a tunnel on its agent, when the agent is connected.\<close>

definition start_on :: "uuid \<Rightarrow> tunnel_config \<Rightarrow> app_state \<Rightarrow> app_state" where
  "start_on a k s = (case agent_senders s a of
      None \<Rightarrow> s
    | Some ch \<Rightarrow> post ch (StartTunnel k) (snd (start_tunnel_listener k ch s)))"

lemma start_on_run:
  "(case agent_senders s a of
      Some ch \<Rightarrow> and_then (ignore_err (start_tunnel_listener k ch)) (\<lambda>_. modify (post ch (StartTunnel k)))
    | None \<Rightarrow> ret ()) s = (Ok (), start_on a k s)"
  by (simp add: start_on_def and_then_Ok split: option.split)

lemma user_by_id_run:
  assumes "on_db (get_user_by_id i) s = (r, t)"
  shows "read_only s t \<and> r \<noteq> Panic \<and>
    (\<forall>f. r = Ok f \<longrightarrow> f = map_option user_of_row (lookup_by ur_id i (users (tabs (db s)))))"
  using obeysD [OF on_db_reading [OF user_query_steps(4,3)] assms] assms
  by (auto simp: on_db_eq get_user_by_id_def query_sql_def split: option.splits)

lemma create_tunnel_Ok:
  assumes run: "create_tunnel x h b s = (Ok (st, page), t)"
  obtains uid a u r i s1 c where
    "st = 201" "page = JTunnel r" "get_current_user_id x h s = Some uid"
    "uuid_parse_str x (cr_agent_id b) = Some a"
    "lookup_by ur_id uid (users (tabs (db s))) = Some u"
    "1024 \<le> ur_dedicated_port u" "ur_dedicated_port u \<notin> allocated_ports s" "read_only s s1"
    "db_create_tunnel x (cr_agent_id b) (Some uid) (cr_name b) (cr_local_port b) (cr_protocol b)
       (ur_dedicated_port u) (clean_subdomain (cr_subdomain b)) (db s1) = (Ok r, c)"
    "uuid_parse_str x (tr_id r) = Some i"
    "t = start_on a (config_of_created i a (ur_dedicated_port u) r)
       (s1\<lparr>allocated_ports := insert (ur_dedicated_port u) (allocated_ports s), db := c\<rparr>)"
    "reliable (db s) \<Longrightarrow> \<forall>sd. clean_subdomain (cr_subdomain b) = Some sd \<longrightarrow>
       (\<forall>k \<in> set (tunnels (tabs (db s))). \<not> same_subdomain sd k)"
proof -
  from run obtain uid a s1 u s2 s3 r s4 i where
    uid: "get_current_user_id x h s = Some uid" and a: "uuid_parse_str x (cr_agent_id b) = Some a"
    and chk: "check_new_subdomain (cr_subdomain b) s = (Ok (), s1)"
    and usr: "on_db (get_user_by_id uid) s1 = (Ok (Some u), s2)"
    and port: "take_dedicated_port (ur_dedicated_port u) s2 = (Ok (ur_dedicated_port u), s3)"
    and ins: "on_db (db_create_tunnel x (cr_agent_id b) (Some uid) (cr_name b) (cr_local_port b)
        (cr_protocol b) (ur_dedicated_port u) (clean_subdomain (cr_subdomain b))) s3 = (Ok r, s4)"
    and i: "uuid_parse_str x (tr_id r) = Some i"
    and t: "t = start_on a (config_of_created i a (ur_dedicated_port u) r) s4"
    and res: "st = 201" "page = JTunnel r"
    unfolding create_tunnel_def Let_def
    by (auto simp: and_then_eq_Ok map_err_eq_Ok ok_or_eq_Ok start_on_run take_port_run
        split: if_splits)
  from subdomain_check [OF chk] have r1: "read_only s s1"
    and free: "reliable (db s) \<Longrightarrow> \<forall>sd. clean_subdomain (cr_subdomain b) = Some sd \<longrightarrow>
       (\<forall>k \<in> set (tunnels (tabs (db s))). \<not> same_subdomain sd k)"
    by (auto split: option.splits if_splits)
  from user_by_id_run [OF usr] have r2: "read_only s s2" and lk: "map_option user_of_row
      (lookup_by ur_id uid (users (tabs (db s)))) = Some u"
    using reading.R_trans [OF r1] read_only_fields(1) [OF r1] by auto
  then obtain w where w: "lookup_by ur_id uid (users (tabs (db s))) = Some w" "u = user_of_row w" by auto
  then have p: "ur_dedicated_port u = ur_dedicated_port w" by (simp add: user_of_row_def)
  note f = read_only_fields [OF r2]
  from port have pf: "1024 \<le> ur_dedicated_port w" "ur_dedicated_port w \<notin> allocated_ports s"
    "s3 = s2\<lparr>allocated_ports := insert (ur_dedicated_port w) (allocated_ports s)\<rparr>"
    by (auto simp: take_port_run p f split: if_splits)
  from ins obtain c where c: "db_create_tunnel x (cr_agent_id b) (Some uid) (cr_name b) (cr_local_port b)
        (cr_protocol b) (ur_dedicated_port w) (clean_subdomain (cr_subdomain b)) (db s2) = (Ok r, c)"
    "s4 = s3\<lparr>db := c\<rparr>" by (auto simp: on_db_eq pf(3) p)
  show thesis
    by (rule that [OF res uid a w(1) pf(1,2) r2 c(1) i])
      (use t c(2) pf(3) p free in simp_all)
qed

lemma start_on_fields [simp]:
  "db (start_on a k s) = db s" "allocated_ports (start_on a k s) = allocated_ports s"
  "agent_senders (start_on a k s) = agent_senders s" "user_sessions (start_on a k s) = user_sessions s"
  "pending_claims (start_on a k s) = pending_claims s"
proof -
  have "mem_frame s (snd (start_tunnel_listener k ch s))" for ch
    by (rule obeys_snd [OF start_frame])
  then show "db (start_on a k s) = db s" "allocated_ports (start_on a k s) = allocated_ports s"
    "agent_senders (start_on a k s) = agent_senders s" "user_sessions (start_on a k s) = user_sessions s"
    "pending_claims (start_on a k s) = pending_claims s"
    by (simp_all add: start_on_def mem_frame_def split: option.split)
qed

lemma post_running [simp]: "running (post ch m s) i = running s i"
  by (simp add: running_def)

lemma post_wf [simp]: "listeners_wf (post ch m s) = listeners_wf s"
  by (simp add: listeners_wf_def)

text \<open>An offline agent's tunnel does not run; an online agent's runs if the port could be bound.\<close>

lemma start_on_running:
  assumes "listeners_wf s"
  shows "listeners_wf (start_on a k s)"
    "j \<noteq> tc_id k \<Longrightarrow> running (start_on a k s) j = running s j"
    "agent_senders s a = Some ch \<Longrightarrow>
      running (start_on a k s) (tc_id k) \<longleftrightarrow> fst (start_tunnel_listener k ch s) = Ok ()"
  using assms registry.wf_start registry.other_tunnels registry.restart_or_down
  by (simp_all add: start_on_def split: option.split)

lemma start_on_outbox:
  "outbox (start_on a k s) j = (if agent_senders s a = Some j
     then map_option (\<lambda>q. q @ [StartTunnel k]) (outbox s j) else outbox s j)"
proof -
  have "outbox (snd (start_tunnel_listener k ch s)) j = outbox s j" for ch j
    using obeys_snd [OF start_frame, of s k ch] by (simp add: mem_frame_def outbox_def)
  then show ?thesis by (auto simp: start_on_def outbox_post split: option.split)
qed

text \<open>What a created tunnel left in the database.\<close>

lemma create_tunnel_stored:
  assumes run: "create_tunnel x h b s = (Ok (st, page), t)"
  obtains uid u r where "page = JTunnel r" "get_current_user_id x h s = Some uid"
    "lookup_by ur_id uid (users (tabs (db s))) = Some u" "tr_public_port r = ur_dedicated_port u"
    "allocated_ports t = insert (ur_dedicated_port u) (allocated_ports s)"
    "tr_id r \<notin> t_id ` set (tunnels (tabs (db s)))"
    "fk_enforced (db s) \<Longrightarrow> cr_agent_id b \<in> ar_id ` set (agents (tabs (db s)))"
    "tabs (db t) = (tabs (db s))\<lparr>tunnels := tunnels (tabs (db s)) @
        [\<lparr>t_id = tr_id r, t_agent_id = cr_agent_id b, t_user_id = Some uid, t_name = cr_name b,
          t_local_port = cr_local_port b, t_protocol = cr_protocol b,
          t_public_port = ur_dedicated_port u, t_subdomain = clean_subdomain (cr_subdomain b),
          t_enabled = True, t_bytes_in = SqlInt 0, t_bytes_out = SqlInt 0,
          t_created_at = tr_created_at r\<rparr>]\<rparr>"
    "reliable (db s) \<Longrightarrow> \<forall>sd. clean_subdomain (cr_subdomain b) = Some sd \<longrightarrow>
       (\<forall>k \<in> set (tunnels (tabs (db s))). \<not> same_subdomain sd k)"
proof (rule create_tunnel_Ok [OF run])
  fix uid a u r i s1 c
  assume page: "page = JTunnel r" and uid: "get_current_user_id x h s = Some uid"
    and u: "lookup_by ur_id uid (users (tabs (db s))) = Some u" and ro: "read_only s s1"
    and ins: "db_create_tunnel x (cr_agent_id b) (Some uid) (cr_name b) (cr_local_port b) (cr_protocol b)
       (ur_dedicated_port u) (clean_subdomain (cr_subdomain b)) (db s1) = (Ok r, c)"
    and t: "t = start_on a (config_of_created i a (ur_dedicated_port u) r)
       (s1\<lparr>allocated_ports := insert (ur_dedicated_port u) (allocated_ports s), db := c\<rparr>)"
    and free: "reliable (db s) \<Longrightarrow> \<forall>sd. clean_subdomain (cr_subdomain b) = Some sd \<longrightarrow>
       (\<forall>k \<in> set (tunnels (tabs (db s))). \<not> same_subdomain sd k)"
  note f = read_only_fields [OF ro]
  note d = db_create_tunnel_Ok [OF ins]
  have pp: "tr_public_port r = ur_dedicated_port u" by (subst conjunct1 [OF d]) simp
  show thesis
    by (rule that [OF page uid u pp _ _ _ _ free]) (use conjunct2 [OF d] f t in simp_all)
qed

lemma create_tunnel_owner:
  assumes "port_owner (tabs (db s))" and "create_tunnel x h b s = (Ok (st, page), t)"
  shows "port_owner (tabs (db t))"
proof (rule create_tunnel_stored [OF assms(2)])
  fix uid u and r :: tunnel_record
  assume l: "lookup_by ur_id uid (users (tabs (db s))) = Some u"
    and t: "tabs (db t) = (tabs (db s))\<lparr>tunnels := tunnels (tabs (db s)) @
        [\<lparr>t_id = tr_id r, t_agent_id = cr_agent_id b, t_user_id = Some uid, t_name = cr_name b,
          t_local_port = cr_local_port b, t_protocol = cr_protocol b,
          t_public_port = ur_dedicated_port u, t_subdomain = clean_subdomain (cr_subdomain b),
          t_enabled = True, t_bytes_in = SqlInt 0, t_bytes_out = SqlInt 0,
          t_created_at = tr_created_at r\<rparr>]\<rparr>"
  from lookup_by_Some [OF l] assms(1) t show ?thesis by (auto simp: port_owner_def)
qed

lemma create_tunnel_subdomains:
  assumes "reliable (db s)" "subdomains_unique (tabs (db s))"
    and "create_tunnel x h b s = (Ok (st, page), t)"
  shows "subdomains_unique (tabs (db t))"
proof (rule create_tunnel_stored [OF assms(3)])
  fix uid u and r :: tunnel_record
  let ?row = "\<lparr>t_id = tr_id r, t_agent_id = cr_agent_id b, t_user_id = Some uid, t_name = cr_name b,
          t_local_port = cr_local_port b, t_protocol = cr_protocol b,
          t_public_port = ur_dedicated_port u, t_subdomain = clean_subdomain (cr_subdomain b),
          t_enabled = True, t_bytes_in = SqlInt 0, t_bytes_out = SqlInt 0,
          t_created_at = tr_created_at r\<rparr>"
  assume t: "tabs (db t) = (tabs (db s))\<lparr>tunnels := tunnels (tabs (db s)) @ [?row]\<rparr>"
    and free: "reliable (db s) \<Longrightarrow> \<forall>sd. clean_subdomain (cr_subdomain b) = Some sd \<longrightarrow>
       (\<forall>k \<in> set (tunnels (tabs (db s))). \<not> same_subdomain sd k)"
  show ?thesis unfolding t
    by (rule subdomains_unique_append [OF assms(2)]) (use free [OF assms(1)] in simp)
qed

text \<open>The handler before the port is taken, for a request that passes it, and the rest.\<close>

definition create_rest ::
  "ext \<Rightarrow> uuid \<Rightarrow> string \<Rightarrow> create_tunnel_request \<Rightarrow> u16 \<Rightarrow> handler" where
  "create_rest x a uid b public_port =
     and_then (map_err (db_error_500 x) (on_db (db_create_tunnel x (cr_agent_id b)
       (Some uid) (cr_name b) (cr_local_port b) (cr_protocol b) public_port
       (clean_subdomain (cr_subdomain b))))) (\<lambda>tunnel_record.
     and_then (ok_or (500, ''UUID parse error'') (uuid_parse_str x (tr_id tunnel_record))) (\<lambda>tunnel_id.
     let config = config_of_created tunnel_id a public_port tunnel_record in
     and_then (reads (\<lambda>s. agent_senders s a)) (\<lambda>sender.
     and_then (case sender of
         Some agent_sender \<Rightarrow>
           and_then (ignore_err (start_tunnel_listener config agent_sender)) (\<lambda>_.
           modify (post agent_sender (StartTunnel config)))
       | None \<Rightarrow> ret ()) (\<lambda>_.
     ret (201, JTunnel tunnel_record)))))"

definition sub_free :: "string option \<Rightarrow> app_state \<Rightarrow> bool" where
  "sub_free sd s \<longleftrightarrow> (\<forall>c k. clean_subdomain sd = Some c \<longrightarrow> k \<in> set (tunnels (tabs (db s)))
     \<longrightarrow> \<not> same_subdomain c k)"

definition created_row ::
  "create_tunnel_request \<Rightarrow> user_row \<Rightarrow> string \<Rightarrow> int \<Rightarrow> tunnel_row" where
  "created_row b u i now =
     \<lparr>t_id = i, t_agent_id = cr_agent_id b, t_user_id = Some (ur_id u), t_name = cr_name b,
      t_local_port = cr_local_port b, t_protocol = cr_protocol b,
      t_public_port = ur_dedicated_port u, t_subdomain = clean_subdomain (cr_subdomain b),
      t_enabled = True, t_bytes_in = SqlInt 0, t_bytes_out = SqlInt 0, t_created_at = now\<rparr>"

lemma taken_draws [simp]:
  "draws (host_of (snd (is_subdomain_taken sd e c))) = draws (host_of c)"
  by (simp add: is_subdomain_taken_def and_then_def query_sql_def next_stmt_def
      split: option.split)

lemma check_draws:
  "check_new_subdomain sd s = (r, t) \<Longrightarrow> draws (host_of (db t)) = draws (host_of (db s))"
  by (auto simp: check_new_subdomain_def Let_def and_then_Ok [OF taken_run] checked_def
      split: option.splits if_splits)

lemma create_tunnel_prefix:
  assumes uid: "get_current_user_id x h s = Some uid" and a: "uuid_parse_str x (cr_agent_id b) = Some a"
    and u: "lookup_by ur_id uid (users (tabs (db s))) = Some u" and rel: "reliable (db s)"
    and free: "sub_free (cr_subdomain b) s"
  obtains s2 where "read_only s s2" and "create_tunnel x h b s =
    and_then (take_dedicated_port (ur_dedicated_port u)) (create_rest x a uid b) s2"
    and "draws (host_of (db s2)) = draws (host_of (db s))"
proof -
  obtain r s1 where chk: "check_new_subdomain (cr_subdomain b) s = (r, s1)"
    by (cases "check_new_subdomain (cr_subdomain b) s")
  from subdomain_check [OF chk] rel free have r1: "read_only s s1" and r: "r = Ok ()"
    by (auto simp: sub_free_def split: option.splits)
  let ?s2 = "s1\<lparr>db := next_stmt (db s1)\<rparr>"
  note f = read_only_fields [OF r1]
  have usr: "on_db (get_user_by_id uid) s1 = (Ok (Some (user_of_row u)), ?s2)"
    using u rel by (simp add: on_db_def get_user_by_id_def f)
  have r2: "read_only s ?s2"
    using reading.R_trans [OF r1 obeysD [OF on_db_reading [OF user_query_steps(4,3)] usr]] .
  have port: "ur_dedicated_port (user_of_row u) = ur_dedicated_port u" by (simp add: user_of_row_def)
  have "draws (host_of (db ?s2)) = draws (host_of (db s))"
    using check_draws [OF chk] by (simp add: next_stmt_def)
  then show thesis
    by (intro that [OF r2])
      (use uid a chk r usr port in \<open>simp add: create_tunnel_def create_rest_def [abs_def] and_then_Ok map_err_Ok Let_def\<close>)
qed

text \<open>The dedicated port is held: a conflict, and nothing changes.\<close>

lemma create_tunnel_busy:
  assumes "get_current_user_id x h s = Some uid" "uuid_parse_str x (cr_agent_id b) = Some a"
    and "lookup_by ur_id uid (users (tabs (db s))) = Some u" "reliable (db s)"
    and "sub_free (cr_subdomain b) s" and held: "ur_dedicated_port u \<in> allocated_ports s"
  obtains t where "read_only s t" "create_tunnel x h b s =
    (Err (409, port_busy_prefix @ fmt_dec (unat (ur_dedicated_port u)) @ port_busy_suffix), t)"
  by (rule create_tunnel_prefix [OF assms(1-5)])
    (use held that read_only_fields(2) in \<open>simp add: take_port_run and_then_Err\<close>)

text \<open>The row cannot be inserted: an error, and the port stays allocated.\<close>

lemma create_tunnel_leak:
  assumes "get_current_user_id x h s = Some uid" "uuid_parse_str x (cr_agent_id b) = Some a"
    and "lookup_by ur_id uid (users (tabs (db s))) = Some u" "reliable (db s)"
    and "sub_free (cr_subdomain b) s"
    and free: "ur_dedicated_port u \<notin> allocated_ports s" "1024 \<le> ur_dedicated_port u"
    and fk: "fk_enforced (db s)" "cr_agent_id b \<notin> ar_id ` set (agents (tabs (db s)))"
    and clk: "clock_ok (db s)"
  obtains m t where "create_tunnel x h b s = (Err (500, m), t)" "tabs (db t) = tabs (db s)"
    "allocated_ports t = insert (ur_dedicated_port u) (allocated_ports s)"
    "user_sessions t = user_sessions s" "same_world (db s) (db t)"
proof (rule create_tunnel_prefix [OF assms(1-5)])
  fix s2 :: app_state
  let ?p = "ur_dedicated_port u"
  let ?s3 = "s2\<lparr>allocated_ports := insert ?p (allocated_ports s)\<rparr>"
  let ?ins = "db_create_tunnel x (cr_agent_id b) (Some uid) (cr_name b) (cr_local_port b)
      (cr_protocol b) ?p (clean_subdomain (cr_subdomain b))"
  assume ro: "read_only s s2" and run: "create_tunnel x h b s =
    and_then (take_dedicated_port ?p) (create_rest x a uid b) s2"
  note f = read_only_fields [OF ro]
  have port: "take_dedicated_port ?p s2 = (Ok ?p, ?s3)" using free f by (simp add: take_port_run)
  obtain r c where rc: "?ins (db s2) = (r, c)" by (cases "?ins (db s2)")
  have clk2: "\<not> clock (host_of (db s2)) n < 0" for n
    using clk f(17) by (simp add: clock_ok_def not_less)
  have "\<exists>e. r = Err e"
    using rc fk f clk2 assms(4)
    by (auto simp: db_create_tunnel_def and_then_def new_v4_def now_secs_def Let_def exec_sql_def
        insert_tunnel_def reliable_def split: if_splits)
  then obtain e where e: "r = Err e" ..
  have ins: "on_db ?ins ?s3 = (Err e, ?s3\<lparr>db := c\<rparr>)" using rc e by (simp add: on_db_run)
  have "tabs c = tabs (db s2)" using db_create_tunnel_failed [OF rc] e by simp
  moreover have "same_world (db s2) c" by (rule obeysD [OF tunnel_update_world(1) rc])
  moreover have "create_tunnel x h b s = (Err (500, ''DB error: '' @ show_db_error x e), ?s3\<lparr>db := c\<rparr>)"
    unfolding run using port ins
    by (simp add: create_rest_def and_then_Ok and_then_Err map_err_Err db_error_500_def)
  ultimately show thesis
    using that [of "''DB error: '' @ show_db_error x e" "?s3\<lparr>db := c\<rparr>"] f ro
      world.R_trans [of "db s" "db s2" c]
    by (simp add: read_only_def)
qed

text \<open>Nothing in the way: the tunnel is stored and, if its agent is connected, started.\<close>

lemma create_tunnel_success:
  assumes "get_current_user_id x h s = Some uid" "uuid_parse_str x (cr_agent_id b) = Some a"
    and u: "lookup_by ur_id uid (users (tabs (db s))) = Some u" and rel: "reliable (db s)"
    and "sub_free (cr_subdomain b) s"
    and free: "ur_dedicated_port u \<notin> allocated_ports s" "1024 \<le> ur_dedicated_port u"
    and ag: "cr_agent_id b \<in> ar_id ` set (agents (tabs (db s)))"
    and clk: "clock_ok (db s)" and utx: "uuid_text_ok x"
    and new: "uuid_to_string x (next_uuid s) \<notin> t_id ` set (tunnels (tabs (db s)))"
  obtains r t where "create_tunnel x h b s =
      (Ok (201, JTunnel r), start_on a (config_of_created (next_uuid s) a (ur_dedicated_port u) r) t)"
    "tr_id r = uuid_to_string x (next_uuid s)" "tr_agent_id r = cr_agent_id b"
    "tr_user_id r = Some uid" "tr_protocol r = cr_protocol b"
    "allocated_ports t = insert (ur_dedicated_port u) (allocated_ports s)"
    "agent_senders t = agent_senders s" "relay_chans t = relay_chans s" "listeners t = listeners s"
    "tunnel_tasks t = tunnel_tasks s" "next_listener t = next_listener s" "bind_error t = bind_error s"
    "binds t = binds s" "user_sessions t = user_sessions s"
    "tabs (db t) = (tabs (db s))\<lparr>tunnels := tunnels (tabs (db s)) @
       [created_row b u (tr_id r) (tr_created_at r)]\<rparr>"
proof (rule create_tunnel_prefix [OF assms(1-5)])
  fix s2 :: app_state
  let ?p = "ur_dedicated_port u" and ?i = "next_uuid s"
  let ?s3 = "s2\<lparr>allocated_ports := insert ?p (allocated_ports s)\<rparr>"
  let ?ins = "db_create_tunnel x (cr_agent_id b) (Some uid) (cr_name b) (cr_local_port b)
      (cr_protocol b) ?p (clean_subdomain (cr_subdomain b))"
  assume ro: "read_only s s2" and dr: "draws (host_of (db s2)) = draws (host_of (db s))"
    and run: "create_tunnel x h b s =
      and_then (take_dedicated_port ?p) (create_rest x a uid b) s2"
  note f = read_only_fields [OF ro]
  have i: "entropy (host_of (db s2)) (draws (host_of (db s2))) = ?i"
    using ro dr by (simp add: read_only_def same_world_def next_uuid_def draw_uuid_def)
  have port: "take_dedicated_port ?p s2 = (Ok ?p, ?s3)" using free f by (simp add: take_port_run)
  have clk2: "\<not> clock (host_of (db s2)) n < 0" for n
    using clk f(17) by (simp add: clock_ok_def not_less)
  have uid: "ur_id u = uid" "u \<in> set (users (tabs (db s)))" using lookup_by_Some [OF u] by blast+
  have none: "io_failure (host_of (db s2)) n = None" for n
    using rel f(12) by (simp add: reliable_def)
  obtain r c where rc: "?ins (db s2) = (Ok r, c)" and r: "tr_id r = uuid_to_string x ?i"
    using new ag uid f(1) i clk2 none
    by (auto simp: db_create_tunnel_def and_then_def new_v4_def now_secs_def Let_def exec_sql_def
        insert_tunnel_def user_ref_ok_def)
  note ok = db_create_tunnel_Ok [OF rc]
  have ins: "on_db ?ins ?s3 = (Ok r, ?s3\<lparr>db := c\<rparr>)" using rc by (simp add: on_db_run)
  have "create_tunnel x h b s = (Ok (201, JTunnel r),
      start_on a (config_of_created ?i a ?p r) (?s3\<lparr>db := c\<rparr>))"
    unfolding run using port ins r utx
    by (cases "agent_senders s2 a")
      (simp_all add: create_rest_def start_on_def and_then_Ok map_err_Ok Let_def)
  then show thesis
    by (rule that) (use r ok f uid in \<open>(cases r, simp add: created_row_def)+\<close>)
qed

section \<open>Toggling, deleting and updating\<close>

lemma tunnel_row_run:
  assumes "reliable (db s)" "lookup_by t_id i (tunnels (tabs (db s))) = Some row"
    and "tunnel_of_row row = Ok k"
  shows "on_db (get_tunnel_by_id i) s = (Ok (Some k), s\<lparr>db := next_stmt (db s)\<rparr>)"
  using assms by (simp add: on_db_def get_tunnel_by_id_def)

lemma no_tunnel_run:
  assumes "reliable (db s)" "i \<notin> t_id ` set (tunnels (tabs (db s)))"
  shows "on_db (get_tunnel_by_id i) s = (Ok None, s\<lparr>db := next_stmt (db s)\<rparr>)"
proof -
  have "lookup_by t_id i (tunnels (tabs (db s))) = None" using assms(2) by (simp add: lookup_by_None)
  with assms(1) show ?thesis by (simp add: on_db_def get_tunnel_by_id_def)
qed

lemma tunnel_missing:
  assumes "reliable (db s)" "i \<notin> t_id ` set (tunnels (tabs (db s)))"
  shows "toggle_tunnel x i s = (Err (404, ''Tunnel not found''), s\<lparr>db := next_stmt (db s)\<rparr>)"
    "update_tunnel x i b s = (Err (404, ''Tunnel not found''), s\<lparr>db := next_stmt (db s)\<rparr>)"
    "delete_tunnel x i s = (Ok (200, Empty), s\<lparr>db := next_stmt (db s)\<rparr>)"
  by (simp_all add: toggle_tunnel_def update_tunnel_def delete_tunnel_def and_then_Ok map_err_Ok
      and_then_Err no_tunnel_run [OF assms])

definition enabled_as :: "string \<Rightarrow> bool \<Rightarrow> app_state \<Rightarrow> app_state" where
  "enabled_as i e s = s\<lparr>db := (next_stmt (next_stmt (db s)))\<lparr>tabs := (tabs (db s))\<lparr>tunnels :=
     update_by t_id i (\<lambda>k. k\<lparr>t_enabled := e\<rparr>) (tunnels (tabs (db s)))\<rparr>\<rparr>\<rparr>"

lemma enabled_as_fields [simp]:
  "allocated_ports (enabled_as i e s) = allocated_ports s" "agent_senders (enabled_as i e s) = agent_senders s"
  "listeners_wf (enabled_as i e s) = listeners_wf s" "running (enabled_as i e s) j = running s j"
  "relay_chans (enabled_as i e s) = relay_chans s"
  "tabs (db (enabled_as i e s)) = (tabs (db s))\<lparr>tunnels :=
     update_by t_id i (\<lambda>k. k\<lparr>t_enabled := e\<rparr>) (tunnels (tabs (db s)))\<rparr>"
  by (simp_all add: enabled_as_def)

lemma switch_run:
  "switch_tunnel k tid a e s =
    (Ok (), (if e then start_on a (config_of_created tid a (tr_public_port k) k)
               (reserve_port (tr_public_port k) s)
       else (case agent_senders s a of None \<Rightarrow> id | Some ch \<Rightarrow> post ch (StopTunnel tid))
             (free_port (tr_public_port k) (stop_tunnel_listener tid s))))"
  by (cases e) (simp_all add: switch_tunnel_def Let_def start_on_def and_then_Ok split: option.split)

lemma toggle_prefix:
  assumes rel: "reliable (db s)" and row: "lookup_by t_id i (tunnels (tabs (db s))) = Some row"
    and k: "tunnel_of_row row = Ok k" and ids: "uuid_parse_str x (tr_id k) = Some tid"
      "uuid_parse_str x (tr_agent_id k) = Some a"
  shows "toggle_tunnel x i s =
    (Ok (200, Empty),
     snd (switch_tunnel k tid a (\<not> tr_enabled k) (enabled_as i (\<not> tr_enabled k) s)))"
proof -
  have set: "on_db (set_tunnel_enabled i e) (s\<lparr>db := next_stmt (db s)\<rparr>) = (Ok (), enabled_as i e s)" for e
    using rel by (simp add: on_db_def set_tunnel_enabled_def reliable_exec enabled_as_def)
  show ?thesis
    using ids
    by (simp add: toggle_tunnel_def and_then_Ok map_err_Ok ignore_err_Ok set tunnel_row_run [OF rel row k]
        Let_def switch_run)
qed

text \<open>Switching off: the listener stops, the port is free, the agent is told.\<close>

lemma toggle_off:
  assumes "reliable (db s)" "lookup_by t_id i (tunnels (tabs (db s))) = Some row"
    "tunnel_of_row row = Ok k" "uuid_parse_str x (tr_id k) = Some tid"
    "uuid_parse_str x (tr_agent_id k) = Some a" and on: "t_enabled row" and wf: "listeners_wf s"
  obtains t where "toggle_tunnel x i s = (Ok (200, Empty), t)"
    "tabs (db t) = (tabs (db s))\<lparr>tunnels :=
       update_by t_id i (\<lambda>k. k\<lparr>t_enabled := False\<rparr>) (tunnels (tabs (db s)))\<rparr>"
    "\<And>j. running t j \<longleftrightarrow> j \<noteq> tid \<and> running s j"
    "allocated_ports t = allocated_ports s - {t_public_port row}" "listeners_wf t"
    "\<And>ch. agent_senders s a = Some ch \<Longrightarrow>
       outbox t ch = map_option (\<lambda>q. q @ [StopTunnel tid]) (outbox s ch)"
proof -
  let ?u = "free_port (tr_public_port k) (stop_tunnel_listener tid (enabled_as i False s))"
  let ?t = "(case agent_senders s a of None \<Rightarrow> id | Some ch \<Rightarrow> post ch (StopTunnel tid)) ?u"
  have "tr_enabled k" and p: "tr_public_port k = t_public_port row"
    using tunnel_of_row_Ok [OF assms(3)] on by simp_all
  then have run: "toggle_tunnel x i s = (Ok (200, Empty), ?t)"
    using toggle_prefix [OF assms(1-5)] by (simp add: switch_run)
  have o: "outbox (free_port q (stop_tunnel_listener tid (enabled_as i False s))) ch = outbox s ch" for q ch
    by (simp add: outbox_def)
  show thesis
    by (rule that [OF run]; cases "agent_senders s a")
      (use wf p in \<open>simp_all add: registry.up_stop registry.wf_stop outbox_post o\<close>)
qed

text \<open>Switching on asks nobody whether the port is free: it reserves it and starts the tunnel.\<close>

lemma toggle_on:
  assumes "reliable (db s)" "lookup_by t_id i (tunnels (tabs (db s))) = Some row"
    "tunnel_of_row row = Ok k" "uuid_parse_str x (tr_id k) = Some tid"
    "uuid_parse_str x (tr_agent_id k) = Some a" and off: "\<not> t_enabled row" and wf: "listeners_wf s"
  obtains t where "toggle_tunnel x i s = (Ok (200, Empty), t)"
    "tabs (db t) = (tabs (db s))\<lparr>tunnels :=
       update_by t_id i (\<lambda>k. k\<lparr>t_enabled := True\<rparr>) (tunnels (tabs (db s)))\<rparr>"
    "\<And>j. j \<noteq> tid \<Longrightarrow> running t j = running s j"
    "allocated_ports t = insert (t_public_port row) (allocated_ports s)" "listeners_wf t"
    "\<And>ch. agent_senders s a = Some ch \<Longrightarrow>
       outbox t ch = map_option (\<lambda>q. q @ [StartTunnel (config_of_created tid a (t_public_port row) k)])
         (outbox s ch)"
proof -
  let ?u = "reserve_port (tr_public_port k) (enabled_as i True s)"
  let ?c = "config_of_created tid a (tr_public_port k) k"
  let ?t = "start_on a ?c ?u"
  have p: "tr_public_port k = t_public_port row" and "\<not> tr_enabled k"
    using tunnel_of_row_Ok [OF assms(3)] off by simp_all
  then have run: "toggle_tunnel x i s = (Ok (200, Empty), ?t)"
    using toggle_prefix [OF assms(1-5)] by (simp add: switch_run)
  have w: "listeners_wf ?u" and r: "running ?u j = running s j" for j
    using wf by (simp_all add: listeners_wf_frame [of "reserve_port _ (enabled_as i True s)"]
        running_frame [of "reserve_port _ (enabled_as i True s)"])
  have id: "tc_id ?c = tid" by (simp add: config_of_created_def)
  note st = start_on_running [OF w, where a = a and k = ?c]
  have o: "outbox (reserve_port q (enabled_as i True s)) ch = outbox s ch" for q ch
    by (simp add: outbox_def)
  have oth: "\<And>j. j \<noteq> tid \<Longrightarrow> running ?t j = running s j" using st(2) id r by simp
  have al: "allocated_ports ?t = insert (t_public_port row) (allocated_ports s)" using p by simp
  have out: "outbox ?t ch = map_option (\<lambda>q. q @ [StartTunnel (config_of_created tid a (t_public_port row) k)])
         (outbox s ch)" if "agent_senders s a = Some ch" for ch
    using that p o by (simp add: start_on_outbox)
  show thesis by (rule that [OF run _ oth al st(1) out]) simp_all
qed

lemma notify_stop_fields [simp]:
  "db (notify_stop x k i s) = db s" "allocated_ports (notify_stop x k i s) = allocated_ports s"
  "running (notify_stop x k i s) j = running s j" "listeners_wf (notify_stop x k i s) = listeners_wf s"
  by (simp_all add: notify_stop_def split: option.split)

text \<open>Deleting: the listener stops, the port is free, the row is gone.\<close>

lemma delete_tunnel_run:
  assumes rel: "reliable (db s)" and row: "lookup_by t_id i (tunnels (tabs (db s))) = Some row"
    and k: "tunnel_of_row row = Ok k" and id: "uuid_parse_str x (tr_id k) = Some tid"
    and wf: "listeners_wf s"
  obtains t where "delete_tunnel x i s = (Ok (200, Empty), t)"
    "tabs (db t) = (tabs (db s))\<lparr>tunnels := delete_by t_id i (tunnels (tabs (db s)))\<rparr>"
    "\<And>j. running t j \<longleftrightarrow> j \<noteq> tid \<and> running s j"
    "allocated_ports t = allocated_ports s - {t_public_port row}" "listeners_wf t"
    "\<And>a ch. uuid_parse_str x (tr_agent_id k) = Some a \<Longrightarrow> agent_senders s a = Some ch \<Longrightarrow>
       outbox t ch = map_option (\<lambda>q. q @ [StopTunnel tid]) (outbox s ch)"
proof -
  let ?l = "s\<lparr>db := next_stmt (db s)\<rparr>"
  let ?u = "notify_stop x k tid (free_port (tr_public_port k) (stop_tunnel_listener tid ?l))"
  let ?t = "?u\<lparr>db := (next_stmt (next_stmt (db s)))\<lparr>tabs := (tabs (db s))\<lparr>tunnels :=
      delete_by t_id i (tunnels (tabs (db s)))\<rparr>\<rparr>\<rparr>"
  have del: "on_db (db_delete_tunnel i) ?u = (Ok (), ?t)"
    using rel by (simp add: on_db_def db_delete_tunnel_def reliable_exec)
  have run: "delete_tunnel x i s = (Ok (200, Empty), ?t)"
    using id by (simp add: delete_tunnel_def and_then_Ok map_err_Ok ignore_err_Ok del
        tunnel_row_run [OF rel row k])
  have "tr_public_port k = t_public_port row" using tunnel_of_row_Ok [OF k] by simp
  moreover have "outbox ?t ch = map_option (\<lambda>q. q @ [StopTunnel tid]) (outbox s ch)"
    if "uuid_parse_str x (tr_agent_id k) = Some a" "agent_senders s a = Some ch" for a ch
  proof -
    have "outbox ?t ch = outbox ?u ch" by (rule outbox_frame) simp
    also have "\<dots> = map_option (\<lambda>q. q @ [StopTunnel tid])
        (outbox (free_port (tr_public_port k) (stop_tunnel_listener tid ?l)) ch)"
      using that by (simp add: notify_stop_def outbox_post)
    also have "outbox (free_port (tr_public_port k) (stop_tunnel_listener tid ?l)) ch = outbox s ch"
      by (rule outbox_frame) simp
    finally show ?thesis .
  qed
  ultimately show thesis
    by (intro that [OF run]) (use wf in \<open>simp_all add: registry.up_stop registry.wf_stop\<close>)
qed

text \<open>Updating keeps the tunnel's port, owner and state; a taken subdomain is a conflict.\<close>

lemma free_check_run:
  assumes "check_free_subdomain i c s = (r, t)"
  shows "read_only s t \<and> r \<noteq> Panic \<and>
    (reliable (db s) \<longrightarrow> r = Ok () \<longrightarrow>
      (\<forall>sd. c = Some sd \<longrightarrow> (\<forall>k \<in> set (tunnels (tabs (db s))). same_subdomain sd k \<longrightarrow> t_id k = i)))"
proof (cases c)
  case None
  with assms show ?thesis by (auto simp: check_free_subdomain_def reading.R_refl)
next
  case (Some sd)
  with assms checked_reading [of s sd "Some i"] seen_taken_iff [of s sd "Some i"]
  show ?thesis
    by (cases "seen_taken sd (Some i) s")
      (auto simp: check_free_subdomain_def and_then_Ok [OF taken_run])
qed

lemma resync_run:
  "resync_agent x aid s = (Ok (), (case uuid_parse_str x aid of None \<Rightarrow> s
     | Some a \<Rightarrow> (case agent_senders s a of None \<Rightarrow> s | Some ch \<Rightarrow> synced x a ch s)))"
  by (simp add: resync_agent_def split: option.split)

lemma update_tunnel_stored:
  assumes run: "update_tunnel x i b s = (Ok r, t)" and rel: "reliable (db s)"
  shows "r = (200, Empty)"
    "tabs (db t) = (tabs (db s))\<lparr>tunnels := update_by t_id i
      (\<lambda>k. k\<lparr>t_name := ut_name b, t_local_port := ut_local_port b, t_protocol := ut_protocol b,
             t_subdomain := clean_subdomain (ut_subdomain b)\<rparr>) (tunnels (tabs (db s)))\<rparr>"
    "clean_subdomain (ut_subdomain b) = Some sd \<Longrightarrow> k \<in> set (tunnels (tabs (db s))) \<Longrightarrow>
       same_subdomain sd k \<Longrightarrow> t_id k = i"
proof -
  from run obtain tn s1 s2 s3 where g: "on_db (get_tunnel_by_id i) s = (Ok (Some tn), s1)"
    and c: "check_free_subdomain i (clean_subdomain (ut_subdomain b)) s1 = (Ok (), s2)"
    and u: "on_db (db_update_tunnel i (ut_name b) (ut_local_port b) (ut_protocol b)
        (clean_subdomain (ut_subdomain b))) s2 = (Ok (), s3)"
    and f: "resync_agent x (tr_agent_id tn) s3 = (Ok (), t)" and r: "r = (200, Empty)"
    unfolding update_tunnel_def Let_def
    by (auto simp: and_then_eq_Ok map_err_eq_Ok ok_or_eq_Ok)
  show "r = (200, Empty)" by (rule r)
  have r1: "read_only s s1" using obeysD [OF on_db_reading [OF tunnel_query_steps(8,7)] g] .
  note fc = free_check_run [OF c]
  then have "read_only s1 s2" ..
  note f1 = read_only_fields [OF r1] and f2 = read_only_fields [OF this]
  show "clean_subdomain (ut_subdomain b) = Some sd \<Longrightarrow> k \<in> set (tunnels (tabs (db s))) \<Longrightarrow>
       same_subdomain sd k \<Longrightarrow> t_id k = i"
    using fc f1 rel by simp
  have "tabs (db s3) = (tabs (db s))\<lparr>tunnels := update_by t_id i
      (\<lambda>k. k\<lparr>t_name := ut_name b, t_local_port := ut_local_port b, t_protocol := ut_protocol b,
             t_subdomain := clean_subdomain (ut_subdomain b)\<rparr>) (tunnels (tabs (db s)))\<rparr>"
    using u f1 f2 by (auto simp: on_db_eq db_update_tunnel_def exec_sql_eq_Ok)
  moreover have "tabs (db t) = tabs (db s3)"
    using f by (auto simp: resync_run sync_effect split: option.splits)
  ultimately show "tabs (db t) = (tabs (db s))\<lparr>tunnels := update_by t_id i
      (\<lambda>k. k\<lparr>t_name := ut_name b, t_local_port := ut_local_port b, t_protocol := ut_protocol b,
             t_subdomain := clean_subdomain (ut_subdomain b)\<rparr>) (tunnels (tabs (db s)))\<rparr>" by simp
qed

text \<open>Deleting an agent: its rows go, its listeners and their ports stay.\<close>

lemma delete_agent_run:
  assumes "reliable (db s)"
  obtains t where "delete_agent x i s = (Ok (200, Empty), t)"
    "agents (tabs (db t)) = delete_by ar_id i (agents (tabs (db s)))"
    "tunnels (tabs (db t)) = delete_by t_agent_id i (tunnels (tabs (db s)))"
    "listeners t = listeners s" "tunnel_tasks t = tunnel_tasks s" "allocated_ports t = allocated_ports s"
    "\<And>a. uuid_parse_str x i = Some a \<Longrightarrow> agent_senders t a = None"
proof -
  let ?u = "case uuid_parse_str x i of None \<Rightarrow> s | Some a \<Rightarrow> remove_agent_sender a s"
  have u: "db ?u = db s" "listeners ?u = listeners s" "tunnel_tasks ?u = tunnel_tasks s"
    "allocated_ports ?u = allocated_ports s"
    by (simp_all add: remove_agent_sender_def split: option.split)
  have sn: "uuid_parse_str x i = Some a \<Longrightarrow> agent_senders ?u a = None" for a
    by (simp add: remove_agent_sender_def split: option.split)
  obtain c where c: "db_delete_agent i (db s) = (Ok (), c)"
    using assms by (auto simp: db_delete_agent_def and_then_def reliable_exec delete_agent_row_def)
  have d: "on_db (db_delete_agent i) ?u = (Ok (), ?u\<lparr>db := c\<rparr>)" using c u by (simp add: on_db_def)
  have run: "delete_agent x i s = (Ok (200, Empty), ?u\<lparr>db := c\<rparr>)"
    using d by (cases "uuid_parse_str x i") (simp_all add: delete_agent_def and_then_Ok ignore_err_Ok)
  show thesis
    by (rule that [OF run]) (use u sn db_delete_agent_Ok [OF c] in simp_all)
qed

section \<open>Whatever the outcome of a creation\<close>

text \<open>Either the tables are as before, or one row was added with the user's own port.\<close>

definition create_outcome :: "create_tunnel_request \<Rightarrow> app_state \<Rightarrow> app_state \<Rightarrow> bool" where
  "create_outcome b s t \<longleftrightarrow> tabs (db t) = tabs (db s) \<or>
     (\<exists>u i now. u \<in> set (users (tabs (db s)))
        \<and> (reliable (db s) \<longrightarrow> sub_free (cr_subdomain b) s)
        \<and> tabs (db t) = (tabs (db s))\<lparr>tunnels := tunnels (tabs (db s)) @ [created_row b u i now]\<rparr>)"

lemma start_db [simp]: "db (snd (start_tunnel_listener k ch s)) = db s"
  using obeys_snd [OF start_frame, of s k ch] by (simp add: mem_frame_def)

lemma create_rest_outcome:
  assumes u: "lookup_by ur_id uid (users (tabs (db s))) = Some u"
  shows "let t = snd (create_rest x a uid b (ur_dedicated_port u) s) in
    tabs (db t) = tabs (db s) \<or> (\<exists>i now. tabs (db t) = (tabs (db s))\<lparr>tunnels :=
       tunnels (tabs (db s)) @ [created_row b u i now]\<rparr>)"
proof -
  let ?ins = "db_create_tunnel x (cr_agent_id b) (Some uid) (cr_name b) (cr_local_port b)
      (cr_protocol b) (ur_dedicated_port u) (clean_subdomain (cr_subdomain b))"
  obtain r c where rc: "?ins (db s) = (r, c)" by (cases "?ins (db s)")
  have ins: "on_db ?ins s = (r, s\<lparr>db := c\<rparr>)" using rc by (simp add: on_db_run)
  have uid: "ur_id u = uid" using lookup_by_Some [OF u] by simp
  show ?thesis
  proof (cases r)
    case (Ok k)
    have "tabs c = (tabs (db s))\<lparr>tunnels :=
       tunnels (tabs (db s)) @ [created_row b u (tr_id k) (tr_created_at k)]\<rparr>"
      using conjunct2 [OF db_create_tunnel_Ok [OF rc [unfolded Ok]]] by (simp add: created_row_def uid)
    moreover have "db (snd (create_rest x a uid b (ur_dedicated_port u) s)) = c"
      using ins Ok
      by (cases "uuid_parse_str x (tr_id k)"; cases "agent_senders s a")
        (simp_all add: create_rest_def and_then_Ok map_err_Ok and_then_Err Let_def)
    ultimately show ?thesis by (auto simp: Let_def)
  next
    case (Err e)
    with rc db_create_tunnel_failed [OF rc] ins show ?thesis
      by (simp add: create_rest_def map_err_Err and_then_Err)
  next
    case Panic
    with rc db_create_tunnel_failed [OF rc] ins show ?thesis
      by (simp add: create_rest_def map_err_def and_then_def)
  qed
qed

lemma create_tunnel_outcome: "create_outcome b s (snd (create_tunnel x h b s))"
proof (cases "get_current_user_id x h s")
  case None
  then show ?thesis by (simp add: create_tunnel_def create_outcome_def)
next
  case uid: (Some uid)
  show ?thesis
  proof (cases "uuid_parse_str x (cr_agent_id b)")
    case None
    with uid show ?thesis by (simp add: create_tunnel_def create_outcome_def)
  next
    case a: (Some a)
    obtain r s1 where chk: "check_new_subdomain (cr_subdomain b) s = (r, s1)"
      by (cases "check_new_subdomain (cr_subdomain b) s")
    note c = subdomain_check [OF chk]
    then have r1: "read_only s s1" ..
    obtain q s2 where usr: "on_db (get_user_by_id uid) s1 = (q, s2)"
      by (cases "on_db (get_user_by_id uid) s1")
    note g = user_by_id_run [OF usr]
    then have r2: "read_only s s2" using reading.R_trans [OF r1] by blast
    note f1 = read_only_fields [OF r1] and f2 = read_only_fields [OF r2]
    consider (chk) e where "r = Err e" | (usr) e where "r = Ok ()" "q = Err e"
      | (gone) "r = Ok ()" "q = Ok None" | (found) w where "r = Ok ()" "q = Ok (Some w)"
      using c g by (cases r; cases q) auto
    then show ?thesis
    proof cases
      case found
      with g have "map_option user_of_row (lookup_by ur_id uid (users (tabs (db s2)))) = Some w"
        by (simp add: f1(1) f2(1))
      then obtain u where u: "lookup_by ur_id uid (users (tabs (db s2))) = Some u" "w = user_of_row u"
        by auto
      have run: "create_tunnel x h b s
          = and_then (take_dedicated_port (ur_dedicated_port u)) (create_rest x a uid b) s2"
        using uid a chk usr found u(2)
        by (simp add: create_tunnel_def create_rest_def [abs_def] and_then_Ok map_err_Ok Let_def user_of_row_def)
      have free: "reliable (db s) \<longrightarrow> sub_free (cr_subdomain b) s"
        using c found(1) by (auto simp: sub_free_def split: option.splits if_splits)
      have mem: "u \<in> set (users (tabs (db s)))" using lookup_by_Some [OF u(1)] f2 by simp
      let ?s3 = "s2\<lparr>allocated_ports := insert (ur_dedicated_port u) (allocated_ports s2)\<rparr>"
      have T: "tabs (db s2) = tabs (db s)" by (rule f2(1))
      show ?thesis
      proof (cases "1024 \<le> ur_dedicated_port u \<and> ur_dedicated_port u \<notin> allocated_ports s2")
        case True
        then have "create_tunnel x h b s = create_rest x a uid b (ur_dedicated_port u) ?s3"
          by (simp add: run take_port_run and_then_Ok)
        moreover have "lookup_by ur_id uid (users (tabs (db ?s3))) = Some u" using u(1) by simp
        note create_rest_outcome [OF this, of x a b]
        ultimately show ?thesis using mem free by (auto simp: create_outcome_def Let_def T)
      next
        case False
        then show ?thesis by (auto simp: run take_port_run and_then_Err create_outcome_def T)
      qed
    qed (use uid a chk usr f1(1) f2(1) in \<open>simp_all add: create_tunnel_def create_outcome_def
        and_then_Ok and_then_Err map_err_Ok map_err_Err\<close>)
  qed
qed

lemma port_owner_created:
  "port_owner t \<Longrightarrow> u \<in> set (users t) \<Longrightarrow>
    port_owner (t\<lparr>tunnels := tunnels t @ [created_row b u i now]\<rparr>)"
  by (auto simp: port_owner_def created_row_def)

lemma create_tunnel_owner_step: "obeys owner.app_R (create_tunnel x h b)"
proof (rule obeysI)
  fix s
  show "owner.app_R s (snd (create_tunnel x h b s))"
    using create_tunnel_outcome [of b s x h]
    by (auto simp: owner.app_R_def inv_step_def create_outcome_def dest: port_owner_created)
qed

lemma create_tunnel_zeros_step: "obeys zeros.app_R (create_tunnel x h b)"
proof (rule obeysI)
  fix s
  show "zeros.app_R s (snd (create_tunnel x h b s))"
    using create_tunnel_outcome [of b s x h]
    by (auto simp: zeros.app_R_def inv_step_def create_outcome_def counters_zero_def created_row_def)
qed

end
