(* ===== verification/Fresh_Ids.thy ===== *)
theory Fresh_Ids
  imports Session_Facts
begin

text \<open>
  The identifiers drawn so far. Every operation of the relay draws UUIDs one after the other
  from the same source, so an identifier that was drawn stays drawn, and, as long as the source
  has not repeated itself, the next one is new. \<open>draws_step\<close> is the relation of the connection,
  and the interpretations carry it to every handler of the relay.
\<close>

definition draws_step :: "conn \<Rightarrow> conn \<Rightarrow> bool" where
  "draws_step c d \<longleftrightarrow> entropy (host_of d) = entropy (host_of c) \<and> draws (host_of c) \<le> draws (host_of d)"

interpretation drawing: step_rel draws_step
  by unfold_locales (auto simp: draws_step_def)

interpretation app_draws: db_rel draws_step
  by unfold_locales

lemma basic_draws [steps]:
  "obeys draws_step new_v4" "obeys draws_step now_secs" "obeys draws_step (query_sql f)"
  "obeys draws_step (exec_sql g)"
  by (simp_all add: obeys_def draws_step_def new_v4_def now_secs_def query_sql_def exec_sql_def
      next_stmt_def Let_def split: option.split result.split)

lemma random_port_draws [steps]: "obeys draws_step (random_port n pr)"
  by (induction n) (simp_all only: random_port.simps Let_def count_port_def, (intro drawing.rules steps; assumption?)+)

lemma sequential_port_draws [steps]: "obeys draws_step (sequential_port ps)"
  by (induction ps) (simp_all only: sequential_port.simps count_port_def, (intro drawing.rules steps; assumption?)+)

lemma user_draws [steps]:
  "obeys draws_step (generate_unique_dedicated_port pr)" "obeys draws_step (register_user x n p pr)"
  "obeys draws_step (verify_user n p)" "obeys draws_step (get_user_by_id i)"
  "obeys draws_step list_all_users" "obeys draws_step (toggle_user_ban i b)"
  unfolding register_user_def generate_unique_dedicated_port_def verify_user_def get_user_by_id_def
    list_all_users_def toggle_user_ban_def Let_def
  by (intro drawing.rules basic_draws random_port_draws sequential_port_draws)+

lemma agent_draws [steps]:
  "obeys draws_step (create_agent_claim x n)" "obeys draws_step (create_agent_for_user x i n)"
  "obeys draws_step (claim_agent_to_user code i)" "obeys draws_step (get_agent_by_token k)"
  "obeys draws_step (set_agent_online i b m)" "obeys draws_step (list_agents_for_user i)"
  "obeys draws_step list_all_agents" "obeys draws_step (db_delete_agent i)"
  unfolding create_agent_claim_def create_agent_for_user_def claim_agent_to_user_def
    get_agent_by_token_def set_agent_online_def list_agents_for_user_def list_all_agents_def
    db_delete_agent_def Let_def
  by (intro drawing.rules basic_draws)+

lemma tunnel_draws [steps]:
  "obeys draws_step (db_create_tunnel x a u n lp pr pp sd)" "obeys draws_step (list_tunnels_for_user i)"
  "obeys draws_step (list_tunnels_for_agent i)" "obeys draws_step list_all_tunnels"
  "obeys draws_step (get_tunnel_by_id i)" "obeys draws_step (set_tunnel_enabled i b)"
  "obeys draws_step (db_update_tunnel i n lp pr sd)" "obeys draws_step (is_subdomain_taken sub e)"
  "obeys draws_step (db_delete_tunnel i)"
  unfolding db_create_tunnel_def list_tunnels_for_user_def list_tunnels_for_agent_def
    list_all_tunnels_def get_tunnel_by_id_def set_tunnel_enabled_def db_update_tunnel_def
    is_subdomain_taken_def db_delete_tunnel_def Let_def
  by (intro drawing.rules basic_draws)+

interpretation ws_draws: agent_store draws_step
  by unfold_locales (intro steps)+

interpretation web_draws: creating_rel app_draws.app_R
  by unfold_locales
    (intro app_draws.on_db_step steps ws_draws.start_step ws_draws.sync_step
      app_draws.app_R_mem stop_fields quiet_db; assumption)+

section \<open>Drawn identifiers\<close>

definition drawn :: "app_state \<Rightarrow> uuid \<Rightarrow> bool" where
  "drawn s i \<longleftrightarrow> (\<exists>k < draws (host_of (db s)). entropy (host_of (db s)) k = i)"

text \<open>The source has not repeated itself so far.\<close>

definition no_repeat :: "app_state \<Rightarrow> bool" where
  "no_repeat s \<longleftrightarrow> inj_on (entropy (host_of (db s))) {..<draws (host_of (db s))}"

lemma drawn_mono: "app_draws.app_R s t \<Longrightarrow> drawn s i \<Longrightarrow> drawn t i"
  unfolding drawn_def app_draws.app_R_def draws_step_def by (metis order_less_le_trans)

lemma no_repeat_before: "app_draws.app_R s t \<Longrightarrow> no_repeat t \<Longrightarrow> no_repeat s"
  unfolding no_repeat_def app_draws.app_R_def draws_step_def
  by (auto intro: inj_on_subset)

lemma draw_step: "app_draws.app_R s (snd (draw_uuid s))"
  by (simp add: app_draws.app_R_def draws_step_def draw_uuid_def)

lemma next_drawn: "drawn (snd (draw_uuid s)) (fst (draw_uuid s))"
  by (auto simp: drawn_def draw_uuid_def)

lemma next_new: "no_repeat (snd (draw_uuid s)) \<Longrightarrow> \<not> drawn s (fst (draw_uuid s))"
  unfolding drawn_def draw_uuid_def no_repeat_def
  by (auto dest!: inj_onD simp: less_Suc_eq)

end
