(* ===== verification/Relay_System.thy ===== *)
theory Relay_System
  imports Admin_Facts Fresh_Ids
begin

text \<open>
  The relay as a whole: the shared state, the open sessions, the TCP connections and the UDP
  tasks, and the events that move it. An event is one atomic step of one task: a request is
  handled whole, a session handles one frame, a proxy takes one branch of its \<open>select!\<close>.

  \<open>serve\<close> is the dispatch of the route table \<open>admin_routes\<close>; \<open>relay_step\<close> is the step
  function; \<open>reachable\<close> its reflexive and transitive closure from an initial state. The
  locale \<open>system_rel\<close> is the contract of the parts: a relation that each of them respects
  holds between the initial state and every reachable one.
\<close>

section \<open>Requests\<close>

datatype call =
    ServeAdminPage
  | ServeClaimPage string
  | ClaimAgent string headers
  | Register auth_request
  | Login auth_request
  | GetMe headers
  | Logout headers
  | AdminLogin string
  | AdminListUsers headers
  | AdminBanUser string headers
  | AdminUnbanUser string headers
  | ListAgents headers
  | GenerateAgentToken headers
  | DeleteAgent string
  | ListTunnels headers
  | CreateTunnel headers create_tunnel_request
  | DeleteTunnel string
  | UpdateTunnel string update_tunnel_request
  | ToggleTunnel string
  | GetLiveStats
  | GetLauncherSh script_query headers
  | GetLauncherBat script_query headers

fun serve :: "ext \<Rightarrow> call \<Rightarrow> handler" where
  "serve x ServeAdminPage = serve_admin_page"
| "serve x (ServeClaimPage code) = serve_claim_page"
| "serve x (ClaimAgent code h) = claim_agent x code h"
| "serve x (Register b) = register x b"
| "serve x (Login b) = login x b"
| "serve x (GetMe h) = get_me x h"
| "serve x (Logout h) = logout x h"
| "serve x (AdminLogin pw) = admin_login x pw"
| "serve x (AdminListUsers h) = admin_list_users x h"
| "serve x (AdminBanUser i h) = admin_ban_user x i h"
| "serve x (AdminUnbanUser i h) = admin_unban_user x i h"
| "serve x (ListAgents h) = list_agents x h"
| "serve x (GenerateAgentToken h) = generate_agent_token x h"
| "serve x (DeleteAgent i) = delete_agent x i"
| "serve x (ListTunnels h) = list_tunnels x h"
| "serve x (CreateTunnel h b) = create_tunnel x h b"
| "serve x (DeleteTunnel i) = delete_tunnel x i"
| "serve x (UpdateTunnel i b) = update_tunnel x i b"
| "serve x (ToggleTunnel i) = toggle_tunnel x i"
| "serve x GetLiveStats = get_live_stats"
| "serve x (GetLauncherSh q h) = get_launcher_sh x q h"
| "serve x (GetLauncherBat q h) = get_launcher_bat x q h"

section \<open>The state and its events\<close>

record relay =
  app :: app_state
  sessions :: "nat \<rightharpoonup> ws_session"
  next_session :: nat
  tcp_conns :: "nat \<rightharpoonup> tcp_conn"
  next_conn :: nat
  udp_tasks :: "nat \<rightharpoonup> udp_task"

definition start_relay :: "app_state \<Rightarrow> relay" where
  "start_relay s = \<lparr>app = s, sessions = Map.empty, next_session = 0, tcp_conns = Map.empty,
     next_conn = 0, udp_tasks = Map.empty\<rparr>"

datatype event =
    Connect
  | Frame nat ws_frame
  | SendMessage nat bool
  | Request call
  | LoopHead nat
  | Accept nat accept_result
  | ClientRead nat client_read
  | ClientWrite nat bool
  | UdpRecv nat "(socket_addr \<times> bytes) option"
  | UdpRegister nat uuid
  | UdpForward nat uuid
  | UdpDeliver nat

definition on_connect :: "relay \<Rightarrow> relay" where
  "on_connect r = (case (open_socket :: (app_state, ws_session, unit) prog) (app r) of
      (Ok sess, s) \<Rightarrow> r\<lparr>app := s, sessions := (sessions r)(next_session r \<mapsto> sess),
                       next_session := next_session r + 1\<rparr>
    | (_, s) \<Rightarrow> r\<lparr>app := s\<rparr>)"

text \<open>A panic ends the session's task without its clean-up.\<close>

definition on_session :: "ext \<Rightarrow> nat \<Rightarrow> ws_frame \<Rightarrow> relay \<Rightarrow> relay" where
  "on_session x n f r = (case sessions r n of
      None \<Rightarrow> r
    | Some sess \<Rightarrow> (case (on_frame x sess f :: (app_state, ws_session option, unit) prog) (app r) of
          (Ok sess', s) \<Rightarrow> r\<lparr>app := s, sessions := (sessions r)(n := sess')\<rparr>
        | (_, s) \<Rightarrow> r\<lparr>app := s, sessions := (sessions r)(n := None)\<rparr>))"

definition on_accept :: "nat \<Rightarrow> accept_result \<Rightarrow> relay \<Rightarrow> relay" where
  "on_accept h a r = (case tcp_accept h a (app r) of
      (None, s) \<Rightarrow> r\<lparr>app := s\<rparr>
    | (Some k, s) \<Rightarrow> r\<lparr>app := s, tcp_conns := (tcp_conns r)(next_conn r \<mapsto> k),
                      next_conn := next_conn r + 1\<rparr>)"

definition on_conn ::
  "nat \<Rightarrow> (tcp_conn \<Rightarrow> app_state \<Rightarrow> tcp_conn \<times> app_state) \<Rightarrow> relay \<Rightarrow> relay" where
  "on_conn n f r = (case tcp_conns r n of
      None \<Rightarrow> r
    | Some k \<Rightarrow> (case f k (app r) of (k', s) \<Rightarrow> r\<lparr>app := s, tcp_conns := (tcp_conns r)(n \<mapsto> k')\<rparr>))"

text \<open>The task of a UDP listener starts with empty maps.\<close>

definition udp_task_of :: "relay \<Rightarrow> nat \<Rightarrow> udp_task option" where
  "udp_task_of r h = (case udp_tasks r h of
      Some u \<Rightarrow> Some u
    | None \<Rightarrow> (case listeners (app r) h of
        Some l \<Rightarrow> (if l_proto l = Udp then Some (new_udp_task h l) else None)
      | None \<Rightarrow> None))"

definition on_udp ::
  "nat \<Rightarrow> (udp_task \<Rightarrow> app_state \<Rightarrow> udp_task \<times> app_state) \<Rightarrow> relay \<Rightarrow> relay" where
  "on_udp h f r = (case udp_task_of r h of
      None \<Rightarrow> r
    | Some u \<Rightarrow> (case f u (app r) of (u', s) \<Rightarrow> r\<lparr>app := s, udp_tasks := (udp_tasks r)(h \<mapsto> u')\<rparr>))"

fun relay_step :: "ext \<Rightarrow> event \<Rightarrow> relay \<Rightarrow> relay" where
  "relay_step x Connect r = on_connect r"
| "relay_step x (Frame n f) r = on_session x n f r"
| "relay_step x (SendMessage ch sent) r = r\<lparr>app := snd (send_task_step x ch sent (app r))\<rparr>"
| "relay_step x (Request c) r = r\<lparr>app := snd (serve x c (app r))\<rparr>"
| "relay_step x (LoopHead h) r = r\<lparr>app := loop_head h (app r)\<rparr>"
| "relay_step x (Accept h a) r = on_accept h a r"
| "relay_step x (ClientRead n i) r = on_conn n (tcp_read x i) r"
| "relay_step x (ClientWrite n ok) r = on_conn n (tcp_deliver ok) r"
| "relay_step x (UdpRecv h d) r = on_udp h (udp_recv x d) r"
| "relay_step x (UdpRegister h i) r = on_udp h (udp_register i) r"
| "relay_step x (UdpForward h i) r = on_udp h (udp_forward i) r"
| "relay_step x (UdpDeliver h) r = on_udp h udp_deliver r"

inductive reachable :: "ext \<Rightarrow> relay \<Rightarrow> relay \<Rightarrow> bool" for x where
  here: "reachable x r r"
| step: "reachable x r u \<Longrightarrow> reachable x r (relay_step x e u)"

inductive_cases reachable_cases: "reachable x r t"

lemma reachable_run: "reachable x r (fold (relay_step x) es r)"
proof (induction es rule: rev_induct)
  case (snoc e es)
  then show ?case by (auto intro: reachable.step)
qed (simp add: reachable.here)

text \<open>The proxies and the sending task change nothing of the database but the draws.\<close>

definition proxy_db :: "app_state \<Rightarrow> app_state \<Rightarrow> bool" where
  "proxy_db s t \<longleftrightarrow> db t = db s \<or> db t = db (snd (draw_uuid s))"

lemma set_status_db [simp]: "db (set_status h st s) = db s"
  by (simp add: set_status_def split: option.split)

lemma proxy_steps_db:
  "db (snd (send_task_step x ch ok s)) = db s" "db (loop_head h s) = db s"
  "proxy_db s (snd (tcp_accept h a s))" "db (snd (tcp_read x i k s)) = db s"
  "db (snd (tcp_deliver ok k s)) = db s" "proxy_db s (snd (udp_recv x d u s))"
  "db (snd (udp_register c u s)) = db s" "db (snd (udp_forward c u s)) = db s"
  "db (snd (udp_deliver u s)) = db s"
proof -
  show "db (snd (send_task_step x ch ok s)) = db s"
    by (simp add: send_task_step_def Let_def split: option.split list.split)
  show "db (loop_head h s) = db s" by (simp add: loop_head_def split: option.split)
  show "proxy_db s (snd (tcp_accept h a s))"
    by (simp add: proxy_db_def tcp_accept_def send_relay_post Let_def split_def
        split: option.split accept_result.split)
  show "db (snd (tcp_read x i k s)) = db s"
    by (simp add: tcp_read_def send_relay_post Let_def split: client_read.split)
  show "db (snd (tcp_deliver ok k s)) = db s"
    by (simp add: tcp_deliver_def Let_def split: option.split list.split)
  show "proxy_db s (snd (udp_recv x d u s))"
  proof (cases d)
    case None
    then show ?thesis by (simp add: proxy_db_def udp_recv_def)
  next
    case (Some p)
    then show ?thesis
      by (cases p; cases "addr_to_conn u (fst p)")
        (simp_all add: proxy_db_def udp_recv_def udp_conn_for_def Let_def split_def new_data_chan_def)
  qed
  show "db (snd (udp_register c u s)) = db s"
    by (simp add: udp_register_def split: option.split bool.split prod.split)
  show "db (snd (udp_forward c u s)) = db s"
    by (simp add: udp_forward_def split: option.split bool.split prod.split list.split)
  show "db (snd (udp_deliver u s)) = db s"
    by (simp add: udp_deliver_def Let_def split: option.split list.split prod.split)
qed

section \<open>Relations of the whole relay\<close>

text \<open>The contract of the parts: each session handler and each proxy step respects the relation.\<close>

locale system_rel = handler_rel +
  assumes create_R: "obeys R (create_tunnel x hdrs cb)"
    and update_R: "obeys R (update_tunnel x ti ub)"
    and open_R: "obeys R (open_socket :: (app_state, ws_session, unit) prog)"
    and frame_R: "obeys R (on_frame x sess fr :: (app_state, ws_session option, unit) prog)"
    and send_R: "R s (snd (send_task_step x ch ok s))"
    and head_R: "R s (loop_head lh s)"
    and accept_R: "R s (snd (tcp_accept lh ar s))"
    and read_R: "R s (snd (tcp_read x cr tk s))"
    and deliver_R: "R s (snd (tcp_deliver ok tk s))"
    and udp_recv_R: "R s (snd (udp_recv x dg u s))"
    and udp_other_R: "R s (snd (udp_register c u s))" "R s (snd (udp_forward c u s))"
      "R s (snd (udp_deliver u s))"
begin

lemma serve_R: "obeys R (serve x c)"
  by (cases c)
    (simp_all add: auth_handlers admin_handlers claim_agent_R agent_handlers update_R
      toggle_tunnel_R delete_tunnel_R script_handlers create_R)

lemma on_connect_R: "R (app r) (app (on_connect r))"
  using obeys_snd [OF open_R, of "app r"]
  by (auto simp: on_connect_def split: prod.splits result.splits)

lemma on_session_R: "R (app r) (app (on_session x n f r))"
proof (cases "sessions r n")
  case (Some sess)
  then show ?thesis using obeys_snd [OF frame_R [where x = x and sess = sess and fr = f], of "app r"]
    by (auto simp: on_session_def split: prod.splits result.splits)
qed (simp add: on_session_def R_refl)

lemma on_conn_R: "(\<And>k s. R s (snd (f k s))) \<Longrightarrow> R (app r) (app (on_conn n f r))"
  by (cases "tcp_conns r n") (simp_all add: on_conn_def R_refl split_def)

lemma on_udp_R: "(\<And>u s. R s (snd (f u s))) \<Longrightarrow> R (app r) (app (on_udp h f r))"
  by (cases "udp_task_of r h") (simp_all add: on_udp_def R_refl split_def)

lemma on_accept_R: "R (app r) (app (on_accept h a r))"
  using accept_R [where s = "app r" and lh = h and ar = a] by (auto simp: on_accept_def split: prod.splits option.splits)

lemma relay_step_R: "R (app r) (app (relay_step x e r))"
  by (cases e)
    (simp_all add: on_connect_R on_session_R send_R obeys_snd [OF serve_R] head_R on_accept_R
      on_conn_R read_R deliver_R on_udp_R udp_recv_R udp_other_R)

lemma reachable_R: "reachable x r t \<Longrightarrow> R (app r) (app t)"
  by (induction rule: reachable.induct) (auto intro: R_refl R_trans relay_step_R)

end

section \<open>The invariants of the parts, for the whole\<close>

lemma open_socket_mem: "snd (open_socket s) = snd (new_relay_chan (snd (draw_uuid s)))"
  by (simp add: open_socket_def)

lemma open_socket_db: "db (snd (open_socket s)) = db (snd (draw_uuid s))"
  by (simp add: open_socket_mem new_relay_chan_frame)

lemma send_task_lis: "lis_step s (snd (send_task_step x ch ok s))"
  by (rule lis_same) (simp_all add: send_task_step_def Let_def split: option.split list.split)

lemma tcp_lis: "lis_step s (snd (tcp_read x i k s))" "lis_step s (snd (tcp_deliver ok k s))"
  by (rule lis_same; simp add: tcp_read_def tcp_deliver_def send_relay_post Let_def
      split: client_read.split option.split list.split)+

lemma open_socket_lis: "obeys lis_step open_socket"
  by (rule obeysI) (simp add: open_socket_mem new_relay_chan_frame lis_same)

interpretation sys_lis: system_rel lis_step
  by unfold_locales
    (rule web_lis.create_tunnel_R web_lis.update_tunnel_R open_socket_lis on_frame_lis send_task_lis loop_head_lis
      tcp_accept_lis tcp_lis udp_recv_lis udp_register_lis udp_forward_lis udp_deliver_lis)+

context db_rel begin

lemma app_R_draw: "obeys R (new_v4 :: (conn, uuid, unit) prog) \<Longrightarrow> app_R s (snd (draw_uuid s))"
  using obeysD [OF on_db_step draw_uuid_new_v4] by blast

lemma app_R_proxy:
  "obeys R (new_v4 :: (conn, uuid, unit) prog) \<Longrightarrow> proxy_db s t \<Longrightarrow> app_R s t"
  using app_R_draw [of s] by (auto simp: proxy_db_def app_R_def R_refl)

lemma app_R_open:
  "obeys R (new_v4 :: (conn, uuid, unit) prog) \<Longrightarrow>
    obeys app_R (open_socket :: (app_state, ws_session, unit) prog)"
  by (rule obeysI) (use app_R_draw in \<open>simp add: app_R_def open_socket_db\<close>)

lemmas app_R_proxies = proxy_steps_db(1,2,4,5,7,8,9) [THEN app_R_mem]
  app_R_proxy [OF _ proxy_steps_db(3)] app_R_proxy [OF _ proxy_steps_db(6)]

end

interpretation sys_wf: system_rel app_wf.app_R
  by unfold_locales
    (rule web_wf.create_tunnel_R web_wf.update_tunnel_R app_wf.app_R_open ws_wf.on_frame_step app_wf.app_R_proxies
      ws_wf.new_v4_obeys)+

interpretation sys_refs: system_rel app_refs.app_R
  by unfold_locales
    (rule web_refs.create_tunnel_R web_refs.update_tunnel_R app_refs.app_R_open ws_refs.on_frame_step app_refs.app_R_proxies
      ws_refs.new_v4_obeys)+

interpretation sys_world: system_rel app_world.app_R
  by unfold_locales
    (rule web_world.create_tunnel_R web_world.update_tunnel_R app_world.app_R_open ws_world.on_frame_step
      app_world.app_R_proxies ws_world.new_v4_obeys)+

interpretation sys_draws: system_rel app_draws.app_R
  by unfold_locales
    (rule web_draws.create_tunnel_R web_draws.update_tunnel_R app_draws.app_R_open ws_draws.on_frame_step
      app_draws.app_R_proxies ws_draws.new_v4_obeys)+

interpretation sys_owner: system_rel owner.app_R
  by unfold_locales
    (rule create_tunnel_owner_step owner.editing.update_tunnel_R owner.app_R_open owner.on_frame_step owner.app_R_proxies
      owner.new_v4_obeys)+

interpretation sys_zeros: system_rel zeros.app_R
  by unfold_locales
    (rule create_tunnel_zeros_step zeros.editing.update_tunnel_R zeros.app_R_open zeros.on_frame_step zeros.app_R_proxies
      zeros.new_v4_obeys)+

end
