(* ===== verification/Sample.thy ===== *)
theory Sample
  imports Relay_System
begin

text \<open>
  A concrete outside world and a small relay state, on which the properties are applied.

  \<open>sample_ext\<close> has the hyphenated lower-case text form of UUIDs and its parser, a payload
  codec, plain header values and six texts that stand for agent messages. \<open>sample_conn\<close> is a
  database with two users, an agent of the first user with two tunnels, and an unclaimed agent;
  its randomness is the sequence 100, 101, and so on.
\<close>

section \<open>Text of identifiers\<close>

definition hex32 :: "uuid \<Rightarrow> string" where
  "hex32 u = pad_zeros 32 (fmt_hex (unat u))"

definition hyphenate :: "string \<Rightarrow> string" where
  "hyphenate h = take 8 h @ ''-'' @ take 4 (drop 8 h) @ ''-'' @ take 4 (drop 12 h) @ ''-''
     @ take 4 (drop 16 h) @ ''-'' @ drop 20 h"

definition uuid_text :: "uuid \<Rightarrow> string" where
  "uuid_text u = hyphenate (hex32 u)"

definition hex_digits :: "char set" where
  "hex_digits = set ''0123456789abcdef''"

definition uuid_parse :: "string \<Rightarrow> uuid option" where
  "uuid_parse s = (let h = remove_dashes s in
     if length h = 32 \<and> s = hyphenate h \<and> list_all (\<lambda>c. c \<in> hex_digits) h
     then Some (of_nat (parse_radix 16 h)) else None)"

lemma hex_digit_chars: "digit_char ` {..<16} = hex_digits"
proof -
  have "digit_char ` set [0..<16] = hex_digits" by code_simp
  then show ?thesis by (simp add: atLeast0LessThan)
qed

lemma hex_digits_facts: "CHR ''0'' \<in> hex_digits" "CHR ''-'' \<notin> hex_digits"
  by code_simp+

lemma set_hex32: "set (hex32 u) \<subseteq> hex_digits"
proof -
  have "set (fmt_hex (unat u)) \<subseteq> hex_digits"
    using set_fmt_radix [of 16 "unat u"] by (simp add: hex_digit_chars)
  then show ?thesis
    unfolding hex32_def using set_pad_zeros [of 32 "fmt_hex (unat u)"] hex_digits_facts(1) by blast
qed

lemma length_hex32: "length (hex32 u) = 32"
proof -
  have "unat u < 16 ^ 32" using unsigned_less [of u] by simp
  then have "length (fmt_hex (unat u)) \<le> 32" by (intro length_fmt_radix) simp_all
  then show ?thesis unfolding hex32_def by (rule length_pad_zeros)
qed

lemma remove_dashes_append: "remove_dashes (a @ b) = remove_dashes a @ remove_dashes b"
  by (simp add: remove_dashes_def)

lemma remove_dashes_id: "set s \<subseteq> hex_digits \<Longrightarrow> remove_dashes s = s"
  unfolding remove_dashes_def by (rule filter_True) (use hex_digits_facts(2) in blast)

lemma remove_hyphens:
  assumes h: "set h \<subseteq> hex_digits"
  shows "remove_dashes (hyphenate h) = h"
proof -
  have d: "set (drop m h) \<subseteq> hex_digits" for m using set_drop_subset [of m h] h by (rule subset_trans)
  have t: "remove_dashes (take n (drop m h)) = take n (drop m h)" for n m
    by (rule remove_dashes_id) (rule subset_trans [OF set_take_subset d])
  have t8: "remove_dashes (take 8 h) = take 8 h"
    by (rule remove_dashes_id) (rule subset_trans [OF set_take_subset h])
  have t20: "remove_dashes (drop 20 h) = drop 20 h" by (rule remove_dashes_id) (rule d)
  have e: "remove_dashes ''-'' = []" by (simp add: remove_dashes_def)
  have a: "take 4 (drop n h) @ drop (4 + n) h = drop n h" for n
    using append_take_drop_id [of 4 "drop n h"] by simp
  have "remove_dashes (hyphenate h) = take 8 h @ take 4 (drop 8 h) @ take 4 (drop 12 h)
      @ take 4 (drop 16 h) @ drop 20 h"
    unfolding hyphenate_def by (simp only: remove_dashes_append t t8 t20 e append_Nil)
  also have "\<dots> = h"
    using a [of 16] a [of 12] a [of 8] by simp
  finally show ?thesis .
qed

lemma uuid_parse_text: "uuid_parse (uuid_text u) = Some u"
proof -
  have "parse_radix 16 (hex32 u) = unat u"
    by (simp add: hex32_def parse_pad_zeros parse_fmt_radix)
  moreover have "list_all (\<lambda>c. c \<in> hex_digits) (hex32 u)"
    using set_hex32 [of u] by (auto simp: list_all_iff)
  ultimately show ?thesis
    by (simp add: uuid_parse_def uuid_text_def remove_hyphens [OF set_hex32] length_hex32 Let_def)
qed

section \<open>The sample outside world\<close>

definition text_of_bytes :: "bytes \<Rightarrow> string" where
  "text_of_bytes bs = map (\<lambda>b. char_of (unat b)) bs"

definition bytes_of_text :: "string \<Rightarrow> bytes option" where
  "bytes_of_text s = Some (map of_char s)"

definition sample_ext :: ext where
  "sample_ext =
     \<lparr>uuid_to_string = uuid_text, uuid_parse_str = uuid_parse,
      base64_encode = text_of_bytes, base64_decode = bytes_of_text,
      json_agent_message = (\<lambda>s. if s = ''ping'' then Some Ping
        else if s = ''claim'' then Some (RequestClaim ''laptop'')
        else if s = ''auth'' then Some (Auth ''tk_one'' ''home'')
        else if s = ''pending'' then Some (Auth ''tk_two'' ''desktop'')
        else if s = ''data'' then Some (AgentData 101 ''hi'')
        else if s = ''close'' then Some (AgentCloseConnection 101)
        else None),
      json_relay_message = (\<lambda>m. Some ''message''),
      header_to_str = Some,
      show_db_error = (\<lambda>e. ''error'')\<rparr>"

lemma sample_uuid_text: "uuid_text_ok sample_ext"
  by (simp add: uuid_text_ok_def sample_ext_def uuid_parse_text)

lemma sample_uuid_graphic: "uuid_text_graphic sample_ext"
proof -
  have digits: "\<forall>c \<in> hex_digits. (33::nat) \<le> of_char c \<and> (of_char c :: nat) \<le> 126"
    by (simp add: hex_digits_def)
  have "set (uuid_text u) \<subseteq> insert (CHR ''-'') (set (hex32 u))" for u
    by (auto simp: uuid_text_def hyphenate_def dest: in_set_takeD in_set_dropD)
  then have "set (uuid_text u) \<subseteq> insert (CHR ''-'') hex_digits" for u
    using set_hex32 [of u] by blast
  then show ?thesis
    unfolding uuid_text_graphic_def graphic_def sample_ext_def using digits by fastforce
qed

lemma char_roundtrip: "of_char (char_of (unat (b :: u8))) = b"
proof -
  have "unat b < 2 ^ 8" using unsigned_less [of b] by simp
  then have "of_char (char_of (unat b)) = unat b" by (simp add: take_bit_nat_eq_self)
  then have "(of_nat (of_char (char_of (unat b)) :: nat) :: u8) = b" by simp
  then show ?thesis by (simp only: of_nat_of_char)
qed

lemma sample_base64: "base64_ok sample_ext"
  by (simp add: base64_ok_def sample_ext_def text_of_bytes_def bytes_of_text_def comp_def char_roundtrip)

section \<open>The sample tables\<close>

lemma uuid_text_eq [simp]: "uuid_text u = uuid_text v \<longleftrightarrow> u = v"
  by (metis option.inject uuid_parse_text)

lemma sample_ext_simps [simp]:
  "uuid_to_string sample_ext = uuid_text" "uuid_parse_str sample_ext (uuid_text u) = Some u"
  "base64_encode sample_ext = text_of_bytes" "base64_decode sample_ext = bytes_of_text"
  "header_to_str sample_ext = Some" "show_db_error sample_ext = (\<lambda>e. ''error'')"
  by (simp_all add: sample_ext_def uuid_parse_text)

definition alice :: user_row where
  "alice = \<lparr>ur_id = uuid_text 1, ur_username = ''alice'', ur_dedicated_port = 20001,
     ur_is_banned = False, ur_created_at = 10, ur_password_hash = ''a1''\<rparr>"

definition bob :: user_row where
  "bob = \<lparr>ur_id = uuid_text 2, ur_username = ''bob'', ur_dedicated_port = 20002,
     ur_is_banned = False, ur_created_at = 20, ur_password_hash = ''b2''\<rparr>"

definition laptop :: agent_record where
  "laptop = \<lparr>ar_id = uuid_text 11, ar_user_id = Some (uuid_text 1), ar_token = ''tk_one'',
     ar_claim_code = None, ar_name = ''laptop'', ar_created_at = 30, ar_last_seen = 30,
     ar_is_online = False\<rparr>"

definition desktop :: agent_record where
  "desktop = \<lparr>ar_id = uuid_text 12, ar_user_id = None, ar_token = ''tk_two'',
     ar_claim_code = Some ''123456'', ar_name = ''desktop'', ar_created_at = 40,
     ar_last_seen = 40, ar_is_online = False\<rparr>"

definition blog :: tunnel_row where
  "blog = \<lparr>t_id = uuid_text 21, t_agent_id = uuid_text 11, t_user_id = Some (uuid_text 1),
     t_name = ''blog'', t_local_port = 3000, t_protocol = ''tcp'', t_public_port = 20001,
     t_subdomain = Some ''blog'', t_enabled = True, t_bytes_in = SqlInt 0, t_bytes_out = SqlInt 0,
     t_created_at = 50\<rparr>"

definition game :: tunnel_row where
  "game = \<lparr>t_id = uuid_text 22, t_agent_id = uuid_text 11, t_user_id = Some (uuid_text 1),
     t_name = ''game'', t_local_port = 4000, t_protocol = ''udp'', t_public_port = 20001,
     t_subdomain = None, t_enabled = False, t_bytes_in = SqlInt 0, t_bytes_out = SqlInt 0,
     t_created_at = 60\<rparr>"

lemmas sample_rows = alice_def bob_def laptop_def desktop_def blog_def game_def

definition sample_tables :: tables where
  "sample_tables = \<lparr>users = [alice, bob], agents = [laptop, desktop], tunnels = [blog, game]\<rparr>"

definition sample_conn :: conn where
  "sample_conn = \<lparr>tabs = sample_tables,
     host_of = \<lparr>entropy = (\<lambda>n. of_nat (100 + n)), draws = 0, clock = (\<lambda>n. 1700000000 + int n),
                ticks = 0, io_failure = (\<lambda>n. None), stmts = 0\<rparr>,
     fk_enforced = True\<rparr>"

lemma sample_conn_simps [simp]:
  "tabs sample_conn = sample_tables" "fk_enforced sample_conn" "draws (host_of sample_conn) = 0"
  "entropy (host_of sample_conn) n = of_nat (100 + n)"
  by (simp_all add: sample_conn_def)

lemma sample_reliable [simp]: "reliable sample_conn" "clock_ok sample_conn"
  by (simp_all add: reliable_def clock_ok_def sample_conn_def)

lemma sample_tables_simps [simp]:
  "users sample_tables = [alice, bob]" "agents sample_tables = [laptop, desktop]"
  "tunnels sample_tables = [blog, game]"
  by (simp_all add: sample_tables_def)

lemma sample_tables_wf [simp]: "tables_wf sample_tables"
  by (simp add: tables_wf_def sample_rows)

lemma sample_refs_wf [simp]: "refs_wf sample_tables"
  by (simp add: refs_wf_def user_ref_ok_def sample_rows)

lemma sample_port_owner [simp]: "port_owner sample_tables"
  by (simp add: port_owner_def sample_rows)

lemma sample_counters_zero [simp]: "counters_zero sample_tables"
  by (simp add: counters_zero_def sample_rows)

lemma sample_subdomains [simp]: "subdomains_unique sample_tables"
  by (simp add: subdomains_unique_def same_subdomain_def sample_rows)

section \<open>The sample state\<close>

text \<open>
  \<open>sample_start\<close> is a relay that has just been started on the sample database. In
  \<open>sample_app\<close> two agents' channels are open, the laptop is connected on channel 1, the
  desktop's session waits for its claim on channel 0, both users and the administrator are
  logged in.
\<close>

definition sample_start :: app_state where
  "sample_start = new_app_state sample_conn (20000, 20010) (\<lambda>n. None)"

definition sample_app :: app_state where
  "sample_app = sample_start\<lparr>
     user_sessions := [''usr_a'' \<mapsto> uuid_text 1, ''usr_b'' \<mapsto> uuid_text 2],
     admin_sessions := {''adm_x''}, agent_senders := [11 \<mapsto> 1], pending_claims := [''123456'' \<mapsto> 0],
     relay_chans := [0 \<mapsto> \<lparr>rq = [], r_open = True\<rparr>, 1 \<mapsto> \<lparr>rq = [], r_open = True\<rparr>],
     next_relay_chan := 2\<rparr>"

lemma sample_start_simps [simp]:
  "db sample_start = sample_conn" "port_range sample_start = (20000, 20010)"
  "allocated_ports sample_start = {}" "user_sessions sample_start = Map.empty"
  "agent_senders sample_start = Map.empty" "listeners sample_start = Map.empty"
  "tunnel_tasks sample_start = Map.empty" "tcp_conn_senders sample_start = Map.empty"
  "data_chans sample_start = Map.empty"
  by (simp_all add: sample_start_def new_app_state_def)

lemma sample_app_simps [simp]:
  "db sample_app = sample_conn" "port_range sample_app = (20000, 20010)"
  "allocated_ports sample_app = {}"
  "user_sessions sample_app = [''usr_a'' \<mapsto> uuid_text 1, ''usr_b'' \<mapsto> uuid_text 2]"
  "admin_sessions sample_app = {''adm_x''}" "agent_senders sample_app = [11 \<mapsto> 1]"
  "pending_claims sample_app = [''123456'' \<mapsto> 0]" "listeners sample_app = Map.empty"
  "tunnel_tasks sample_app = Map.empty" "tcp_conn_senders sample_app = Map.empty"
  "data_chans sample_app = Map.empty"
  "relay_chans sample_app = [0 \<mapsto> \<lparr>rq = [], r_open = True\<rparr>, 1 \<mapsto> \<lparr>rq = [], r_open = True\<rparr>]"
  by (simp_all add: sample_app_def)

lemma sample_lis [simp]: "listeners_wf sample_start" "listeners_wf sample_app"
  by (simp_all add: listeners_wf_def)

definition as_alice :: headers where
  "as_alice = [''authorization'' \<mapsto> ''Bearer usr_a'']"

definition as_admin :: headers where
  "as_admin = [''x-session-token'' \<mapsto> ''adm_x'']"

lemma trim_tokens: "str_trim ''usr_a'' = ''usr_a''" "str_trim ''adm_x'' = ''adm_x''"
  by code_simp+

lemma sample_sessions [simp]:
  "get_current_user_id sample_ext as_alice sample_app = Some (uuid_text 1)"
  "is_admin sample_ext as_admin sample_app" "get_current_user_id sample_ext as_admin sample_app = None"
  "\<not> is_admin sample_ext as_alice sample_app"
  by (simp_all add: get_current_user_id_def is_admin_def extract_token_def as_alice_def as_admin_def
    trim_tokens)

lemma sample_lookups [simp]:
  "lookup_by ur_id (uuid_text 1) [alice, bob] = Some alice"
  "lookup_by ur_id (uuid_text 2) [alice, bob] = Some bob"
  "lookup_by ar_token ''tk_one'' [laptop, desktop] = Some laptop"
  "lookup_by ar_token ''tk_two'' [laptop, desktop] = Some desktop"
  "lookup_by t_id (uuid_text 21) [blog, game] = Some blog"
  "lookup_by t_id (uuid_text 22) [blog, game] = Some game"
  by (simp_all add: lookup_by_def sample_rows)

end
