(* ===== verification/Subdomains.thy ===== *)
theory Subdomains
  imports Relay_System
begin

text \<open>
  Unique subdomains, for every event of the relay.

  Creating and updating a tunnel check the wanted subdomain first
  (\<open>src/admin.rs\<close>), so the invariant holds as long as the database answers; \<open>is_subdomain_taken\<close>
  failing counts as "free", hence the condition \<open>reliable\<close>. The relation \<open>subs_step\<close> says that a
  step keeps the invariant under this condition; the system contract is discharged for it.
\<close>

definition subs_step :: "conn \<Rightarrow> conn \<Rightarrow> bool" where
  "subs_step c d \<longleftrightarrow> same_world c d
     \<and> (reliable c \<and> subdomains_unique (tabs c) \<longrightarrow> subdomains_unique (tabs d))"

interpretation subs_kept: step_rel subs_step
  by unfold_locales (auto simp: subs_step_def world.R_refl same_world_reliable intro: world.R_trans)

interpretation app_subs: db_rel subs_step
  by unfold_locales

lemma subs_of_inv: "obeys (inv_step subdomains_unique) m \<Longrightarrow> obeys same_world m \<Longrightarrow> obeys subs_step m"
  by (simp add: obeys_def subs_step_def inv_step_def)

lemma subs_of_tables: "obeys same_tables m \<Longrightarrow> obeys same_world m \<Longrightarrow> obeys subs_step m"
  by (rule subs_of_inv) (rule same_tables_inv)

interpretation ws_subs: agent_store subs_step
  by unfold_locales
    (intro subs_of_inv subs.claim_obeys subs.token_obeys subs.online_obeys subs.tunnels_obeys
      subs.new_v4_obeys steps)+

interpretation web_subs: handler_rel app_subs.app_R
  by unfold_locales
    (intro app_subs.on_db_step subs_of_inv subs.register_inv subs.ban_inv subs.agent_ops_inv
      subs.tunnel_ops_inv same_tables_inv steps ws_subs.start_step ws_subs.sync_step
      app_subs.app_R_mem stop_fields quiet_db; assumption)+

section \<open>Creating and updating\<close>

lemma created_unique:
  assumes "subdomains_unique t"
    and "\<And>c k. clean_subdomain (cr_subdomain b) = Some c \<Longrightarrow> k \<in> set (tunnels t) \<Longrightarrow> \<not> same_subdomain c k"
  shows "subdomains_unique (t\<lparr>tunnels := tunnels t @ [created_row b u i now]\<rparr>)"
  by (rule subdomains_unique_append [OF assms(1)]) (use assms(2) in \<open>simp add: created_row_def\<close>)

lemma create_tunnel_subs: "obeys app_subs.app_R (create_tunnel x h b)"
proof (rule obeysI)
  fix s
  let ?t = "snd (create_tunnel x h b s)"
  have w: "same_world (db s) (db ?t)"
    using obeys_snd [OF web_world.create_tunnel_R] by (simp add: app_world.app_R_def)
  have "subdomains_unique (tabs (db ?t))"
    if rel: "reliable (db s)" and u: "subdomains_unique (tabs (db s))"
    using create_tunnel_outcome [of b s x h] unfolding create_outcome_def
  proof (elim disjE exE conjE)
    fix v i now
    assume "reliable (db s) \<longrightarrow> sub_free (cr_subdomain b) s"
      and t: "tabs (db ?t) = (tabs (db s))\<lparr>tunnels := tunnels (tabs (db s)) @ [created_row b v i now]\<rparr>"
    with rel have "sub_free (cr_subdomain b) s" by blast
    then show ?thesis unfolding t
      by (intro created_unique [OF u]) (simp add: sub_free_def)
  qed (use u in simp)
  with w show "app_subs.app_R s ?t" by (simp add: app_subs.app_R_def subs_step_def)
qed

text \<open>An update the handler refuses has only read.\<close>

lemma update_tunnel_refused:
  assumes run: "update_tunnel x i b s = (r, t)" and no: "\<And>y. r \<noteq> Ok y" and rel: "reliable (db s)"
  shows "tabs (db t) = tabs (db s)"
proof -
  define rest :: "tunnel_record \<Rightarrow> handler" where "rest tn =
    and_then (map_err (db_error_500 x) (on_db (db_update_tunnel i (ut_name b)
      (ut_local_port b) (ut_protocol b) (clean_subdomain (ut_subdomain b))))) (\<lambda>_.
    and_then (resync_agent x (tr_agent_id tn)) (\<lambda>_. ret (200, Empty)))" for tn
  define pre :: "(app_state, tunnel_record, nat \<times> string) prog" where "pre =
    and_then (map_err (db_error_500 x) (on_db (get_tunnel_by_id i))) (\<lambda>found.
    and_then (ok_or (404, ''Tunnel not found'') found) (\<lambda>tn.
    and_then (check_free_subdomain i (clean_subdomain (ut_subdomain b))) (\<lambda>_. ret tn)))"
  have split: "update_tunnel x i b = and_then pre rest"
    by (simp add: update_tunnel_def pre_def rest_def and_then_assoc Let_def)
  have check: "obeys read_only (check_free_subdomain i c)" for c
    using free_check_run by (auto simp: obeys_def) (metis prod.collapse)
  have "obeys read_only pre"
    unfolding pre_def
    by (intro reading.rules check on_db_reading tunnel_query_steps)
  moreover obtain q u where p: "pre s = (q, u)" by (cases "pre s")
  ultimately have ro: "read_only s u" by (rule obeysD)
  have rest: "\<exists>v w. rest k u = (Ok v, w)" for k
  proof -
    have "\<exists>w. on_db (db_update_tunnel i (ut_name b) (ut_local_port b) (ut_protocol b)
        (clean_subdomain (ut_subdomain b))) u = (Ok (), w)"
      using read_only_fields(12) [OF ro] rel
      by (simp add: on_db_def db_update_tunnel_def reliable_exec)
    then obtain w where "on_db (db_update_tunnel i (ut_name b) (ut_local_port b) (ut_protocol b)
        (clean_subdomain (ut_subdomain b))) u = (Ok (), w)" ..
    then show ?thesis by (simp add: rest_def and_then_Ok map_err_Ok resync_run)
  qed
  have "t = u"
  proof (cases q)
    case (Ok k)
    with p rest [of k] run no show ?thesis by (auto simp: split and_then_Ok)
  qed (use p run in \<open>simp_all add: split and_then_def\<close>)
  then show ?thesis using read_only_fields(1) [OF ro] by simp
qed

lemma update_tunnel_subs: "obeys app_subs.app_R (update_tunnel x i b)"
proof (rule obeysI)
  fix s
  obtain r t where run: "update_tunnel x i b s = (r, t)" by (cases "update_tunnel x i b s")
  have w: "same_world (db s) (db t)"
    using obeysD [OF web_world.update_tunnel_R run] by (simp add: app_world.app_R_def)
  have "subdomains_unique (tabs (db t))"
    if rel: "reliable (db s)" and u: "subdomains_unique (tabs (db s))"
  proof (cases "\<exists>y. r = Ok y")
    case True
    then obtain y where ok: "update_tunnel x i b s = (Ok y, t)" using run by blast
    note st = update_tunnel_stored [OF ok rel]
    show ?thesis
      unfolding st(2)
      by (rule subdomains_unique_update [OF u, where sd = "clean_subdomain (ut_subdomain b)"])
        (use st(3) in auto)
  next
    case False
    then have "tabs (db t) = tabs (db s)" by (intro update_tunnel_refused [OF run _ rel]) blast
    with u show ?thesis by simp
  qed
  with w run show "app_subs.app_R s (snd (update_tunnel x i b s))"
    by (simp add: app_subs.app_R_def subs_step_def)
qed

interpretation sys_subs: system_rel app_subs.app_R
  by unfold_locales
    (rule create_tunnel_subs update_tunnel_subs app_subs.app_R_open ws_subs.on_frame_step
      app_subs.app_R_proxies ws_subs.new_v4_obeys)+

end
