(* ===== verification/Routing.thy ===== *)
theory Routing
  imports Relay_System
begin

text \<open>
  The invariant of the data paths of the whole relay: which connection a data channel belongs
  to. An \<open>owner\<close> is a TCP connection or one peer of a UDP task; \<open>owned\<close> gives its connection
  id, its data channel and whether its receiver is alive. \<open>routes\<close> is the abstract invariant,
  over owners, registered senders and live receivers only: channels and ids belong to one
  owner, and a registered sender leads to the live channel of the owner of that id.

  It holds in every reachable state in which the source of UUIDs has not repeated itself, and
  with it \<open>conns_wf\<close>, the hypothesis of the routing contract.
\<close>

section \<open>The abstract invariant\<close>

datatype owner = TcpOwner nat | UdpOwner nat uuid

type_synonym owners = "owner \<rightharpoonup> uuid \<times> nat \<times> bool"

definition routes ::
  "owners \<Rightarrow> (uuid \<rightharpoonup> nat) \<Rightarrow> (nat \<rightharpoonup> bool) \<Rightarrow> nat \<Rightarrow> (uuid \<Rightarrow> bool) \<Rightarrow> bool" where
  "routes own reg rx nxt drw \<longleftrightarrow>
     (\<forall>q i ch a. own q = Some (i, ch, a) \<longrightarrow> drw i \<and> ch < nxt \<and> (a \<longrightarrow> rx ch = Some True))
   \<and> (\<forall>q i ch a q' i' ch' a'. own q = Some (i, ch, a) \<and> own q' = Some (i', ch', a')
        \<and> (i = i' \<or> ch = ch') \<longrightarrow> q = q')
   \<and> (\<forall>i ch. reg i = Some ch \<longrightarrow> (\<exists>q. own q = Some (i, ch, True)))
   \<and> (\<forall>ch b. rx ch = Some b \<longrightarrow> ch < nxt)"

lemma routesD:
  assumes "routes own reg rx nxt drw"
  shows "own q = Some (i, ch, a) \<Longrightarrow> drw i" "own q = Some (i, ch, a) \<Longrightarrow> ch < nxt"
    "own q = Some (i, ch, a) \<Longrightarrow> a \<Longrightarrow> rx ch = Some True"
    "own q = Some (i, ch, a) \<Longrightarrow> own q' = Some (i, ch', a') \<Longrightarrow> q = q'"
    "own q = Some (i, ch, a) \<Longrightarrow> own q' = Some (i', ch, a') \<Longrightarrow> q = q'"
    "reg i = Some ch \<Longrightarrow> \<exists>q. own q = Some (i, ch, True)"
    "rx ch = Some b \<Longrightarrow> ch < nxt"
  using assms unfolding routes_def by blast+

lemma routesI:
  assumes "\<And>q i ch a. own q = Some (i, ch, a) \<Longrightarrow> drw i \<and> ch < nxt \<and> (a \<longrightarrow> rx ch = Some True)"
    and "\<And>q i ch a q' i' ch' a'. own q = Some (i, ch, a) \<Longrightarrow> own q' = Some (i', ch', a') \<Longrightarrow>
      i = i' \<or> ch = ch' \<Longrightarrow> q = q'"
    and "\<And>i ch. reg i = Some ch \<Longrightarrow> \<exists>q. own q = Some (i, ch, True)"
    and "\<And>ch b. rx ch = Some b \<Longrightarrow> ch < nxt"
  shows "routes own reg rx nxt drw"
  unfolding routes_def using assms by blast

lemma routes_drawn: "routes own reg rx nxt drw \<Longrightarrow> (\<And>i. drw i \<Longrightarrow> drw' i) \<Longrightarrow> routes own reg rx nxt drw'"
  unfolding routes_def by blast

lemma routes_reg:
  assumes wf: "routes own reg rx nxt drw"
    and reg: "\<And>i ch. reg' i = Some ch \<Longrightarrow> reg i = Some ch \<or> (\<exists>q. own q = Some (i, ch, True))"
  shows "routes own reg' rx nxt drw"
proof (rule routesI)
  note D = routesD [OF wf]
  show "own q = Some (i, ch, a) \<Longrightarrow> drw i \<and> ch < nxt \<and> (a \<longrightarrow> rx ch = Some True)" for q i ch a
    using D(1) [of q i ch a] D(2) [of q i ch a] D(3) [of q i ch a] by blast
  show "own q = Some (i, ch, a) \<Longrightarrow> own q' = Some (i', ch', a') \<Longrightarrow> i = i' \<or> ch = ch' \<Longrightarrow> q = q'"
    for q i ch a q' i' ch' a' using D(4,5) by blast
  show "reg' i = Some ch \<Longrightarrow> \<exists>q. own q = Some (i, ch, True)" for i ch using D(6) reg by blast
  show "rx ch = Some b \<Longrightarrow> ch < nxt" for ch b using D(7) by blast
qed

lemma routes_unlink: "routes own reg rx nxt drw \<Longrightarrow> routes own (reg(i := None)) rx nxt drw"
  by (erule routes_reg) (simp split: if_splits)

lemma routes_link:
  "routes own reg rx nxt drw \<Longrightarrow> own q = Some (i, ch, True) \<Longrightarrow> routes own (reg(i \<mapsto> ch)) rx nxt drw"
  by (erule routes_reg) (auto split: if_splits)

lemma routes_new:
  assumes wf: "routes own reg rx nxt drw" and none: "own q = None" and new: "\<not> drw i"
    and drw: "\<And>j. drw j \<Longrightarrow> drw' j" "drw' i"
  shows "routes (own(q \<mapsto> (i, nxt, True))) reg (rx(nxt \<mapsto> True)) (Suc nxt) drw'"
proof (rule routesI)
  let ?own = "own(q \<mapsto> (i, nxt, True))"
  note D = routesD [OF wf]
  fix q1 i1 ch1 a1 q2 i2 ch2 a2
  show "?own q1 = Some (i1, ch1, a1) \<Longrightarrow>
      drw' i1 \<and> ch1 < Suc nxt \<and> (a1 \<longrightarrow> (rx(nxt \<mapsto> True)) ch1 = Some True)"
    using D(1,2) [of q1 i1 ch1 a1] D(3) [of q1 i1 ch1 a1] drw by (auto split: if_splits)
  have old: "p \<noteq> q \<Longrightarrow> ?own p = Some (j, ch, a) \<Longrightarrow> j \<noteq> i \<and> ch \<noteq> nxt" for p j ch a
    using D(1,2) [of p j ch a] new by auto
  assume o: "?own q1 = Some (i1, ch1, a1)" "?own q2 = Some (i2, ch2, a2)" and s: "i1 = i2 \<or> ch1 = ch2"
  show "q1 = q2"
  proof (cases "q1 = q \<or> q2 = q")
    case True
    with o s old [of q1 i1 ch1 a1] old [of q2 i2 ch2 a2] show ?thesis by (auto split: if_splits)
  next
    case False
    with o s D(4) [of q1 i1 ch1 a1 q2 ch2 a2] D(5) [of q1 i1 ch1 a1 q2 i2 a2] show ?thesis by auto
  qed
next
  note D = routesD [OF wf]
  fix j ch b
  show "reg j = Some ch \<Longrightarrow> \<exists>p. (own(q \<mapsto> (i, nxt, True))) p = Some (j, ch, True)"
    using D(6) [of j ch] none by (metis fun_upd_other option.distinct(1))
  show "(rx(nxt \<mapsto> True)) ch = Some b \<Longrightarrow> ch < Suc nxt"
    using D(7) [of ch b] by (auto split: if_splits)
qed

lemma routes_close:
  assumes wf: "routes own reg rx nxt drw" and o: "own q = Some (i, ch, a)"
  shows "routes (own(q \<mapsto> (i, ch, False))) (reg(i := None))
    (rx(ch := map_option (\<lambda>_. False) (rx ch))) nxt drw"
proof (rule routesI)
  let ?own = "own(q \<mapsto> (i, ch, False))"
  note D = routesD [OF wf]
  have old: "\<exists>b. own p = Some (j, c, b) \<and> (b' \<longrightarrow> b \<and> p \<noteq> q)" if "?own p = Some (j, c, b')" for p j c b'
    using that o by (auto split: if_splits)
  fix q1 i1 ch1 a1 q2 i2 ch2 a2
  show "q1 = q2" if "?own q1 = Some (i1, ch1, a1)" "?own q2 = Some (i2, ch2, a2)" "i1 = i2 \<or> ch1 = ch2"
    using old [OF that(1)] old [OF that(2)] that(3) D(4,5) by blast
  assume o1: "?own q1 = Some (i1, ch1, a1)"
  then obtain b where b: "own q1 = Some (i1, ch1, b)" "a1 \<longrightarrow> b \<and> q1 \<noteq> q" using old by blast
  moreover have "ch1 \<noteq> ch" if "q1 \<noteq> q" using D(5) [OF b(1), of q i a] o that by auto
  ultimately show "drw i1 \<and> ch1 < nxt \<and> (a1 \<longrightarrow> (rx(ch := map_option (\<lambda>_. False) (rx ch))) ch1 = Some True)"
    using D(1,2) [OF b(1)] D(3) [OF b(1)] b(2) by auto
next
  note D = routesD [OF wf]
  fix j c b
  show "\<exists>p. (own(q \<mapsto> (i, ch, False))) p = Some (j, c, True)" if "(reg(i := None)) j = Some c"
  proof -
    from that have j: "j \<noteq> i" "reg j = Some c" by (auto split: if_splits)
    then obtain p where "own p = Some (j, c, True)" using D(6) by blast
    with j o show ?thesis by (intro exI [of _ p]) auto
  qed
  show "(rx(ch := map_option (\<lambda>_. False) (rx ch))) c = Some b \<Longrightarrow> c < nxt"
    using D(7) [of c] by (auto split: if_splits)
qed

section \<open>The owners of the relay\<close>

definition owned :: "relay \<Rightarrow> owners" where
  "owned r q = (case q of
      TcpOwner n \<Rightarrow> map_option (\<lambda>k. (k_conn k, k_data k, k_open k)) (tcp_conns r n)
    | UdpOwner h i \<Rightarrow> (case udp_tasks r h of
        None \<Rightarrow> None | Some u \<Rightarrow> map_option (\<lambda>f. (i, fst f, True)) (u_forwarders u i)))"

definition rx_of :: "app_state \<Rightarrow> nat \<rightharpoonup> bool" where
  "rx_of s = (\<lambda>ch. map_option d_rx (data_chans s ch))"

definition routes_wf :: "relay \<Rightarrow> bool" where
  "routes_wf r \<longleftrightarrow>
     routes (owned r) (tcp_conn_senders (app r)) (rx_of (app r)) (next_data_chan (app r)) (drawn (app r))
   \<and> (\<forall>n. next_conn r \<le> n \<longrightarrow> tcp_conns r n = None)
   \<and> (\<forall>h u. udp_tasks r h = Some u \<longrightarrow> udp_maps_wf u \<and> (\<forall>i. conn_to_addr u i \<noteq> None \<longrightarrow> drawn (app r) i))"

text \<open>A step that at most removes registered senders.\<close>

definition reg_step :: "app_state \<Rightarrow> app_state \<Rightarrow> bool" where
  "reg_step s t \<longleftrightarrow> rx_of t = rx_of s \<and> next_data_chan t = next_data_chan s
     \<and> (\<forall>i ch. tcp_conn_senders t i = Some ch \<longrightarrow> tcp_conn_senders s i = Some ch)"

interpretation reg: step_rel reg_step
  by unfold_locales (simp_all add: reg_step_def)

lemma data_reg: "data_same s t \<Longrightarrow> reg_step s t"
  by (simp add: data_same_def reg_step_def rx_of_def)

lemma data_obeys_reg: "obeys data_same m \<Longrightarrow> obeys reg_step m"
  by (simp add: obeys_def data_reg)

lemma on_data_reg: "reg_step s (on_data x i p s)"
  by (auto simp: reg_step_def rx_of_def on_data_def fun_eq_iff option.map_comp comp_def
      split: option.split intro: option.map_cong)

lemma remove_conn_reg: "reg_step s (remove_conn_sender i s)"
  by (auto simp: reg_step_def rx_of_def fun_eq_iff remove_conn_sender_chan option.map_comp comp_def
      split: if_splits)

lemma drop_relay_data: "data_same s (drop_relay_rx ch s)"
  by (simp add: data_same_def drop_relay_rx_def split: option.split)

lemma stop_all_data: "data_same s (fold (stop_and_free x) ts s)"
proof (induction ts arbitrary: s)
  case (Cons t ts)
  have "data_same s (stop_and_free x t s)" for s
    using mem_frame_data [OF stop_frame]
    by (simp add: stop_and_free_def data_same_def free_port_def split: option.split)
  then show ?case using Cons data_kept.R_trans by simp blast
qed (simp add: data_same_def)

lemma cleanup_data: "obeys data_same (cleanup_agent x a)"
  unfolding cleanup_agent_def
  by (intro data_kept.rules on_db_data data_kept.modify_step stop_all_data) (simp add: data_same_def)

lemma auth_data: "obeys data_same (on_auth x sess k n)"
  unfolding on_auth_def
  by (intro data_kept.rules on_db_data sync_data data_kept.modify_step quiet_data quiet_ops)

lemma request_data: "obeys data_same (on_request_claim x sess n)"
  unfolding on_request_claim_def
  by (intro data_kept.rules on_db_data data_kept.modify_step quiet_data quiet_ops)

lemma handle_text_reg: "obeys reg_step (handle_text x sess text)"
proof (cases "json_agent_message x text")
  case None
  then show ?thesis by (simp only: handle_text_def option.case reg.rules)
next
  case (Some m)
  have d: "obeys reg_step (modify (on_data x i p))" "obeys reg_step (modify (remove_conn_sender i))"
    "obeys reg_step (modify (post ch msg))" for i p ch msg
    by (intro reg.modify_step on_data_reg remove_conn_reg data_reg quiet_data quiet_ops)+
  show ?thesis
    by (cases m; simp only: handle_text_def Some option.case agent_message.case;
      intro reg.rules data_obeys_reg auth_data request_data d)
qed

lemma on_frame_reg: "obeys reg_step (on_frame x sess f)"
proof -
  have c: "obeys data_same (socket_cleanup x sess)"
    unfolding socket_cleanup_def
    by (intro data_kept.rules cleanup_data data_kept.modify_step drop_relay_data)
      (simp add: data_same_def)
  show ?thesis
    by (cases f; simp only: on_frame_def ws_frame.case)
      (intro reg.rules handle_text_reg data_obeys_reg [OF c])+
qed

text \<open>The invariant in a step that leaves the owners alone.\<close>

lemma owned_frame: "tcp_conns r' = tcp_conns r \<Longrightarrow> udp_tasks r' = udp_tasks r \<Longrightarrow> owned r' = owned r"
  by (simp add: owned_def fun_eq_iff split: owner.split)

lemma routes_wf_app:
  assumes wf: "routes_wf r" and reg: "reg_step (app r) (app r')"
    and drw: "app_draws.app_R (app r) (app r')"
    and same: "tcp_conns r' = tcp_conns r" "udp_tasks r' = udp_tasks r" "next_conn r' = next_conn r"
  shows "routes_wf r'"
proof -
  from wf have "routes (owned r) (tcp_conn_senders (app r)) (rx_of (app r)) (next_data_chan (app r))
      (drawn (app r))" by (simp add: routes_wf_def)
  then have "routes (owned r) (tcp_conn_senders (app r')) (rx_of (app r)) (next_data_chan (app r))
      (drawn (app r))" by (rule routes_reg) (use reg in \<open>simp add: reg_step_def\<close>)
  then have "routes (owned r) (tcp_conn_senders (app r')) (rx_of (app r)) (next_data_chan (app r))
      (drawn (app r'))" by (rule routes_drawn) (rule drawn_mono [OF drw])
  moreover have "owned r' = owned r" by (rule owned_frame [OF same(1,2)])
  ultimately show ?thesis
    using wf reg same drawn_mono [OF drw] by (auto simp: routes_wf_def reg_step_def)
qed

section \<open>TCP connections\<close>

lemma owned_tcp:
  "owned (r\<lparr>app := s, tcp_conns := (tcp_conns r)(n \<mapsto> k), next_conn := m\<rparr>)
     = (owned r)(TcpOwner n \<mapsto> (k_conn k, k_data k, k_open k))"
  "owned (r\<lparr>app := s, tcp_conns := (tcp_conns r)(n \<mapsto> k)\<rparr>)
     = (owned r)(TcpOwner n \<mapsto> (k_conn k, k_data k, k_open k))"
  by (auto simp: owned_def fun_eq_iff split: owner.split)

lemma owned_conn: "tcp_conns r n = Some k \<Longrightarrow> owned r (TcpOwner n) = Some (k_conn k, k_data k, k_open k)"
  by (simp add: owned_def)

lemma draws_app: "app_draws.app_R s t \<Longrightarrow> db t = db u \<Longrightarrow> app_draws.app_R s u"
  by (simp add: app_draws.app_R_def)

lemma register_conn_data:
  "tcp_conn_senders (register_conn i s) = (tcp_conn_senders s)(i \<mapsto> next_data_chan s)"
  "rx_of (register_conn i s) = (rx_of s)(next_data_chan s \<mapsto> True)"
  "next_data_chan (register_conn i s) = Suc (next_data_chan s)"
  by (auto simp: register_conn_def rx_of_def fun_eq_iff insert_conn_sender_chan option.map_comp comp_def)

text \<open>What an accepted connection does to the shared state.\<close>

lemma tcp_accept_cases:
  obtains (none) t where "tcp_accept h a s = (None, t)" "data_same s t"
  | (conn) k t u where "tcp_accept h a s = (Some k, t)" "data_same (snd (draw_uuid s)) u"
      "k_conn k = fst (draw_uuid s)" "k_data k = next_data_chan s" "k_open k" "db u = db (snd (draw_uuid s))"
      "tcp_conn_senders t = (tcp_conn_senders s)(fst (draw_uuid s) \<mapsto> next_data_chan s)"
      "rx_of t = (rx_of s)(next_data_chan s \<mapsto> True)" "next_data_chan t = Suc (next_data_chan s)"
      "db t = db (snd (draw_uuid s))"
proof (cases "listeners s h")
  case None
  then show ?thesis by (intro none) (simp_all add: tcp_accept_def data_same_def)
next
  case (Some l)
  let ?d = "snd (draw_uuid s)"
  let ?u = "post (l_sender l) (NewConnection (l_tunnel l) (fst (draw_uuid s))) ?d"
  let ?t = "set_waiting h False (register_conn (fst (draw_uuid s)) ?u)"
  have u: "data_same ?d ?u" "next_data_chan ?u = next_data_chan s" "rx_of ?u = rx_of s"
    "tcp_conn_senders ?u = tcp_conn_senders s"
    by (simp_all add: data_same_def rx_of_def)
  show ?thesis
  proof (cases "l_status l = Running \<and> l_waiting l \<and> l_proto l = Tcp \<and> a = Accepted
      \<and> \<not> relay_closed (l_sender l) ?d")
    case True
    let ?k = "\<lparr>k_conn = fst (draw_uuid s), k_tunnel = l_tunnel l, k_sender = l_sender l,
      k_data = next_data_chan ?u, k_open = True, k_out = []\<rparr>"
    have acc: "tcp_accept h a s = (Some ?k, ?t)"
      using Some True by (simp add: tcp_accept_def send_relay_post Let_def split_def)
    have rx: "rx_of ?t = (rx_of s)(next_data_chan s \<mapsto> True)"
      using register_conn_data(2) [of "fst (draw_uuid s)" ?u] u by (simp add: rx_of_def)
    show ?thesis
      by (rule conn [OF acc u(1)]) (use u rx in \<open>simp_all add: register_conn_data\<close>)
  next
    case False
    with Some show ?thesis
      by (intro none [of "snd (tcp_accept h a s)"])
        (auto simp: tcp_accept_def send_relay_post Let_def split_def data_same_def
          split: accept_result.split)
  qed
qed

lemma on_accept_routes:
  assumes wf: "routes_wf r" and ok: "no_repeat (app (on_accept h a r))"
  shows "routes_wf (on_accept h a r)"
proof (cases rule: tcp_accept_cases [of h a "app r"])
  case (none t)
  then have "on_accept h a r = r\<lparr>app := t\<rparr>" by (simp add: on_accept_def)
  with none(2) sys_draws.on_accept_R [of r h a] show ?thesis
    by (intro routes_wf_app [OF wf]) (simp_all add: data_reg)
next
  case (conn k t u)
  let ?i = "fst (draw_uuid (app r))"
  have r': "on_accept h a r = r\<lparr>app := t, tcp_conns := (tcp_conns r)(next_conn r \<mapsto> k),
      next_conn := next_conn r + 1\<rparr>" using conn(1) by (simp add: on_accept_def)
  have "no_repeat (snd (draw_uuid (app r)))"
    using ok conn(10) by (simp add: r' no_repeat_def)
  then have new: "\<not> drawn (app r) ?i" by (rule next_new)
  have dr: "app_draws.app_R (app r) t" by (rule draws_app [OF draw_step conn(10) [symmetric]])
  have di: "drawn t ?i" using next_drawn [of "app r"] conn(10) by (simp add: drawn_def)
  have none: "owned r (TcpOwner (next_conn r)) = None"
    using wf by (simp add: routes_wf_def owned_def)
  have w: "routes (owned r) (tcp_conn_senders (app r)) (rx_of (app r)) (next_data_chan (app r))
      (drawn (app r))" using wf by (simp add: routes_wf_def)
  have n: "routes ((owned r)(TcpOwner (next_conn r) \<mapsto> (?i, next_data_chan (app r), True)))
      (tcp_conn_senders (app r)) ((rx_of (app r))(next_data_chan (app r) \<mapsto> True))
      (Suc (next_data_chan (app r))) (drawn t)"
    by (rule routes_new [where drw = "drawn (app r)", OF w none new]) (use drawn_mono [OF dr] di in blast)+
  have "routes ((owned r)(TcpOwner (next_conn r) \<mapsto> (?i, next_data_chan (app r), True)))
      ((tcp_conn_senders (app r))(?i \<mapsto> next_data_chan (app r)))
      ((rx_of (app r))(next_data_chan (app r) \<mapsto> True)) (Suc (next_data_chan (app r))) (drawn t)"
    by (rule routes_link [OF n, of "TcpOwner (next_conn r)"]) simp
  then have "routes (owned (on_accept h a r)) (tcp_conn_senders t) (rx_of t) (next_data_chan t) (drawn t)"
    unfolding r' owned_tcp using conn by simp
  then show ?thesis
    using wf drawn_mono [OF dr] by (auto simp: r' routes_wf_def)
qed

text \<open>A step of a connection either keeps its identity, or closes it.\<close>

lemma tcp_finish_data:
  "tcp_conn_senders (snd (tcp_finish k s)) = (tcp_conn_senders s)(k_conn k := None)"
  "rx_of (snd (tcp_finish k s)) = (rx_of s)(k_data k := map_option (\<lambda>_. False) (rx_of s (k_data k)))"
  "next_data_chan (snd (tcp_finish k s)) = next_data_chan s"
  "fst (tcp_finish k s) = k\<lparr>k_open := False\<rparr>"
  by (auto simp: tcp_finish_def rx_of_def fun_eq_iff remove_conn_sender_chan option.map_comp comp_def)

definition conn_closed :: "tcp_conn \<Rightarrow> app_state \<Rightarrow> tcp_conn \<Rightarrow> app_state \<Rightarrow> bool" where
  "conn_closed k s k' t \<longleftrightarrow> (\<exists>u. reg_step s u \<and> k' = k\<lparr>k_open := False\<rparr>
     \<and> tcp_conn_senders t = (tcp_conn_senders u)(k_conn k := None)
     \<and> rx_of t = (rx_of u)(k_data k := map_option (\<lambda>_. False) (rx_of u (k_data k)))
     \<and> next_data_chan t = next_data_chan u)"

definition conn_kept :: "tcp_conn \<Rightarrow> app_state \<Rightarrow> tcp_conn \<Rightarrow> app_state \<Rightarrow> bool" where
  "conn_kept k s k' t \<longleftrightarrow>
     k_conn k' = k_conn k \<and> k_data k' = k_data k \<and> k_open k' = k_open k \<and> reg_step s t"

definition conn_step :: "(tcp_conn \<Rightarrow> app_state \<Rightarrow> tcp_conn \<times> app_state) \<Rightarrow> bool" where
  "conn_step f \<longleftrightarrow> (\<forall>k s. conn_kept k s (fst (f k s)) (snd (f k s))
     \<or> conn_closed k s (fst (f k s)) (snd (f k s)))"

lemma finish_closes: "reg_step s u \<Longrightarrow> conn_closed k s (fst (tcp_finish k u)) (snd (tcp_finish k u))"
  unfolding conn_closed_def by (rule exI [of _ u]) (simp add: tcp_finish_data)

lemma traffic_reg: "reg_step s (record_traffic j b c s)"
  by (simp add: reg_step_def rx_of_def record_traffic_def Let_def)

lemma post_reg: "reg_step s (post ch m s)"
  by (simp add: reg_step_def rx_of_def)

lemma read_conn_step: "conn_step (tcp_read x i)"
  unfolding conn_step_def
proof (intro allI)
  fix k s
  have p: "reg_step s (post ch m (record_traffic j b c s))" for ch m j b c
    by (rule reg.R_trans [OF traffic_reg post_reg])
  show "conn_kept k s (fst (tcp_read x i k s)) (snd (tcp_read x i k s))
      \<or> conn_closed k s (fst (tcp_read x i k s)) (snd (tcp_read x i k s))"
    using finish_closes [OF reg.R_refl, of k s] finish_closes [OF p, of k] p reg.R_refl [of s]
    by (cases i) (simp_all add: tcp_read_def send_relay_post Let_def conn_kept_def)
qed

lemma deliver_conn_step: "conn_step (tcp_deliver ok)"
  unfolding conn_step_def
proof (intro allI)
  fix k s
  show "conn_kept k s (fst (tcp_deliver ok k s)) (snd (tcp_deliver ok k s))
      \<or> conn_closed k s (fst (tcp_deliver ok k s)) (snd (tcp_deliver ok k s))"
  proof (cases "k_open k \<and> (\<exists>c d ds. data_chans s (k_data k) = Some c \<and> dq c = d # ds)")
    case False
    then have "tcp_deliver ok k s = (k, s)"
      by (auto simp: tcp_deliver_def split: option.split list.split)
    then show ?thesis by (simp add: reg.R_refl conn_kept_def)
  next
    case True
    then obtain c d ds where c: "data_chans s (k_data k) = Some c" "dq c = d # ds" by blast
    let ?u = "s\<lparr>data_chans := (data_chans s)(k_data k \<mapsto> c\<lparr>dq := ds\<rparr>)\<rparr>"
    let ?t = "record_traffic (k_tunnel k) 0 (of_nat (length d)) ?u"
    have "reg_step s ?u" using c(1) by (auto simp: reg_step_def rx_of_def fun_eq_iff)
    then have t: "reg_step s ?t" by (rule reg.R_trans [OF _ traffic_reg])
    have "tcp_deliver ok k s = (if ok then (k\<lparr>k_out := k_out k @ d\<rparr>, ?t) else tcp_finish k ?t)"
      using True c by (simp add: tcp_deliver_def Let_def)
    with t finish_closes [OF t, of k] show ?thesis by (simp add: conn_kept_def)
  qed
qed

lemma on_conn_routes:
  assumes wf: "routes_wf r" and f: "conn_step f" and drw: "app_draws.app_R (app r) (app (on_conn n f r))"
  shows "routes_wf (on_conn n f r)"
proof (cases "tcp_conns r n")
  case None
  then show ?thesis using wf by (simp add: on_conn_def)
next
  case (Some k)
  let ?k = "fst (f k (app r))"
  let ?t = "snd (f k (app r))"
  have r': "on_conn n f r = r\<lparr>app := ?t, tcp_conns := (tcp_conns r)(n \<mapsto> ?k)\<rparr>"
    using Some by (simp add: on_conn_def split_def)
  have dr: "app_draws.app_R (app r) ?t" using drw by (simp add: r')
  have w: "routes (owned r) (tcp_conn_senders (app r)) (rx_of (app r)) (next_data_chan (app r))
      (drawn (app r))" using wf by (simp add: routes_wf_def)
  have o: "owned r (TcpOwner n) = Some (k_conn k, k_data k, k_open k)" by (rule owned_conn [OF Some])
  have "routes (owned (on_conn n f r)) (tcp_conn_senders ?t) (rx_of ?t) (next_data_chan ?t) (drawn (app r))"
  proof (cases "conn_kept k (app r) ?k ?t")
    case True
    then have "owned (on_conn n f r) = owned r"
      unfolding r' owned_tcp using o by (simp add: fun_upd_idem_iff conn_kept_def)
    with True routes_reg [OF w, of "tcp_conn_senders ?t"] show ?thesis
      by (auto simp: reg_step_def conn_kept_def)
  next
    case False
    then have "conn_closed k (app r) ?k ?t" using f by (auto simp: conn_step_def)
    then obtain u where u: "reg_step (app r) u" "?k = k\<lparr>k_open := False\<rparr>"
        "tcp_conn_senders ?t = (tcp_conn_senders u)(k_conn k := None)"
        "rx_of ?t = (rx_of u)(k_data k := map_option (\<lambda>_. False) (rx_of u (k_data k)))"
        "next_data_chan ?t = next_data_chan u" unfolding conn_closed_def by blast
    have "routes (owned r) (tcp_conn_senders u) (rx_of u) (next_data_chan u) (drawn (app r))"
      using u(1) routes_reg [OF w, of "tcp_conn_senders u"] by (auto simp: reg_step_def)
    from routes_close [OF this o] show ?thesis
      unfolding r' owned_tcp u(3-5) unfolding u(2) by simp
  qed
  then have "routes (owned (on_conn n f r)) (tcp_conn_senders ?t) (rx_of ?t) (next_data_chan ?t) (drawn ?t)"
    by (rule routes_drawn) (rule drawn_mono [OF dr])
  then show ?thesis
    using wf drawn_mono [OF dr] Some by (auto simp: r' routes_wf_def)
qed

section \<open>UDP peers\<close>

lemma task_owned:
  "udp_task_of r h = Some u \<Longrightarrow>
    owned r (UdpOwner h i) = map_option (\<lambda>f. (i, fst f, True)) (u_forwarders u i)"
  by (auto simp: udp_task_of_def owned_def new_udp_task_def split: option.splits if_splits)

lemma task_maps:
  assumes "routes_wf r" "udp_task_of r h = Some u"
  shows "udp_maps_wf u" "conn_to_addr u i \<noteq> None \<Longrightarrow> drawn (app r) i"
  using assms
  by (auto simp: routes_wf_def udp_task_of_def new_udp_task_def udp_maps_wf_def
      split: option.splits if_splits)

lemma owned_udp:
  "owned (r\<lparr>app := s, udp_tasks := (udp_tasks r)(h \<mapsto> v)\<rparr>) q =
    (case q of TcpOwner n \<Rightarrow> owned r q
     | UdpOwner g i \<Rightarrow> (if g = h then map_option (\<lambda>f. (i, fst f, True)) (u_forwarders v i)
         else owned r q))"
  by (simp add: owned_def split: owner.split)

text \<open>A step of a UDP task either keeps its peers, or adds one.\<close>

definition udp_kept :: "udp_task \<Rightarrow> app_state \<Rightarrow> udp_task \<Rightarrow> app_state \<Rightarrow> bool" where
  "udp_kept u s v t \<longleftrightarrow> (\<forall>i. map_option fst (u_forwarders v i) = map_option fst (u_forwarders u i))
     \<and> addr_to_conn v = addr_to_conn u \<and> conn_to_addr v = conn_to_addr u
     \<and> rx_of t = rx_of s \<and> next_data_chan t = next_data_chan s
     \<and> (\<forall>i ch. tcp_conn_senders t i = Some ch \<longrightarrow>
          tcp_conn_senders s i = Some ch \<or> map_option fst (u_forwarders u i) = Some ch)"

definition udp_added :: "udp_task \<Rightarrow> app_state \<Rightarrow> udp_task \<Rightarrow> app_state \<Rightarrow> bool" where
  "udp_added u s v t \<longleftrightarrow> (\<exists>a. addr_to_conn u a = None
     \<and> addr_to_conn v = (addr_to_conn u)(a \<mapsto> fst (draw_uuid s))
     \<and> conn_to_addr v = (conn_to_addr u)(fst (draw_uuid s) \<mapsto> a)
     \<and> u_forwarders v = (u_forwarders u)(fst (draw_uuid s) \<mapsto> (next_data_chan s, False))
     \<and> tcp_conn_senders t = tcp_conn_senders s
     \<and> rx_of t = (rx_of s)(next_data_chan s \<mapsto> True) \<and> next_data_chan t = Suc (next_data_chan s)
     \<and> db t = db (snd (draw_uuid s)))"

definition udp_step :: "(udp_task \<Rightarrow> app_state \<Rightarrow> udp_task \<times> app_state) \<Rightarrow> bool" where
  "udp_step f \<longleftrightarrow> (\<forall>u s. udp_kept u s (fst (f u s)) (snd (f u s))
     \<or> udp_added u s (fst (f u s)) (snd (f u s)))"

lemma udp_kept_reg: "reg_step s t \<Longrightarrow> udp_kept u s u t"
  by (auto simp: udp_kept_def reg_step_def)

lemma waiting_reg: "reg_step s (set_waiting h w s)"
  by (simp add: reg_step_def rx_of_def)

lemma new_data_chan_db [simp]: "db (snd (new_data_chan s)) = db s"
  by (simp add: new_data_chan_def)

lemma udp_recv_step: "udp_step (udp_recv x d)"
  unfolding udp_step_def
proof (intro allI)
  fix u s
  show "udp_kept u s (fst (udp_recv x d u s)) (snd (udp_recv x d u s))
      \<or> udp_added u s (fst (udp_recv x d u s)) (snd (udp_recv x d u s))"
  proof (cases "udp_active u s \<and> (\<exists>a b. d = Some (a, b) \<and> addr_to_conn u a = None)")
    case True
    then obtain a b where d: "d = Some (a, b)" "addr_to_conn u a = None" by blast
    have "udp_added u s (fst (udp_recv x d u s)) (snd (udp_recv x d u s))"
      unfolding udp_added_def
      by (rule exI [of _ a])
        (use True d in \<open>simp add: udp_recv_def udp_conn_for_new next_uuid_def Let_def rx_of_def fun_eq_iff
          record_traffic_def\<close>)
    then show ?thesis ..
  next
    case False
    have w: "udp_kept u s u (set_waiting h False (post ch m (record_traffic j p q s)))" for h ch m j p q
      by (rule udp_kept_reg) (rule reg.R_trans [OF reg.R_trans [OF traffic_reg post_reg] waiting_reg])
    have n: "udp_kept u s u s" "udp_kept u s u (set_waiting h False s)" for h
      by (rule udp_kept_reg, rule reg.R_refl waiting_reg)+
    show ?thesis
    proof (cases "udp_active u s")
      case active: True
      show ?thesis
      proof (cases d)
        case (Some p)
        then obtain a b where ab: "d = Some (a, b)" by (cases p) auto
        with False active obtain i where "addr_to_conn u a = Some i" by auto
        with ab active w udp_recv_known show ?thesis by simp
      qed (use active n in \<open>simp add: udp_recv_def\<close>)
    qed (use n in \<open>simp add: udp_recv_def\<close>)
  qed
qed

lemma udp_register_step: "udp_step (udp_register i)"
  unfolding udp_step_def
proof (intro allI, rule disjI1)
  fix u s
  have "rx_of (insert_conn_sender i tx s) = rx_of s" for tx
    by (auto simp: rx_of_def fun_eq_iff insert_conn_sender_chan option.map_comp comp_def)
  then show "udp_kept u s (fst (udp_register i u s)) (snd (udp_register i u s))"
    using udp_kept_reg [OF reg.R_refl, of u s]
    by (auto simp: udp_register_def udp_kept_def split: option.split bool.split if_splits)
qed

lemma udp_forward_step: "udp_step (udp_forward i)"
  unfolding udp_step_def
proof (intro allI, rule disjI1)
  fix u s
  have "rx_of (s\<lparr>data_chans := (data_chans s)(ch \<mapsto> c\<lparr>dq := q\<rparr>)\<rparr>) = rx_of s"
    if "data_chans s ch = Some c" for ch c q
    using that by (auto simp: rx_of_def fun_eq_iff)
  then show "udp_kept u s (fst (udp_forward i u s)) (snd (udp_forward i u s))"
    by (auto simp: udp_forward_def udp_kept_def split: option.split bool.split list.split)
qed

lemma udp_deliver_step: "udp_step udp_deliver"
  unfolding udp_step_def
proof (intro allI, rule disjI1)
  fix u s
  have "reg_step s (set_waiting h w s)" "reg_step s (record_traffic j a b (set_waiting h w s))" for h w j a b
    by (rule waiting_reg reg.R_trans [OF waiting_reg traffic_reg])+
  then show "udp_kept u s (fst (udp_deliver u s)) (snd (udp_deliver u s))"
    by (auto simp: udp_deliver_def udp_kept_def reg_step_def Let_def split: list.split option.split)
qed

lemma on_udp_routes:
  assumes wf: "routes_wf r" and f: "udp_step f" and drw: "app_draws.app_R (app r) (app (on_udp h f r))"
    and ok: "no_repeat (app (on_udp h f r))"
  shows "routes_wf (on_udp h f r)"
proof (cases "udp_task_of r h")
  case None
  then show ?thesis using wf by (simp add: on_udp_def)
next
  case (Some u)
  let ?v = "fst (f u (app r))"
  let ?t = "snd (f u (app r))"
  let ?r = "r\<lparr>app := ?t, udp_tasks := (udp_tasks r)(h \<mapsto> ?v)\<rparr>"
  let ?i = "fst (draw_uuid (app r))"
  have r': "on_udp h f r = ?r" using Some by (simp add: on_udp_def split_def)
  have dr: "app_draws.app_R (app r) ?t" using drw by (simp add: r')
  have w: "routes (owned r) (tcp_conn_senders (app r)) (rx_of (app r)) (next_data_chan (app r))
      (drawn (app r))" using wf by (simp add: routes_wf_def)
  note o = task_owned [OF Some] and m = task_maps [OF wf Some]
  have "routes (owned ?r) (tcp_conn_senders ?t) (rx_of ?t) (next_data_chan ?t) (drawn ?t)
    \<and> udp_maps_wf ?v \<and> (\<forall>j. conn_to_addr ?v j \<noteq> None \<longrightarrow> drawn ?t j)"
  proof (cases "udp_kept u (app r) ?v ?t")
    case True
    have fwd: "map_option (\<lambda>f. (i, fst f, True)) (u_forwarders ?v i)
        = map_option (\<lambda>f. (i, fst f, True)) (u_forwarders u i)" for i
    proof -
      have "map_option fst (u_forwarders ?v i) = map_option fst (u_forwarders u i)"
        using True by (simp add: udp_kept_def)
      then show ?thesis by (cases "u_forwarders ?v i"; cases "u_forwarders u i") simp_all
    qed
    have "owned ?r q = owned r q" for q
      unfolding owned_udp by (cases q) (simp_all add: fwd o)
    then have same: "owned ?r = owned r" by (rule ext)
    have "routes (owned r) (tcp_conn_senders ?t) (rx_of (app r)) (next_data_chan (app r)) (drawn (app r))"
    proof (rule routes_reg [OF w])
      fix i ch
      assume "tcp_conn_senders ?t i = Some ch"
      then have "tcp_conn_senders (app r) i = Some ch \<or> map_option fst (u_forwarders u i) = Some ch"
        using True by (auto simp: udp_kept_def)
      then show "tcp_conn_senders (app r) i = Some ch \<or> (\<exists>q. owned r q = Some (i, ch, True))"
        using o [of i] by auto
    qed
    then have "routes (owned r) (tcp_conn_senders ?t) (rx_of (app r)) (next_data_chan (app r)) (drawn ?t)"
      by (rule routes_drawn) (rule drawn_mono [OF dr])
    then show ?thesis
      unfolding same using True m drawn_mono [OF dr] by (auto simp: udp_kept_def udp_maps_wf_def)
  next
    case False
    then have "udp_added u (app r) ?v ?t" using f by (auto simp: udp_step_def)
    then obtain a where a: "addr_to_conn u a = None"
      "addr_to_conn ?v = (addr_to_conn u)(a \<mapsto> ?i)" "conn_to_addr ?v = (conn_to_addr u)(?i \<mapsto> a)"
      "u_forwarders ?v = (u_forwarders u)(?i \<mapsto> (next_data_chan (app r), False))"
      "tcp_conn_senders ?t = tcp_conn_senders (app r)"
      "rx_of ?t = (rx_of (app r))(next_data_chan (app r) \<mapsto> True)"
      "next_data_chan ?t = Suc (next_data_chan (app r))" "db ?t = db (snd (draw_uuid (app r)))"
      unfolding udp_added_def by blast
    have "no_repeat (snd (draw_uuid (app r)))" using ok a(8) by (simp add: r' no_repeat_def)
    then have new: "\<not> drawn (app r) ?i" by (rule next_new)
    have di: "drawn ?t ?i" using next_drawn [of "app r"] a(8) by (simp add: drawn_def)
    have none: "owned r (UdpOwner h ?i) = None"
    proof (rule ccontr)
      assume "owned r (UdpOwner h ?i) \<noteq> None"
      then obtain f where "owned r (UdpOwner h ?i) = Some (?i, fst f, True)" by (auto simp: o)
      then have "drawn (app r) ?i" by (rule routesD(1) [OF w])
      with new show False by contradiction
    qed
    have "owned ?r q = ((owned r)(UdpOwner h ?i \<mapsto> (?i, next_data_chan (app r), True))) q" for q
      unfolding owned_udp a(4) using o by (cases q) auto
    then have own: "owned ?r = (owned r)(UdpOwner h ?i \<mapsto> (?i, next_data_chan (app r), True))" by blast
    have "routes ((owned r)(UdpOwner h ?i \<mapsto> (?i, next_data_chan (app r), True)))
        (tcp_conn_senders (app r)) ((rx_of (app r))(next_data_chan (app r) \<mapsto> True))
        (Suc (next_data_chan (app r))) (drawn ?t)"
      by (rule routes_new [where drw = "drawn (app r)", OF w none new])
        (use drawn_mono [OF dr] di in blast)+
    moreover have "conn_to_addr u ?i = None" using m(2) new by blast
    then have "udp_maps_wf ?v" by (rule udp_maps_add [OF m(1) a(1) _ a(2,3)])
    moreover have "conn_to_addr ?v j \<noteq> None \<Longrightarrow> drawn ?t j" for j
      using a(3) di m(2) drawn_mono [OF dr] by (auto split: if_splits)
    ultimately show ?thesis unfolding own a(5-7) by blast
  qed
  then show ?thesis
    using wf drawn_mono [OF dr] by (auto simp: r' routes_wf_def)
qed

section \<open>Every reachable state\<close>

lemma send_task_data: "data_same s (snd (send_task_step x ch ok s))"
  by (simp add: send_task_step_def data_same_def drop_relay_rx_def Let_def split: option.split list.split)

lemma loop_head_data: "data_same s (loop_head h s)"
  by (simp add: loop_head_def data_same_def split: option.split)


lemma serve_data: "obeys data_same (serve x c)"
  by (cases c) (simp_all add: web_data.auth_handlers web_data.admin_handlers web_data.claim_agent_R
    web_data.agent_handlers web_data.update_tunnel_R web_data.toggle_tunnel_R web_data.delete_tunnel_R
    web_data.script_handlers web_data.create_tunnel_R)

lemma open_socket_data: "data_same s (snd (open_socket s))"
  by (simp add: open_socket_mem new_relay_chan_def data_same_def)

lemma conns_wf_routes:
  assumes "routes_wf r"
  shows "conns_wf (app r)"
proof -
  have w: "routes (owned r) (tcp_conn_senders (app r)) (rx_of (app r)) (next_data_chan (app r))
      (drawn (app r))" using assms by (simp add: routes_wf_def)
  note d = routesD [OF w]
  show ?thesis
  proof (rule conns_wfI)
    fix i ch assume "tcp_conn_senders (app r) i = Some ch"
    then obtain q where "owned r q = Some (i, ch, True)" using d(6) by blast
    then have "rx_of (app r) ch = Some True" using d(3) by blast
    then show "\<exists>c. data_chans (app r) ch = Some c \<and> d_rx c" by (simp add: rx_of_def)
  next
    fix i j ch assume "tcp_conn_senders (app r) i = Some ch" "tcp_conn_senders (app r) j = Some ch"
    then obtain p q where "owned r p = Some (i, ch, True)" "owned r q = Some (j, ch, True)"
      using d(6) by blast
    moreover from this have "p = q" by (rule d(5))
    ultimately show "i = j" by simp
  next
    fix ch c assume "data_chans (app r) ch = Some c"
    then show "ch < next_data_chan (app r)" using d(7) [of ch "d_rx c"] by (simp add: rx_of_def)
  qed
qed

lemma relay_step_routes:
  assumes wf: "routes_wf r" and ok: "no_repeat (app (relay_step x e r))"
  shows "routes_wf (relay_step x e r)"
proof -
  have drw: "app_draws.app_R (app r) (app (relay_step x e r))" by (rule sys_draws.relay_step_R)
  note keeps = routes_wf_app [OF wf _ drw]
  show ?thesis
  proof (cases e)
    case Connect
    have "reg_step (app r) (snd ((open_socket :: (app_state, ws_session, unit) prog) (app r)))"
      by (rule data_reg [OF open_socket_data])
    then have "reg_step (app r) (app (on_connect r))"
      by (simp add: on_connect_def split_def split: result.split)
    then show ?thesis using Connect keeps
      by (simp add: on_connect_def split_def split: result.splits)
  next
    case (Frame n f)
    have "reg_step (app r) (app (on_session x n f r))"
    proof (cases "sessions r n")
      case None then show ?thesis by (simp add: on_session_def reg.R_refl)
    next
      case (Some sess)
      have "reg_step (app r) (snd ((on_frame x sess f :: (app_state, ws_session option, unit) prog) (app r)))"
        by (rule obeys_snd [OF on_frame_reg])
      then show ?thesis using Some by (simp add: on_session_def split_def split: result.split)
    qed
    then show ?thesis using Frame keeps
      by (simp add: on_session_def split_def split: result.splits option.splits)
  next
    case (SendMessage ch b)
    then show ?thesis using keeps data_reg [OF send_task_data] by simp
  next
    case (Request c)
    then show ?thesis using keeps data_reg [OF obeys_snd [OF serve_data]] by simp
  next
    case (LoopHead h)
    then show ?thesis using keeps data_reg [OF loop_head_data] by simp
  next
    case (Accept h a)
    then show ?thesis using on_accept_routes [OF wf] ok by simp
  next
    case (ClientRead n i)
    then show ?thesis using on_conn_routes [OF wf read_conn_step] drw by simp
  next
    case (ClientWrite n b)
    then show ?thesis using on_conn_routes [OF wf deliver_conn_step] drw by simp
  next
    case (UdpRecv h d)
    then show ?thesis using on_udp_routes [OF wf udp_recv_step] drw ok by simp
  next
    case (UdpRegister h i)
    then show ?thesis using on_udp_routes [OF wf udp_register_step] drw ok by simp
  next
    case (UdpForward h i)
    then show ?thesis using on_udp_routes [OF wf udp_forward_step] drw ok by simp
  next
    case (UdpDeliver h)
    then show ?thesis using on_udp_routes [OF wf udp_deliver_step] drw ok by simp
  qed
qed

lemma start_routes: "tcp_conn_senders s = Map.empty \<Longrightarrow> data_chans s = Map.empty \<Longrightarrow> routes_wf (start_relay s)"
  by (auto simp: routes_wf_def start_relay_def routes_def owned_def rx_of_def split: owner.splits)

lemma reachable_routes:
  assumes "reachable x r t" and "routes_wf r" and "no_repeat (app t)"
  shows "routes_wf t"
  using assms
proof (induction rule: reachable.induct)
  case (here r)
  then show ?case by simp
next
  case (step r u e)
  have "no_repeat (app u)"
    using no_repeat_before [OF sys_draws.relay_step_R] step.prems(2) by blast
  with step show ?case using relay_step_routes by blast
qed

end
