(* ===== verification/Main_Program.thy ===== *)
theory Main_Program
  imports Subdomains Routing
begin

text \<open>
  \<open>src/main.rs\<close>: the command line arguments with their defaults, and the state in which the two
  servers start. Parsing the arguments, logging and the HTTP servers themselves are libraries;
  from here on the relay runs by the events of \<open>relay_step\<close>. \<open>os\<close> is the operating system's
  answer to each attempt to bind a socket.
\<close>

record args =
  ws_port :: u16
  http_port :: u16
  port_range_start :: u16
  port_range_end :: u16
  db_path :: string

definition default_args :: args where
  "default_args = \<lparr>ws_port = 9090, http_port = 8080, port_range_start = 10000,
     port_range_end = 60000, db_path = ''tunnelit.db''\<rparr>"

definition boot :: "args \<Rightarrow> conn \<Rightarrow> (nat \<Rightarrow> string option) \<Rightarrow> relay" where
  "boot a db_conn os =
     start_relay (new_app_state db_conn (port_range_start a, port_range_end a) os)"

lemma boot_simps [simp]:
  "app (boot a c os) = new_app_state c (port_range_start a, port_range_end a) os"
  "sessions (boot a c os) = Map.empty" "tcp_conns (boot a c os) = Map.empty"
  "udp_tasks (boot a c os) = Map.empty"
  by (simp_all add: boot_def start_relay_def)

lemma new_app_state_simps [simp]:
  "db (new_app_state c pr os) = c" "listeners (new_app_state c pr os) = Map.empty"
  "tunnel_tasks (new_app_state c pr os) = Map.empty" "port_range (new_app_state c pr os) = pr"
  "allocated_ports (new_app_state c pr os) = {}" "tcp_conn_senders (new_app_state c pr os) = Map.empty"
  "data_chans (new_app_state c pr os) = Map.empty" "agent_senders (new_app_state c pr os) = Map.empty"
  "user_sessions (new_app_state c pr os) = Map.empty"
  by (simp_all add: new_app_state_def)

lemma boot_lis: "listeners_wf (app (boot a c os))"
  by (simp add: listeners_wf_def)

lemma boot_routes: "routes_wf (boot a c os)"
  unfolding boot_def by (rule start_routes) simp_all

text \<open>The default port range is a proper one, so registration cannot divide by zero.\<close>

lemma default_range: "1024 \<le> port_range_start default_args"
  "port_range_start default_args < port_range_end default_args"
  by (simp_all add: default_args_def)

end
