(* ===== verification/Sample_Run.thy ===== *)
theory Sample_Run
  imports Sample Main_Program
begin

text \<open>
  Runs of the relay on the sample database, evaluated by the simplifier: \<open>online\<close> after an agent
  has authenticated, \<open>serving\<close> after a TCP client has connected to it and data has gone both
  ways, \<open>gaming\<close> after a UDP tunnel has been enabled and one datagram has come in.
\<close>

lemma sample_json [simp]:
  "json_agent_message sample_ext ''auth'' = Some (Auth ''tk_one'' ''home'')"
  "json_agent_message sample_ext ''pending'' = Some (Auth ''tk_two'' ''desktop'')"
  "json_agent_message sample_ext ''claim'' = Some (RequestClaim ''laptop'')"
  "json_agent_message sample_ext ''data'' = Some (AgentData 101 ''hi'')"
  "json_agent_message sample_ext ''close'' = Some (AgentCloseConnection 101)"
  "json_agent_message sample_ext ''ping'' = Some Ping"
  by (simp_all add: sample_ext_def)

lemmas state_simps = boot_def start_relay_def new_app_state_def default_args_def sample_conn_def
  sample_tables_def sample_rows sample_start_def sample_app_def

lemmas db_simps = and_then_def attempt_def ignore_err_def map_err_def unwrap_or_def on_db_def
  new_v4_def now_secs_def exec_sql_def query_sql_def next_stmt_def get_agent_by_token_def
  set_agent_online_def list_tunnels_for_agent_def tunnel_of_row_def get_u64_def lookup_by_def
  update_by_def delete_by_def get_tunnel_by_id_def set_tunnel_enabled_def db_delete_tunnel_def
  get_user_by_id_def user_of_row_def is_subdomain_taken_def same_subdomain_def db_create_tunnel_def
  insert_tunnel_def user_ref_ok_def

lemmas session_simps = on_connect_def open_socket_def draw_uuid_def new_relay_chan_def on_session_def
  on_frame_def handle_text_def on_auth_def synced_def agent_tunnels_def listed_def sync_configs_def
  List.map_filter_def sync_one_def post_def send_relay_def reserve_port_def
  start_tunnel_listener_def stop_tunnel_listener_def bind_socket_def port_in_use_def
  spawn_listener_def abort_task_def set_status_def free_port_def register_sender_def
  config_of_record_def ascii_lower_def lower_char_def on_data_def remove_conn_sender_def
  set_pending_def claim_url_def

lemmas proxy_simps = loop_head_def set_waiting_def relay_closed_def on_accept_def tcp_accept_def
  register_conn_def new_data_chan_def insert_conn_sender_def drop_data_tx_def drop_data_rx_def
  send_data_def on_conn_def tcp_read_def tcp_deliver_def tcp_finish_def record_traffic_def
  on_udp_def udp_task_of_def new_udp_task_def udp_recv_def udp_active_def udp_alive_def
  udp_conn_for_def udp_register_def udp_forward_def udp_deliver_def text_of_bytes_def
  bytes_of_text_def

lemmas web_simps = toggle_tunnel_def switch_tunnel_def config_of_created_def delete_tunnel_def
  notify_stop_def

lemmas run_simps = state_simps db_simps session_simps proxy_simps web_simps Let_def

definition online :: relay where
  "online = fold (relay_step sample_ext) [Connect, Frame 0 (WsText ''auth'')]
     (boot default_args sample_conn (\<lambda>n. None))"

definition serving :: relay where
  "serving = fold (relay_step sample_ext)
     [LoopHead 0, Accept 0 Accepted, ClientRead 0 (ReadBytes [1, 2]), Frame 0 (WsText ''data''),
      ClientWrite 0 True] online"

definition gaming :: relay where
  "gaming = fold (relay_step sample_ext)
     [Request (ToggleTunnel (uuid_text 22)), LoopHead 1, UdpRecv 1 (Some ((7, 99), [5])),
      UdpRegister 1 101, Frame 0 (WsText ''data''), UdpForward 1 101, LoopHead 1, UdpDeliver 1] online"

definition administered :: relay where
  "administered = fold (relay_step sample_ext) [Request (AdminLogin ''09090912Qw_'')] online"

lemma reachable_more: "reachable x r t \<Longrightarrow> reachable x r (fold (relay_step x) es t)"
  by (induction es arbitrary: t) (simp_all add: reachable.step)

lemma sample_runs:
  "reachable sample_ext (boot default_args sample_conn (\<lambda>n. None)) online"
  "reachable sample_ext (boot default_args sample_conn (\<lambda>n. None)) serving"
  "reachable sample_ext (boot default_args sample_conn (\<lambda>n. None)) gaming"
  "reachable sample_ext (boot default_args sample_conn (\<lambda>n. None)) administered"
  unfolding serving_def gaming_def administered_def online_def
  by (rule reachable_more reachable_run)+

text \<open>The state after the authentication, in full.\<close>

lemma online_state:
  "online = \<lparr>app = sample_start\<lparr>port_range := (10000, 60000),
       db := sample_conn\<lparr>tabs := sample_tables\<lparr>agents := [laptop\<lparr>ar_name := ''home'',
           ar_last_seen := 1700000000, ar_is_online := True\<rparr>, desktop]\<rparr>,
         host_of := (host_of sample_conn)\<lparr>draws := 1, ticks := 1, stmts := 3\<rparr>\<rparr>,
       allocated_ports := {20001}, agent_senders := [11 \<mapsto> 0], tunnel_tasks := [21 \<mapsto> 0],
       relay_chans := [0 \<mapsto> \<lparr>rq = [AuthSuccess 11 ''laptop'' ''tk_one'', SyncTunnels
         [\<lparr>tc_id = 21, tc_agent_id = 11, tc_name = ''blog'', tc_local_port = 3000,
           tc_protocol = ''tcp'', tc_public_port = 20001, tc_subdomain = Some ''blog'', tc_enabled = True\<rparr>,
          \<lparr>tc_id = 22, tc_agent_id = 11, tc_name = ''game'', tc_local_port = 4000,
           tc_protocol = ''udp'', tc_public_port = 20001, tc_subdomain = None, tc_enabled = False\<rparr>]],
         r_open = True\<rparr>], next_relay_chan := 1,
       listeners := [0 \<mapsto> \<lparr>l_tunnel = 21, l_agent = 11, l_proto = Tcp, l_port = 20001, l_sender = 0,
         l_waiting = False, l_status = Running\<rparr>], next_listener := 1, binds := 1\<rparr>,
     sessions = [0 \<mapsto> \<lparr>s_chan = 0, authenticated_agent_id = Some 11, current_claim_code = None\<rparr>],
     next_session = 1, tcp_conns = Map.empty, next_conn = 0, udp_tasks = Map.empty\<rparr>"
  by (simp add: online_def run_simps)

lemma online_facts:
  "listeners (app online) 0 = Some \<lparr>l_tunnel = 21, l_agent = 11, l_proto = Tcp, l_port = 20001,
     l_sender = 0, l_waiting = False, l_status = Running\<rparr>"
  "tunnel_tasks (app online) = [21 \<mapsto> 0]" "allocated_ports (app online) = {20001}"
  by (simp_all add: online_state)

lemma serving_facts:
  "tcp_conn_senders (app serving) = [101 \<mapsto> 0]"
  "map_option k_out (tcp_conns serving 0) = Some [104, 105]"
  "live_traffic (app serving) = [21 \<mapsto> (2, 2)]" "draws (host_of (db (app serving))) = 2"
  "entropy (host_of (db (app serving))) = entropy (host_of sample_conn)"
  by (simp_all add: serving_def online_state run_simps)

lemma gaming_facts:
  "tcp_conn_senders (app gaming) = [101 \<mapsto> 0]"
  "map_option u_sent (udp_tasks gaming 1) = Some [((7, 99), [104, 105])]"
  "draws (host_of (db (app gaming))) = 2"
  by (simp_all add: gaming_def online_state run_simps)

definition as_new_admin :: headers where
  "as_new_admin = [''x-session-token'' \<mapsto> session_token sample_ext ''adm_'' 101]"

lemma administered_facts:
  "is_admin sample_ext as_new_admin (app administered)"
  "tunnels (tabs (db (app administered))) = [blog, game]"
  by (simp_all add: administered_def online_state sample_start_def new_app_state_def draw_uuid_def Let_def admin_login_run ADMIN_PASSWORD_def is_admin_def
      extract_token_def as_new_admin_def session_token_trimmed [OF sample_uuid_graphic])

end
