(* ===== verification/Account_Props.thy ===== *)
theory Account_Props
  imports Sample_Run
begin

text \<open>
  Properties of the accounts of users and agents (\<open>src/admin.rs\<close>, \<open>src/db.rs\<close>): registration
  and its dedicated port, login, sessions, the administrator, and the claiming of agents.
\<close>

section \<open>Registration and login\<close>

definition carol :: auth_request where
  "carol = \<lparr>rq_username = ''carol'', rq_password = ''secret''\<rparr>"

lemma carol_name: "str_trim ''carol'' = ''carol''"
  by (rule str_trim_graphic) (simp add: graphic_def)

text \<open>
  Carol's dedicated port: the candidates \<open>101 mod 10\<close> and \<open>102 mod 10\<close> above 20000 are taken.
\<close>

lemma carol_port:
  fixes d :: conn
  defines "d \<equiv> sample_conn\<lparr>host_of := (host_of sample_conn)\<lparr>draws := 1\<rparr>\<rparr>"
  shows "random_port 1000 (20000, 20010) d = (Ok (Some 20003),
    d\<lparr>host_of := (host_of d)\<lparr>draws := 4, stmts := 3\<rparr>\<rparr>)"
proof -
  have "random_port (Suc (Suc (Suc n))) (20000, 20010) d = (Ok (Some 20003),
    d\<lparr>host_of := (host_of d)\<lparr>draws := 4, stmts := 3\<rparr>\<rparr>)" for n
    by (simp add: d_def and_then_def new_v4_def count_port_def query_sql_def next_stmt_def
        sample_conn_def sample_tables_def sample_rows Let_def)
  from this [of 997] show ?thesis by simp
qed

lemma carol_registers:
  "\<exists>page t. register sample_ext carol sample_app = (Ok (201, page), t)"
  using carol_port
  by (simp add: register_def carol_def carol_name register_user_def generate_unique_dedicated_port_def
      insert_user_def db_simps add_user_session_def sample_conn_def sample_tables_def
      sample_rows Let_def)

text \<open>
  C8: Who has registered can log in with the same name and password, and the new session token,
  sent as a bearer token, identifies the same user to \<open>get_me\<close>; a password with another hash
  is refused with 401.
\<close>

theorem register_login_me:
  assumes "reliable (db s)" and "uuid_text_graphic x"
    and "register x b s = (Ok (st, page), t)"
    and "str_trim (rq_username b') = str_trim (rq_username b)"
  shows "\<exists>tok0 r. page = JAuth tok0 r \<and> st = 201 \<and> ur_username r = str_trim (rq_username b)
    \<and> (rq_password b' = rq_password b \<longrightarrow> (\<exists>tok v. login x b' t = (Ok (200, JAuth tok r), v)
         \<and> (\<forall>h. bearer x h tok \<longrightarrow> fst (get_me x h v) = Ok (200, JUser r))))
    \<and> (hash_password (rq_password b') \<noteq> hash_password (rq_password b) \<longrightarrow>
         fst (login x b' t) = Err (401, ''Invalid username or password''))"
proof -
  from register_stored [OF assms(1,3)] obtain tok0 r where st: "st = 201" "page = JAuth tok0 r"
    and rel: "reliable (db t)" and r: "ur_username r = str_trim (rq_username b)" "\<not> ur_is_banned r"
    and new: "ur_id r \<notin> ur_id ` set (users (tabs (db s)))"
    and rows: "tabs (db t) = (tabs (db s))\<lparr>users := users (tabs (db s)) @
       [\<lparr>ur_id = ur_id r, ur_username = ur_username r, ur_dedicated_port = ur_dedicated_port r,
         ur_is_banned = False, ur_created_at = ur_created_at r,
         ur_password_hash = hash_password (rq_password b)\<rparr>]\<rparr>"
    and ver: "\<And>n pw. n = ur_username r \<Longrightarrow> fst (verify_user n pw (db t))
       = Ok (if hash_password pw = hash_password (rq_password b) then Some r else None)" by metis
  have v: "fst (verify_user (str_trim (rq_username b')) (rq_password b') (db t))
       = Ok (if hash_password (rq_password b') = hash_password (rq_password b) then Some r else None)"
    using ver r(1) assms(4) by simp
  have ok: "\<exists>tok v. login x b' t = (Ok (200, JAuth tok r), v)
      \<and> (\<forall>h. bearer x h tok \<longrightarrow> fst (get_me x h v) = Ok (200, JUser r))"
    if pw: "rq_password b' = rq_password b"
  proof -
    obtain w u where w: "read_only t w" and l: "login x b' t =
        (Ok (200, JAuth (session_token x ''usr_'' u) r),
         add_user_session (session_token x ''usr_'' u) (ur_id r) w)"
      by (rule login_run [OF v, where x = x]) (use pw r(2) in auto)
    let ?tok = "session_token x ''usr_'' u" and ?v = "add_user_session (session_token x ''usr_'' u) (ur_id r) w"
    have look: "map_option user_of_row (lookup_by ur_id (ur_id r) (users (tabs (db ?v)))) = Some r"
      using lookup_append_last [OF new] read_only_fields(1) [OF w] rows user_row_record [OF r(2)]
      by (simp add: add_user_session_def)
    have relv: "reliable (db ?v)" using read_only_fields(12) [OF w] rel by (simp add: add_user_session_def)
    have "fst (get_me x h ?v) = Ok (200, JUser r)" if "bearer x h ?tok" for h
    proof -
      have "get_current_user_id x h ?v = Some (ur_id r)"
        using that session_token_trimmed [OF assms(2)] by (simp add: bearer_session add_user_session_def)
      then show ?thesis by (rule get_me_run [OF _ relv]) (use look in auto)
    qed
    with l show ?thesis by blast
  qed
  have "fst (login x b' t) = Err (401, ''Invalid username or password'')"
    if "hash_password (rq_password b') \<noteq> hash_password (rq_password b)"
    by (rule login_run [OF v, where x = x]) (use that in simp)
  with st r(1) ok show ?thesis by blast
qed

theorem register_login_me_witness:
  "\<exists>st page t. register sample_ext carol sample_app = (Ok (st, page), t) \<and> st = 201
    \<and> (\<exists>tok r v. login sample_ext carol t = (Ok (200, JAuth tok r), v) \<and> ur_username r = ''carol'')"
proof -
  obtain st page t where run: "register sample_ext carol sample_app = (Ok (st, page), t)"
    using carol_registers by blast
  from register_login_me [OF _ sample_uuid_graphic run refl] run show ?thesis
    by (auto simp: carol_def carol_name)
qed

text \<open>
  C9: Logging in decides by the stored row with that name and password hash: 401 when there is
  none, 403 when the user is banned, and otherwise 200 with a new token. Only the success
  changes the sessions, by exactly that token; the tables never change.
\<close>

theorem login_decision:
  assumes "reliable (db s)"
  shows "case find (\<lambda>r. ur_username r = str_trim (rq_username b)
        \<and> ur_password_hash r = hash_password (rq_password b)) (users (tabs (db s))) of
      None \<Rightarrow> fst (login x b s) = Err (401, ''Invalid username or password'')
        \<and> user_sessions (snd (login x b s)) = user_sessions s
    | Some r \<Rightarrow>
        (if ur_is_banned r
         then fst (login x b s) = Err (403, ''This account is suspended'')
           \<and> user_sessions (snd (login x b s)) = user_sessions s
         else \<exists>u. fst (login x b s) = Ok (200, JAuth (session_token x ''usr_'' u) (user_of_row r))
           \<and> user_sessions (snd (login x b s))
               = (user_sessions s)(session_token x ''usr_'' u \<mapsto> ur_id r))"
proof -
  let ?n = "str_trim (rq_username b)" and ?us = "users (tabs (db s))"
  let ?f = "find (\<lambda>r. ur_username r = ?n \<and> ur_password_hash r = hash_password (rq_password b)) ?us"
  have "fst (verify_user ?n (rq_password b) (db s)) = Ok (map_option user_of_row ?f)"
    using assms by (simp add: verify_user_def Let_def)
  then obtain t u where t: "read_only s t" and l: "login x b s =
      (case map_option user_of_row ?f of
         None \<Rightarrow> (Err (401, ''Invalid username or password''), t)
       | Some user \<Rightarrow> (if ur_is_banned user then (Err (403, ''This account is suspended''), t)
            else (Ok (200, JAuth (session_token x ''usr_'' u) user),
                  add_user_session (session_token x ''usr_'' u) (ur_id user) t)))"
    by (rule login_run)
  show ?thesis
    using l read_only_fields(6) [OF t]
    by (auto simp: user_of_row_def add_user_session_def split: option.split)
qed

theorem login_decision_witness:
  "fst (login sample_ext \<lparr>rq_username = ''nobody'', rq_password = ''secret''\<rparr> sample_app)
     = Err (401, ''Invalid username or password'')"
proof -
  have "str_trim ''nobody'' = ''nobody''" by (rule str_trim_graphic) (simp add: graphic_def)
  then show ?thesis
    using login_decision [where s = sample_app and x = sample_ext and
        b = "\<lparr>rq_username = ''nobody'', rq_password = ''secret''\<rparr>"]
    by (simp add: sample_rows)
qed

text \<open>
  C10: A registration that is refused (a short name or password: 400; a name that is taken, no
  free port, a failing database: 409) leaves every table and every session as it was.
\<close>

theorem refused_registration:
  assumes "register x b s = (Err (st, m), t)"
  shows "(st = 400 \<or> st = 409) \<and> tabs (db t) = tabs (db s) \<and> t = s\<lparr>db := db t\<rparr>"
  by (rule register_Err [OF assms])

theorem refused_registration_witness:
  "tabs (db (snd (register sample_ext \<lparr>rq_username = ''ab'', rq_password = ''secret''\<rparr> sample_app)))
     = sample_tables"
proof -
  let ?b = "\<lparr>rq_username = ''ab'', rq_password = ''secret''\<rparr>"
  have "str_trim ''ab'' = ''ab''" by (rule str_trim_graphic) (simp add: graphic_def)
  then have "register sample_ext ?b sample_app
      = (Err (400, ''Username must be at least 3 characters''), sample_app)"
    by (simp add: register_refused)
  from refused_registration [OF this] show ?thesis by (simp add: \<open>str_trim ''ab'' = ''ab''\<close> register_refused)
qed

text \<open>
  C11: Logging out removes exactly the request's own token from the user sessions; afterwards the
  same headers name no user. An administrator's token is not touched: it stays valid.
\<close>

theorem logout_ends_session:
  assumes "extract_token x h = Some tok"
  shows "get_current_user_id x h (snd (logout x h s)) = None
    \<and> user_sessions (snd (logout x h s)) = (user_sessions s)(tok := None)
    \<and> is_admin x h (snd (logout x h s)) = is_admin x h s"
  using assms by (simp add: logout_run is_admin_def get_current_user_id_def)

theorem logout_ends_session_witness:
  "get_current_user_id sample_ext as_alice (snd (logout sample_ext as_alice sample_app)) = None"
proof -
  have "extract_token sample_ext as_alice = Some ''usr_a''"
    by (simp add: extract_token_def as_alice_def trim_tokens)
  from logout_ends_session [OF this] show ?thesis by blast
qed

section \<open>The administrator\<close>

text \<open>
  C12: Without an administrator's token the administrator's endpoints answer 403 and change
  nothing; a wrong master password answers 401 and changes nothing.
\<close>

theorem admin_endpoints_guarded:
  assumes "\<not> is_admin x h s" and "pw \<noteq> ADMIN_PASSWORD"
  shows "admin_list_users x h s = (Err (403, ''Admin access required''), s)
    \<and> admin_ban_user x i h s = (Err (403, ''Admin access required''), s)
    \<and> admin_unban_user x i h s = (Err (403, ''Admin access required''), s)
    \<and> admin_login x pw s = (Err (401, ''Invalid master admin password''), s)"
  using not_admin_refused [OF assms(1)] assms(2) by (simp_all add: admin_login_run)

theorem admin_endpoints_guarded_witness:
  "admin_ban_user sample_ext (uuid_text 2) as_alice sample_app
     = (Err (403, ''Admin access required''), sample_app)"
  using admin_endpoints_guarded [where x = sample_ext and h = as_alice and s = sample_app
      and pw = "''guess''" and i = "uuid_text 2"] by (simp add: ADMIN_PASSWORD_def)







section \<open>The dedicated port\<close>

lemma map_err_Panic: "m s = (Panic, t) \<Longrightarrow> map_err g m s = (Panic, t)"
  by (simp add: map_err_def)

text \<open>
  C14: A successful registration gives the user a dedicated port inside the configured range that
  no other user has, and stores it.
\<close>

theorem dedicated_port_assigned:
  assumes "register x b s = (Ok (st, page), t)" and "fst (port_range s) < snd (port_range s)"
  shows "\<exists>tok r. page = JAuth tok r
    \<and> fst (port_range s) \<le> ur_dedicated_port r \<and> ur_dedicated_port r \<le> snd (port_range s)
    \<and> ur_dedicated_port r \<notin> taken_ports (db s)
    \<and> taken_ports (db t) = insert (ur_dedicated_port r) (taken_ports (db s))"
proof -
  from register_Ok [OF assms(1)] obtain u r c where page: "page = JAuth (session_token x ''usr_'' u) r"
    and reg: "register_user x (str_trim (rq_username b)) (rq_password b) (port_range s) (db s) = (Ok r, c)"
    and t: "tabs (db t) = tabs c" by metis
  from register_user_Ok [OF reg] obtain d where
    gen: "generate_unique_dedicated_port (port_range s) d
        = (Ok (ur_dedicated_port r), snd (generate_unique_dedicated_port (port_range s) d))"
    and new: "ur_dedicated_port r \<notin> taken_ports (db s)"
    and rows: "tabs c = (tabs (db s))\<lparr>users := users (tabs (db s)) @
       [\<lparr>ur_id = ur_id r, ur_username = str_trim (rq_username b),
         ur_dedicated_port = ur_dedicated_port r, ur_is_banned = False,
         ur_created_at = ur_created_at r, ur_password_hash = hash_password (rq_password b)\<rparr>]\<rparr>"
    by metis
  have "fst (port_range s) \<le> ur_dedicated_port r \<and> ur_dedicated_port r \<le> snd (port_range s)"
    using generate_port_Ok [OF assms(2) gen] by blast
  with page new t rows show ?thesis by (auto simp: taken_ports_def)
qed

theorem dedicated_port_assigned_witness:
  "\<exists>page t tok r. register sample_ext carol sample_app = (Ok (201, page), t) \<and> page = JAuth tok r
    \<and> 20000 \<le> ur_dedicated_port r \<and> ur_dedicated_port r \<le> 20010
    \<and> ur_dedicated_port r \<noteq> 20001"
proof -
  obtain page t where run: "register sample_ext carol sample_app = (Ok (201, page), t)"
    using carol_registers by blast
  from dedicated_port_assigned [OF run] show ?thesis
    by (fastforce simp: run taken_ports_def sample_rows)
qed

text \<open>
  C15: The search for a dedicated port always ends, and finds one exactly when one is free: with a
  working database it returns a free port of the range, or the error of an empty result when
  every port of the range is taken. The random attempts cannot make it miss the last free port.
\<close>

theorem port_search_complete:
  assumes "reliable c" and "lo < hi"
  shows "(\<exists>p d. generate_unique_dedicated_port (lo, hi) c = (Ok p, d)
        \<and> lo \<le> p \<and> p \<le> hi \<and> p \<notin> taken_ports c) = (\<not> {lo..hi} \<subseteq> taken_ports c)
    \<and> (\<exists>d. generate_unique_dedicated_port (lo, hi) c = (Err QueryReturnedNoRows, d))
        = ({lo..hi} \<subseteq> taken_ports c)"
proof -
  have range: "{lo..hi} = {p. fst (lo, hi) \<le> p \<and> p \<le> snd (lo, hi)}" by auto
  have ok: "lo \<le> p \<and> p \<le> hi \<and> p \<notin> taken_ports c"
    if "generate_unique_dedicated_port (lo, hi) c = (Ok p, d)" for p d
    using generate_port_Ok [OF _ that] assms(2) by simp
  have "(\<exists>p d. generate_unique_dedicated_port (lo, hi) c = (Ok p, d))
    \<or> (\<exists>d. generate_unique_dedicated_port (lo, hi) c = (Err QueryReturnedNoRows, d)
          \<and> {p. fst (lo, hi) \<le> p \<and> p \<le> snd (lo, hi)} \<subseteq> taken_ports c)"
    by (rule generate_port_result) (use assms in simp_all)
  then show ?thesis
  proof (elim disjE exE conjE)
    fix p d
    assume "generate_unique_dedicated_port (lo, hi) c = (Ok p, d)"
    with ok show ?thesis by fastforce
  next
    fix d
    assume "generate_unique_dedicated_port (lo, hi) c = (Err QueryReturnedNoRows, d)"
      and "{p. fst (lo, hi) \<le> p \<and> p \<le> snd (lo, hi)} \<subseteq> taken_ports c"
    with range show ?thesis by auto
  qed
qed

theorem port_search_complete_witness:
  "\<exists>p d. generate_unique_dedicated_port (20000, 20002) sample_conn = (Ok p, d)"
proof -
  have "(20000 :: u16) \<notin> taken_ports sample_conn" by (simp add: taken_ports_def sample_rows)
  moreover have "(20000 :: u16) \<in> {20000..20002}" by simp
  ultimately have "\<not> {20000..20002} \<subseteq> taken_ports sample_conn" by blast
  with port_search_complete [of sample_conn 20000 20002] show ?thesis by auto
qed

text \<open>
  C16: With a port range of a single port (\<open>--port-range-start\<close> equal to \<open>--port-range-end\<close>), every
  acceptable registration panics: the random choice divides by the width 0 of the range, before
  the sequential search, which would find the one port, is tried.
\<close>

theorem single_port_range_panics:
  assumes "port_range s = (p, p)"
    and "3 \<le> length (str_trim (rq_username b))" "6 \<le> length (rq_password b)"
  shows "fst (register x b s) = Panic"
proof -
  have g: "generate_unique_dedicated_port (p, p) d
      = (Panic, snd (generate_unique_dedicated_port (p, p) d))" for d
    by (simp add: prod_eq_iff generate_port_no_span)
  have "fst (register_user x n pw (p, p) c) = Panic" for n pw c
    unfolding register_user_def Let_def
    by (subst and_then_def) (simp add: new_v4_def and_then_Panic [OF g])
  then have "fst (on_db (register_user x n pw (p, p)) s) = Panic" for n pw
    by (simp add: on_db_def split: prod.split) (metis fst_conv)
  then obtain t where
    "on_db (register_user x (str_trim (rq_username b)) (rq_password b) (p, p)) s = (Panic, t)"
    by (metis prod.collapse)
  then show ?thesis
    using assms by (simp add: register_def Let_def map_err_Panic and_then_Panic)
qed

theorem single_port_range_panics_witness:
  "fst (register sample_ext carol (sample_app\<lparr>port_range := (8000, 8000)\<rparr>)) = Panic"
  by (rule single_port_range_panics) (simp_all add: carol_def carol_name)

end
