(* ===== verification/Agent_Props.thy ===== *)
theory Agent_Props
  imports Sample_Run
begin

text \<open>
  Properties of the agents' sessions (\<open>src/ws_handler.rs\<close>) and of their claiming through the web
  (\<open>src/admin.rs\<close>): claim codes, authentication, synchronisation of tunnels, disconnection.
\<close>

text \<open>A step of a spawned task: it has no error, it only ends or panics.\<close>

type_synonym 'a task = "(app_state, 'a, unit) prog"

section \<open>Claim codes\<close>

text \<open>
  C17: A claim request stores a new unowned agent whose claim code is six decimal digits and whose
  token starts with \<open>tk_\<close>, remembers the requesting session under the code, and answers with the
  code, its URL and the token.
\<close>

theorem claim_code_issued:
  assumes "create_agent_claim x n (db s) = (Ok (r, code), c)" and "outbox s (s_chan sess) = Some q"
  shows "\<exists>t. on_request_claim x sess n s = (Ok (sess\<lparr>current_claim_code := Some code\<rparr>), t)
    \<and> length code = 6 \<and> set code \<subseteq> set ''0123456789'' \<and> prefix ''tk_'' (ar_token r)
    \<and> ar_user_id r = None \<and> ar_claim_code r = Some code
    \<and> tabs (db t) = (tabs (db s))\<lparr>agents := agents (tabs (db s)) @ [r]\<rparr>
    \<and> pending_claims t = (pending_claims s)(code \<mapsto> s_chan sess)
    \<and> outbox t (s_chan sess) = Some (q @ [ClaimReady code (''/claim/'' @ code) (Some (ar_token r))])"
proof -
  let ?t = "post (s_chan sess) (ClaimReady code (claim_url code) (Some (ar_token r)))
      (set_pending code (s_chan sess) (s\<lparr>db := c\<rparr>))"
  have "outbox (set_pending code (s_chan sess) (s\<lparr>db := c\<rparr>)) (s_chan sess) = Some q"
    using assms(2) by (simp add: outbox_def set_pending_def)
  then show ?thesis
    using request_claim_run(1) [OF assms(1)] create_agent_claim_Ok [OF assms(1)]
      create_agent_claim_code [OF assms(1)]
    by (intro exI [of _ ?t]) (simp add: outbox_post claim_url_def set_pending_def)
qed

lemma sample_token_new: "remove_dashes (uuid_text u) \<noteq> ''one''" "remove_dashes (uuid_text u) \<noteq> ''two''"
proof -
  have "length (remove_dashes (uuid_text u)) = 32"
    by (simp add: uuid_text_def remove_hyphens [OF set_hex32] length_hex32)
  then show "remove_dashes (uuid_text u) \<noteq> ''one''" "remove_dashes (uuid_text u) \<noteq> ''two''" by auto
qed

lemma sample_claim: "\<exists>r code c. create_agent_claim sample_ext n sample_conn = (Ok (r, code), c)"
  by (simp add: create_agent_claim_def and_then_def new_v4_def now_secs_def exec_sql_def Let_def
      insert_agent_def sample_conn_def sample_tables_def sample_rows token_of_def sample_token_new
      user_ref_ok_def)

lemma sample_outbox: "outbox sample_app 0 = Some []" "outbox sample_app 1 = Some []"
  by (simp_all add: outbox_def)

definition waiting :: ws_session where
  "waiting = \<lparr>s_chan = 0, authenticated_agent_id = None, current_claim_code = Some ''123456''\<rparr>"

theorem claim_code_issued_witness:
  "\<exists>t code. on_request_claim sample_ext waiting ''tablet'' sample_app
       = (Ok (waiting\<lparr>current_claim_code := Some code\<rparr>), t) \<and> length code = 6"
proof -
  obtain r code c where "create_agent_claim sample_ext ''tablet'' (db sample_app) = (Ok (r, code), c)"
    using sample_claim [of "''tablet''"] by auto
  from claim_code_issued [OF this, of waiting "[]"] show ?thesis
    by (auto simp: waiting_def sample_outbox)
qed

text \<open>
  C18: An agent that comes back with the issued token before it has been claimed gets its own claim
  code again, on the new session, which replaces the old one as the session that waits for it.
\<close>

theorem pending_agent_keeps_code:
  assumes "create_agent_claim x n (db s) = (Ok (r, code), c)"
    and "tabs (db u) = tabs c" "reliable (db u)" "outbox u (s_chan sess) = Some q"
  shows "\<exists>t. (on_auth x sess (ar_token r) hostname :: ws_session task) u = (Ok (sess\<lparr>current_claim_code := Some code\<rparr>), t)
    \<and> pending_claims t = (pending_claims u)(code \<mapsto> s_chan sess)
    \<and> agent_senders t = agent_senders u
    \<and> outbox t (s_chan sess) = Some (q @ [ClaimReady code (''/claim/'' @ code) (Some (ar_token r))])"
proof -
  note row = create_agent_claim_Ok [OF assms(1)]
  have "lookup_by ar_token (ar_token r) (agents (tabs (db u))) = Some r"
    using row assms(2) by (simp add: lookup_append_last)
  moreover have "ar_claim_code r = Some code" using row by simp
  ultimately obtain t where t: "read_only u t" and run: "(on_auth x sess (ar_token r) hostname :: ws_session task) u =
      (Ok (sess\<lparr>current_claim_code := Some code\<rparr>),
       post (s_chan sess) (ClaimReady code (claim_url code) (Some (ar_token r)))
         (set_pending code (s_chan sess) t))"
    by (rule auth_pending [OF assms(3)])
  have "outbox (set_pending code (s_chan sess) t) (s_chan sess) = Some q"
    using assms(4) read_only_fields(10) [OF t] by (simp add: outbox_def set_pending_def)
  then show ?thesis
    using run read_only_fields(8,9) [OF t]
    by (intro exI [of _ "post (s_chan sess) (ClaimReady code (claim_url code) (Some (ar_token r)))
         (set_pending code (s_chan sess) t)"])
      (simp add: outbox_post claim_url_def set_pending_def)
qed

theorem pending_agent_keeps_code_witness:
  "\<exists>r code c t. create_agent_claim sample_ext ''tablet'' sample_conn = (Ok (r, code), c)
    \<and> (on_auth sample_ext waiting (ar_token r) ''tablet'' :: ws_session task) (sample_app\<lparr>db := c\<rparr>)
        = (Ok (waiting\<lparr>current_claim_code := Some code\<rparr>), t)"
proof -
  obtain r code c where c: "create_agent_claim sample_ext ''tablet'' sample_conn = (Ok (r, code), c)"
    using sample_claim by blast
  then have "reliable c" using obeysD [OF agent_update_world(1)] sample_reliable(1) same_world_reliable by blast
  then show ?thesis
    using pending_agent_keeps_code [where s = sample_app and u = "sample_app\<lparr>db := c\<rparr>" and sess = waiting
        and x = sample_ext and n = "''tablet''" and r = r and code = code and c = c and q = "[]"] c
    by (auto simp: waiting_def outbox_def)
qed

section \<open>Claiming through the web\<close>

text \<open>
  C19: When a logged-in user claims an agent whose session is waiting, the agent becomes that user's
  and goes online, its code is consumed in the database and in memory, the waiting session becomes
  the agent's sender, and it is told its identity and then its tunnels.
\<close>

theorem web_claim_connects:
  assumes "get_current_user_id x h s = Some u" "u \<in> ur_id ` set (users (tabs (db s)))"
    and "reliable (db s)" "clock_ok (db s)"
    and "find (\<lambda>a. ar_claim_code a = Some code) (agents (tabs (db s))) = Some ag"
    and "uuid_parse_str x (ar_id ag) = Some a"
    and "pending_claims s code = Some ch" "outbox s ch = Some q"
  shows "\<exists>t now. claim_agent x code h s = (Ok (200, Text ''Agent claimed successfully''), t)
    \<and> tabs (db t) = (tabs (db s))\<lparr>agents := update_by ar_id (ar_id ag)
        (\<lambda>r. r\<lparr>ar_claim_code := None, ar_user_id := Some u, ar_is_online := True, ar_last_seen := now\<rparr>)
        (agents (tabs (db s)))\<rparr>
    \<and> pending_claims t = (pending_claims s)(code := None)
    \<and> agent_senders t = (agent_senders s)(a \<mapsto> ch)
    \<and> outbox t ch = Some (q @ [AuthSuccess a (ar_name ag) (ar_token ag),
        SyncTunnels (sync_configs x a (agent_tunnels x a s))])"
proof (rule claim_waiting [OF assms(1-7)])
  fix now v
  assume run: "claim_agent x code h s = (Ok (200, Text ''Agent claimed successfully''),
      connect_agent x a (ar_name ag) (ar_token ag) ch v)"
    and v: "v = s\<lparr>pending_claims := (pending_claims s)(code := None), db := db v\<rparr>"
    and w: "same_world (db s) (db v)"
    and rows: "tabs (db v) = (tabs (db s))\<lparr>agents := update_by ar_id (ar_id ag)
       (\<lambda>r. r\<lparr>ar_claim_code := None, ar_user_id := Some u, ar_is_online := True, ar_last_seen := now\<rparr>)
       (agents (tabs (db s)))\<rparr>"
  have "relay_chans v = relay_chans s" "pending_claims v = (pending_claims s)(code := None)"
    "agent_senders v = agent_senders s" by (subst v, simp)+
  moreover have "agent_tunnels x a v = agent_tunnels x a s"
    by (rule agent_tunnels_cong) (use w assms(3) rows in \<open>simp_all add: same_world_reliable\<close>)
  ultimately show ?thesis
    using run rows connect_effect [where x = x and a = a and name = "ar_name ag"
        and token = "ar_token ag" and ch = ch and s = v] assms(8)
    by (intro exI [of _ "connect_agent x a (ar_name ag) (ar_token ag) ch v"] exI [of _ now])
      (simp add: outbox_frame [of v s])
qed

lemma desktop_claimable:
  "find (\<lambda>a. ar_claim_code a = Some ''123456'') (agents (tabs (db sample_app))) = Some desktop"
  "uuid_parse_str sample_ext (ar_id desktop) = Some 12"
  "uuid_text 1 \<in> ur_id ` set (users (tabs (db sample_app)))" "pending_claims sample_app ''123456'' = Some 0"
  by (simp_all add: sample_rows)

theorem web_claim_connects_witness:
  "\<exists>t. claim_agent sample_ext ''123456'' as_alice sample_app
      = (Ok (200, Text ''Agent claimed successfully''), t)
    \<and> agent_senders t = [11 \<mapsto> 1, 12 \<mapsto> 0]"
  using web_claim_connects [OF sample_sessions(1) desktop_claimable(3) _ _ desktop_claimable(1,2,4)
      sample_outbox(1)] by auto

text \<open>
  C20: A claim code is good for one agent only: a claim removes the code from exactly one stored
  agent, so when codes are unique the same code is answered with 404 from then on.
\<close>

theorem claim_code_used_once:
  assumes "tables_wf (tabs c)" and "claim_agent_to_user code u c = (Ok (Some ag), d)"
  shows "length (filter (\<lambda>a. ar_claim_code a = Some code) (agents (tabs d))) + 1
      = length (filter (\<lambda>a. ar_claim_code a = Some code) (agents (tabs c)))
    \<and> (length (filter (\<lambda>a. ar_claim_code a = Some code) (agents (tabs c))) = 1 \<longrightarrow>
        (\<forall>x h s. get_current_user_id x h s \<noteq> None \<and> reliable (db s) \<and> tabs (db s) = tabs d \<longrightarrow>
           fst (claim_agent x code h s) = Err (404, ''Invalid or expired claim code'')))"
proof -
  have one: "length (filter (\<lambda>a. ar_claim_code a = Some code) (agents (tabs d))) + 1
      = length (filter (\<lambda>a. ar_claim_code a = Some code) (agents (tabs c)))"
    by (rule claim_agent_consumes [OF assms])
  have "fst (claim_agent x code h s) = Err (404, ''Invalid or expired claim code'')"
    if uniq: "length (filter (\<lambda>a. ar_claim_code a = Some code) (agents (tabs c))) = 1"
      and s: "get_current_user_id x h s \<noteq> None" "reliable (db s)" "tabs (db s) = tabs d" for x h s
  proof -
    from s(1) obtain v where "get_current_user_id x h s = Some v" by blast
    moreover have "length (filter (\<lambda>a. ar_claim_code a = Some code) (agents (tabs d))) = 0"
      using one uniq by simp
    then have "\<And>a. a \<in> set (agents (tabs (db s))) \<Longrightarrow> ar_claim_code a \<noteq> Some code"
      unfolding filter_length_0 s(3) by blast
    ultimately show ?thesis using s(2) by (simp add: claim_unknown)
  qed
  with one show ?thesis by blast
qed

theorem claim_code_used_once_witness:
  "\<exists>ag d. claim_agent_to_user ''123456'' (uuid_text 1) sample_conn = (Ok (Some ag), d)
    \<and> length (filter (\<lambda>a. ar_claim_code a = Some ''123456'') (agents (tabs d))) = 0"
proof -
  have "\<exists>ag d. claim_agent_to_user ''123456'' (uuid_text 1) sample_conn = (Ok (Some ag), d)"
    by (simp add: claim_agent_to_user_def and_then_def query_sql_def exec_sql_def next_stmt_def
        set_claimed_def sample_conn_def sample_tables_def sample_rows Let_def)
  then obtain ag d where run: "claim_agent_to_user ''123456'' (uuid_text 1) sample_conn = (Ok (Some ag), d)"
    by blast
  have "length (filter (\<lambda>a. ar_claim_code a = Some ''123456'') (agents (tabs d))) + 1 = 1"
    using claim_code_used_once [OF _ run, THEN conjunct1] by (simp add: sample_rows)
  with run show ?thesis by auto
qed

text \<open>
  C21: A session that was claimed through the web is not cleaned up when it ends. The handler's local
  \<open>authenticated_agent_id\<close> is set only by an \<open>Auth\<close> message, so the clean-up of the claimed session
  leaves the closed channel registered as the agent's sender, the agent online and every
  listener running.
\<close>

theorem claimed_session_not_cleaned_up:
  assumes "get_current_user_id x h s = Some u" "u \<in> ur_id ` set (users (tabs (db s)))"
    and "reliable (db s)" "clock_ok (db s)"
    and "find (\<lambda>a. ar_claim_code a = Some code) (agents (tabs (db s))) = Some ag"
    and "uuid_parse_str x (ar_id ag) = Some a"
    and "pending_claims s code = Some (s_chan sess)" and "authenticated_agent_id sess = None"
  shows "\<exists>t v. fst (claim_agent x code h s) = Ok (200, Text ''Agent claimed successfully'')
    \<and> t = snd (claim_agent x code h s) \<and> (socket_cleanup x sess :: unit task) t = (Ok (), v)
    \<and> relay_closed (s_chan sess) v \<and> agent_senders v a = Some (s_chan sess)
    \<and> (\<exists>r \<in> set (agents (tabs (db v))). ar_id r = ar_id ag \<and> ar_is_online r)
    \<and> listeners v = listeners t \<and> allocated_ports v = allocated_ports t"
proof (rule claim_waiting [OF assms(1-7)])
  fix now w
  let ?t = "connect_agent x a (ar_name ag) (ar_token ag) (s_chan sess) w"
  let ?v = "snd ((socket_cleanup x sess :: unit task) ?t)"
  assume run: "claim_agent x code h s = (Ok (200, Text ''Agent claimed successfully''), ?t)"
    and rows: "tabs (db w) = (tabs (db s))\<lparr>agents := update_by ar_id (ar_id ag)
       (\<lambda>r. r\<lparr>ar_claim_code := None, ar_user_id := Some u, ar_is_online := True, ar_last_seen := now\<rparr>)
       (agents (tabs (db s)))\<rparr>"
  note ce = connect_effect [where x = x and a = a and name = "ar_name ag" and token = "ar_token ag"
      and ch = "s_chan sess" and s = w]
  have "ag \<in> set (agents (tabs (db s)))" using assms(5) by (auto simp: find_Some_iff)
  then have online: "\<exists>r \<in> set (agents (tabs (db ?t))). ar_id r = ar_id ag \<and> ar_is_online r"
    unfolding ce(1) rows by (intro bexI [of _ "ag\<lparr>ar_claim_code := None, ar_user_id := Some u,
        ar_is_online := True, ar_last_seen := now\<rparr>"]) (auto simp: set_update_by image_iff)
  have cl: "relay_closed (s_chan sess) (drop_relay_rx (s_chan sess) ?t)"
    by (simp add: relay_closed_def drop_relay_rx_def split: option.split)
  have "(socket_cleanup x sess :: unit task) ?t = (Ok (), ?v)"
    using assms(8) by (cases "current_claim_code sess") (simp_all add: socket_cleanup_def)
  moreover have "relay_closed (s_chan sess) ?v" "agent_senders ?v = agent_senders ?t"
    "tabs (db ?v) = tabs (db ?t)" "listeners ?v = listeners ?t" "allocated_ports ?v = allocated_ports ?t"
    using assms(8) cl
    by (cases "current_claim_code sess"; simp add: socket_cleanup_def relay_closed_def)+
  ultimately show ?thesis
    using run online ce(3) by (intro exI [of _ ?t] exI [of _ ?v]) simp
qed

theorem claimed_session_not_cleaned_up_witness:
  "\<exists>t v. t = snd (claim_agent sample_ext ''123456'' as_alice sample_app)
    \<and> (socket_cleanup sample_ext waiting :: unit task) t = (Ok (), v)
    \<and> relay_closed 0 v \<and> agent_senders v 12 = Some 0"
  using claimed_session_not_cleaned_up [where sess = waiting, OF sample_sessions(1)
      desktop_claimable(3) _ _ desktop_claimable(1,2)]
  by (auto simp: waiting_def)

section \<open>Authentication and disconnection\<close>



text \<open>
  C23: An unknown token is answered with an error on the session's own channel; neither the tables
  nor the registered senders, sessions, ports or listeners change.
\<close>

theorem unknown_token_refused:
  assumes "reliable (db s)" and "k \<notin> ar_token ` set (agents (tabs (db s)))"
    and "outbox s (s_chan sess) = Some q"
  shows "\<exists>t. (on_auth x sess k hostname :: ws_session task) s = (Ok sess, t)
    \<and> tabs (db t) = tabs (db s) \<and> agent_senders t = agent_senders s
    \<and> pending_claims t = pending_claims s \<and> listeners t = listeners s
    \<and> allocated_ports t = allocated_ports s
    \<and> outbox t (s_chan sess) = Some (q @ [ErrorMsg ''Invalid or expired token''])"
proof (rule auth_unknown [OF assms(1,2)])
  fix t
  assume t: "read_only s t" and run: "(on_auth x sess k hostname :: ws_session task) s
    = (Ok sess, post (s_chan sess) (ErrorMsg ''Invalid or expired token'') t)"
  show ?thesis
    using run read_only_fields(1-3,8-10) [OF t] assms(3)
    by (intro exI [of _ "post (s_chan sess) (ErrorMsg ''Invalid or expired token'') t"])
      (simp add: outbox_post outbox_frame [of t s])
qed

theorem unknown_token_refused_witness:
  "\<exists>t. (on_auth sample_ext waiting ''tk_zero'' ''x'' :: ws_session task) sample_app = (Ok waiting, t)
    \<and> outbox t 0 = Some [ErrorMsg ''Invalid or expired token'']"
  using unknown_token_refused [where s = sample_app and sess = waiting and k = "''tk_zero''" and q = "[]"
      and x = sample_ext and hostname = "''x''"]
  by (auto simp: waiting_def sample_outbox sample_rows)



end
