(* ===== verification/Tunnel_Props.thy ===== *)
theory Tunnel_Props
  imports Sample_Run
begin

text \<open>
  Properties of the tunnels: creation on the user's dedicated port, switching, update and deletion
  (\<open>src/admin.rs\<close>), the listener registry (\<open>src/tunnel_manager.rs\<close>) and the port pool
  (\<open>src/state.rs\<close>).
\<close>

section \<open>Creation\<close>

lemma start_succeeds:
  assumes "listeners_wf s" "\<not> port_in_use (proto_of k) (tc_public_port k) s"
    and "bind_error s (binds s) = None"
  shows "fst (start_tunnel_listener k ch s) = Ok ()"
proof -
  let ?s = "stop_tunnel_listener (tc_id k) s"
  have "\<not> port_in_use (proto_of k) (tc_public_port k) ?s"
    using assms(1,2) stop_running_listener [OF assms(1)]
    by (simp add: port_in_use_iff stop_wf) blast
  moreover have "bind_error ?s = bind_error s" "binds ?s = binds s"
    by (simp_all add: stop_tunnel_listener_def abort_task_def set_status_def split: option.split)
  ultimately show ?thesis
    using assms(3)
    by (simp add: start_tunnel_listener_def proto_of_def bind_socket_def map_err_def and_then_def
        Let_def split: if_splits)
qed

text \<open>
  C25: A logged-in user whose dedicated port is free can create a tunnel for an existing agent under
  a free subdomain: the row is stored under the next random id with that port, the port is
  taken, and if the agent is connected it is sent the tunnel and, when the socket can be bound,
  the tunnel is listening.
\<close>

theorem tunnel_created:
  assumes "get_current_user_id x h s = Some uid" "uuid_parse_str x (cr_agent_id b) = Some a"
    and "lookup_by ur_id uid (users (tabs (db s))) = Some u" "reliable (db s)"
    and "sub_free (cr_subdomain b) s"
    and "ur_dedicated_port u \<notin> allocated_ports s" "1024 \<le> ur_dedicated_port u"
    and "cr_agent_id b \<in> ar_id ` set (agents (tabs (db s)))"
    and "clock_ok (db s)" "uuid_text_ok x"
    and "uuid_to_string x (next_uuid s) \<notin> t_id ` set (tunnels (tabs (db s)))"
    and "agent_senders s a = Some ch" "outbox s ch = Some q" "listeners_wf s"
  shows "\<exists>r t. create_tunnel x h b s = (Ok (201, JTunnel r), t)
    \<and> tabs (db t) = (tabs (db s))\<lparr>tunnels := tunnels (tabs (db s)) @
         [created_row b u (uuid_to_string x (next_uuid s)) (tr_created_at r)]\<rparr>
    \<and> allocated_ports t = insert (ur_dedicated_port u) (allocated_ports s)
    \<and> outbox t ch = Some (q @ [StartTunnel (config_of_created (next_uuid s) a (ur_dedicated_port u) r)])
    \<and> (\<not> port_in_use (if ascii_lower (cr_protocol b) = ''tcp'' then Tcp else Udp) (ur_dedicated_port u) s
         \<and> bind_error s (binds s) = None \<longrightarrow> running t (next_uuid s))"
proof (rule create_tunnel_success [OF assms(1-11)])
  fix r t
  let ?k = "config_of_created (next_uuid s) a (ur_dedicated_port u) r"
  assume run: "create_tunnel x h b s = (Ok (201, JTunnel r), start_on a ?k t)"
    and id: "tr_id r = uuid_to_string x (next_uuid s)" and pro: "tr_protocol r = cr_protocol b"
    and al: "allocated_ports t = insert (ur_dedicated_port u) (allocated_ports s)"
    and eq: "agent_senders t = agent_senders s" "relay_chans t = relay_chans s" "listeners t = listeners s"
      "tunnel_tasks t = tunnel_tasks s" "next_listener t = next_listener s" "bind_error t = bind_error s"
      "binds t = binds s"
    and rows: "tabs (db t) = (tabs (db s))\<lparr>tunnels := tunnels (tabs (db s)) @
       [created_row b u (tr_id r) (tr_created_at r)]\<rparr>"
  have k: "tc_id ?k = next_uuid s" "tc_public_port ?k = ur_dedicated_port u"
    "proto_of ?k = (if ascii_lower (cr_protocol b) = ''tcp'' then Tcp else Udp)"
    by (simp_all add: config_of_created_def proto_of_def pro)
  have wf: "listeners_wf t" using assms(14) listeners_wf_frame [OF eq(3,4,5)] by simp
  have use: "port_in_use p n t = port_in_use p n s" for p n by (simp add: port_in_use_def eq)
  have "running (start_on a ?k t) (next_uuid s)"
    if "\<not> port_in_use (proto_of ?k) (ur_dedicated_port u) s" "bind_error s (binds s) = None"
    using start_on_running(3) [OF wf, of a ch ?k] start_succeeds [OF wf, of ?k ch] that assms(12)
    by (simp add: k(1,2) use eq)
  then show ?thesis
    using run al rows id assms(12,13)
    by (intro exI [of _ r] exI [of _ "start_on a ?k t"])
      (simp add: start_on_outbox outbox_frame [OF eq(2)] eq(1) k(3))
qed

definition new_tunnel :: create_tunnel_request where
  "new_tunnel = \<lparr>cr_agent_id = uuid_text 11, cr_name = ''web'', cr_local_port = 80,
     cr_protocol = ''TCP'', cr_preferred_port = None, cr_subdomain = Some ''www''\<rparr>"

lemma www: "clean_subdomain (Some ''www'') = Some ''www''"
proof -
  have "str_trim ''www'' = ''www''" by (rule str_trim_graphic) (simp add: graphic_def)
  then show ?thesis by (simp add: clean_subdomain_def)
qed

lemma new_tunnel_facts:
  "uuid_parse_str sample_ext (cr_agent_id new_tunnel) = Some 11"
  "lookup_by ur_id (uuid_text 1) (users (tabs (db sample_app))) = Some alice"
  "reliable (db sample_app)" "sub_free (cr_subdomain new_tunnel) sample_app"
  "ur_dedicated_port alice \<notin> allocated_ports sample_app" "1024 \<le> ur_dedicated_port alice"
  "cr_agent_id new_tunnel \<in> ar_id ` set (agents (tabs (db sample_app)))" "clock_ok (db sample_app)"
  "uuid_to_string sample_ext (next_uuid sample_app) \<notin> t_id ` set (tunnels (tabs (db sample_app)))"
  by (simp_all add: new_tunnel_def www sub_free_def same_subdomain_def ascii_lower_def lower_char_def
      next_uuid_def draw_uuid_def lookup_by_def sample_rows)

theorem tunnel_created_witness:
  "\<exists>r t. create_tunnel sample_ext as_alice new_tunnel sample_app = (Ok (201, JTunnel r), t)
    \<and> allocated_ports t = {20001} \<and> running t 100"
proof -
  have "agent_senders sample_app 11 = Some 1" "outbox sample_app 1 = Some []"
    by (simp_all add: outbox_def)
  note ok = tunnel_created [OF sample_sessions(1) new_tunnel_facts(1-8) sample_uuid_text
      new_tunnel_facts(9) this sample_lis(2)]
  have "next_uuid sample_app = 100" by (simp add: next_uuid_def draw_uuid_def)
  moreover have "\<not> port_in_use p n sample_app" "bind_error sample_app (binds sample_app) = None" for p n
    by (simp_all add: port_in_use_def list_ex_iff sample_app_def sample_start_def new_app_state_def)
  ultimately show ?thesis using ok by (auto simp: alice_def)
qed

lemma session_kept:
  "user_sessions t = user_sessions s \<Longrightarrow> get_current_user_id x h t = get_current_user_id x h s"
  by (simp add: get_current_user_id_def split: option.split)

text \<open>
  C26: While another tunnel holds the user's dedicated port, a further tunnel is refused with 409 and
  nothing is stored, reserved or started.
\<close>

theorem busy_port_refused:
  assumes "get_current_user_id x h s = Some uid" "uuid_parse_str x (cr_agent_id b) = Some a"
    and "lookup_by ur_id uid (users (tabs (db s))) = Some u" "reliable (db s)"
    and "sub_free (cr_subdomain b) s" and "ur_dedicated_port u \<in> allocated_ports s"
  shows "\<exists>m t. create_tunnel x h b s = (Err (409, m), t) \<and> tabs (db t) = tabs (db s)
    \<and> allocated_ports t = allocated_ports s \<and> listeners t = listeners s
    \<and> relay_chans t = relay_chans s"
  by (rule create_tunnel_busy [OF assms]) (use read_only_fields(1-3,10) in blast)

theorem busy_port_refused_witness:
  "\<exists>m t. create_tunnel sample_ext as_alice new_tunnel (sample_app\<lparr>allocated_ports := {20001}\<rparr>)
     = (Err (409, m), t)"
proof -
  let ?s = "sample_app\<lparr>allocated_ports := {20001}\<rparr>"
  have "get_current_user_id sample_ext as_alice ?s = Some (uuid_text 1)"
    using sample_sessions(1) session_kept [of ?s sample_app] by simp
  moreover have "sub_free (cr_subdomain new_tunnel) ?s" "ur_dedicated_port alice \<in> allocated_ports ?s"
    using new_tunnel_facts(4) by (simp_all add: sub_free_def alice_def)
  ultimately show ?thesis
    using busy_port_refused [where s = ?s and x = sample_ext and b = new_tunnel] new_tunnel_facts(1-3)
    by fastforce
qed

text \<open>
  C27: A creation that fails in the database keeps the port: the handler answers 500, stores nothing,
  and leaves the dedicated port allocated. From then on every creation of the user, however
  correct, is refused with 409, although the user has no tunnel on the port.
\<close>

theorem failed_creation_leaks_port:
  assumes "get_current_user_id x h s = Some uid" "uuid_parse_str x (cr_agent_id b) = Some a"
    and "lookup_by ur_id uid (users (tabs (db s))) = Some u" "reliable (db s)"
    and "sub_free (cr_subdomain b) s"
    and "ur_dedicated_port u \<notin> allocated_ports s" "1024 \<le> ur_dedicated_port u"
    and "fk_enforced (db s)" "cr_agent_id b \<notin> ar_id ` set (agents (tabs (db s)))" "clock_ok (db s)"
  shows "\<exists>m t. create_tunnel x h b s = (Err (500, m), t) \<and> tabs (db t) = tabs (db s)
    \<and> ur_dedicated_port u \<in> allocated_ports t
    \<and> (\<forall>b' a'. uuid_parse_str x (cr_agent_id b') = Some a' \<and> sub_free (cr_subdomain b') t \<longrightarrow>
         (\<exists>m'. fst (create_tunnel x h b' t) = Err (409, m')))"
proof (rule create_tunnel_leak [OF assms])
  fix m t
  assume run: "create_tunnel x h b s = (Err (500, m), t)" "tabs (db t) = tabs (db s)"
    and al: "allocated_ports t = insert (ur_dedicated_port u) (allocated_ports s)"
    and ses: "user_sessions t = user_sessions s" and w: "same_world (db s) (db t)"
  have uid: "get_current_user_id x h t = Some uid"
    using assms(1) session_kept [OF ses] by simp
  have rel: "reliable (db t)" using w assms(4) by (simp add: same_world_reliable)
  have "\<exists>m'. fst (create_tunnel x h b' t) = Err (409, m')"
    if "uuid_parse_str x (cr_agent_id b') = Some a'" "sub_free (cr_subdomain b') t" for b' a'
    by (rule create_tunnel_busy [OF uid that(1) _ rel that(2), of u])
      (use assms(3) run(2) al in auto)
  with run al show ?thesis by blast
qed

definition lost_tunnel :: create_tunnel_request where
  "lost_tunnel = new_tunnel\<lparr>cr_agent_id := uuid_text 99\<rparr>"

theorem failed_creation_leaks_port_witness:
  "\<exists>m t m'. create_tunnel sample_ext as_alice lost_tunnel sample_app = (Err (500, m), t)
    \<and> fst (create_tunnel sample_ext as_alice new_tunnel t) = Err (409, m')"
proof -
  have lost: "uuid_parse_str sample_ext (cr_agent_id lost_tunnel) = Some 99"
    "sub_free (cr_subdomain lost_tunnel) sample_app" "fk_enforced (db sample_app)"
    "cr_agent_id lost_tunnel \<notin> ar_id ` set (agents (tabs (db sample_app)))"
    using new_tunnel_facts(4) by (simp_all add: lost_tunnel_def sample_rows)
  obtain m t where t: "create_tunnel sample_ext as_alice lost_tunnel sample_app = (Err (500, m), t)"
    "tabs (db t) = tabs (db sample_app)"
    "\<forall>b' a'. uuid_parse_str sample_ext (cr_agent_id b') = Some a' \<and> sub_free (cr_subdomain b') t \<longrightarrow>
         (\<exists>m'. fst (create_tunnel sample_ext as_alice b' t) = Err (409, m'))"
    using failed_creation_leaks_port [OF sample_sessions(1) lost(1) new_tunnel_facts(2,3) lost(2)
        new_tunnel_facts(5,6) lost(3,4) new_tunnel_facts(8)] by blast
  have "sub_free (cr_subdomain new_tunnel) t"
    using new_tunnel_facts(4) t(2) by (simp add: sub_free_def)
  with t(1,3) new_tunnel_facts(1) show ?thesis by blast
qed

text \<open>Banning draws no random identifier.\<close>

definition draws_same :: "conn \<Rightarrow> conn \<Rightarrow> bool" where
  "draws_same c d \<longleftrightarrow> draws (host_of d) = draws (host_of c)"

interpretation draws_kept: step_rel draws_same
  by unfold_locales (simp_all add: draws_same_def)

interpretation app_draws_same: db_rel draws_same
  by unfold_locales

lemma sql_draws: "obeys draws_same (query_sql f)" "obeys draws_same (exec_sql g)"
  by (simp_all add: obeys_def draws_same_def query_sql_def exec_sql_def next_stmt_def
      split: option.split result.split)

lemma ban_draws: "obeys app_draws_same.app_R (admin_ban_user x i h)"
  unfolding admin_ban_user_def require_admin_def toggle_user_ban_def list_tunnels_for_user_def
  by (intro app_draws_same.app.rules app_draws_same.on_db_step sql_draws app_draws_same.modify_mem
      stop_all_fields)

text \<open>
  C28: Banning does not end the user's sessions, and \<open>create_tunnel\<close> does not look at the ban: with
  a token from before the ban the banned user creates a new tunnel on the port the ban has
  just freed.
\<close>

theorem banned_user_still_creates:
  assumes "is_admin x ha s" "reliable (db s)" "clock_ok (db s)" "listeners_wf s"
    and "get_current_user_id x h s = Some uid" "uuid_parse_str x (cr_agent_id b) = Some a"
    and "lookup_by ur_id uid (users (tabs (db s))) = Some u" "sub_free (cr_subdomain b) s"
    and "ur_dedicated_port u \<notin> allocated_ports s - parsed_ports x (user_tunnels uid s)"
    and "1024 \<le> ur_dedicated_port u" "cr_agent_id b \<in> ar_id ` set (agents (tabs (db s)))"
    and "uuid_text_ok x"
    and "uuid_to_string x (next_uuid s) \<notin> t_id ` set (tunnels (tabs (db s)))"
  shows "\<exists>t r v. admin_ban_user x uid ha s = (Ok (200, Empty), t)
    \<and> (\<exists>w \<in> set (users (tabs (db t))). ur_id w = uid \<and> ur_is_banned w)
    \<and> create_tunnel x h b t = (Ok (201, JTunnel r), v) \<and> tr_user_id r = Some uid"
proof (rule ban_run [OF assms(1,2,4), where i = uid])
  fix t
  let ?ban = "\<lambda>r :: user_row. r\<lparr>ur_is_banned := True\<rparr>"
  assume run: "admin_ban_user x uid ha s = (Ok (200, Empty), t)"
    and rows: "tabs (db t) = (tabs (db s))\<lparr>users := update_by ur_id uid ?ban (users (tabs (db s)))\<rparr>"
    and al: "allocated_ports t = allocated_ports s - parsed_ports x (user_tunnels uid s)"
    and ses: "user_sessions t = user_sessions s" and w: "same_world (db s) (db t)"
  have uid: "get_current_user_id x h t = Some uid"
    using assms(5) session_kept [OF ses] by simp
  have look: "lookup_by ur_id uid (users (tabs (db t))) = Some (?ban u)"
    using assms(7) by (simp add: rows lookup_by_update_by)
  then have banned: "?ban u \<in> set (users (tabs (db t)))" "ur_id u = uid"
    using lookup_by_Some [OF look] by simp_all
  have "draws_same (db s) (db t)"
    using obeysD [OF ban_draws run] by (simp add: app_draws_same.app_R_def)
  then have new: "uuid_to_string x (next_uuid t) \<notin> t_id ` set (tunnels (tabs (db t)))"
    using assms(13) w by (simp add: next_uuid_def draw_uuid_def same_world_def rows draws_same_def)
  have "\<exists>r v. create_tunnel x h b t = (Ok (201, JTunnel r), v) \<and> tr_user_id r = Some uid"
    by (rule create_tunnel_success [OF uid assms(6) look _ _ _ _ _ _ assms(12) new])
      (use assms w al rows in \<open>auto simp: same_world_reliable same_world_clock sub_free_def\<close>)
  moreover have "\<exists>w \<in> set (users (tabs (db t))). ur_id w = uid \<and> ur_is_banned w"
    by (intro bexI [of _ "?ban u"]) (use banned in simp_all)
  ultimately show ?thesis using run by blast
qed

theorem banned_user_still_creates_witness:
  "\<exists>t r v. admin_ban_user sample_ext (uuid_text 1) as_admin sample_app = (Ok (200, Empty), t)
    \<and> create_tunnel sample_ext as_alice new_tunnel t = (Ok (201, JTunnel r), v)"
proof -
  have "ur_dedicated_port alice \<notin> allocated_ports sample_app
      - parsed_ports sample_ext (user_tunnels (uuid_text 1) sample_app)" by simp
  from banned_user_still_creates [OF sample_sessions(2) new_tunnel_facts(3,8) sample_lis(2)
      sample_sessions(1) new_tunnel_facts(1,2,4) this new_tunnel_facts(6,7) sample_uuid_text
      new_tunnel_facts(9)]
  show ?thesis by blast
qed



section \<open>Switching\<close>

lemma toggled_row:
  assumes "tunnel_of_row row = Ok k"
  shows "tunnel_of_row (row\<lparr>t_enabled := e\<rparr>) = Ok (k\<lparr>tr_enabled := e\<rparr>)"
    "tr_id k = t_id row" "tr_agent_id k = t_agent_id row" "tr_enabled k = t_enabled row"
    "tr_public_port k = t_public_port row"
  using assms by (auto simp: tunnel_of_row_def split: result.splits)

lemma toggle_senders:
  assumes "reliable (db s)" "lookup_by t_id i (tunnels (tabs (db s))) = Some row"
    "tunnel_of_row row = Ok k" "uuid_parse_str x (tr_id k) = Some tid"
    "uuid_parse_str x (tr_agent_id k) = Some a" "toggle_tunnel x i s = (r, t)"
  shows "agent_senders t = agent_senders s" "reliable (db t)"
proof -
  have t: "t = snd (switch_tunnel k tid a (\<not> tr_enabled k) (enabled_as i (\<not> tr_enabled k) s))"
    using toggle_prefix [OF assms(1-5)] assms(6) by simp
  show "agent_senders t = agent_senders s"
    by (cases "agent_senders s a") (simp_all add: t switch_run reserve_port_def)
  show "reliable (db t)"
    using obeysD [OF sys_world.serve_R [where c = "ToggleTunnel i"], of x s] assms(1,6)
    by (simp add: app_world.app_R_def same_world_reliable)
qed


lemma online_rows:
  "lookup_by t_id (uuid_text 21) (tunnels (tabs (db (app online)))) = Some blog"
  "lookup_by t_id (uuid_text 22) (tunnels (tabs (db (app online)))) = Some game"
  "distinct (map t_id (tunnels (tabs (db (app online)))))" "reliable (db (app online))"
  "agent_senders (app online) 11 = Some 0" "listeners_wf (app online)"
proof -
  show "listeners_wf (app online)"
    using sys_lis.reachable_R [OF sample_runs(1)] boot_lis by (simp add: lis_step_def)
qed (simp_all add: online_state reliable_def lookup_by_def sample_conn_def sample_rows)

definition blog_record :: tunnel_record where
  "blog_record = (case tunnel_of_row blog of Ok k \<Rightarrow> k | _ \<Rightarrow> undefined)"

lemma blog_facts:
  "tunnel_of_row blog = Ok blog_record" "uuid_parse_str sample_ext (t_id blog) = Some 21"
  "uuid_parse_str sample_ext (t_agent_id blog) = Some 11" "t_enabled blog" "t_public_port blog = 20001"
  by (simp_all add: blog_record_def blog_def tunnel_of_row_def get_u64_def)


text \<open>
  C30: Enabling a tunnel does not check who holds its public port, and disabling it frees the port
  whoever uses it: with another tunnel running on the same port, enabling and disabling this
  one answers 200 twice and leaves the other tunnel listening on a port that the pool counts
  as free and will give away.
\<close>

theorem toggling_frees_shared_port:
  assumes "reliable (db s)" "lookup_by t_id i (tunnels (tabs (db s))) = Some row"
    and "tunnel_of_row row = Ok k" "uuid_parse_str x (t_id row) = Some tid"
    and "uuid_parse_str x (t_agent_id row) = Some a" "\<not> t_enabled row" "listeners_wf s"
    and "row' \<in> set (tunnels (tabs (db s)))" "t_public_port row' = t_public_port row"
    and "uuid_parse_str x (t_id row') = Some j" "j \<noteq> tid" "running s j"
    and "1024 \<le> t_public_port row"
  shows "\<exists>t v. toggle_tunnel x i s = (Ok (200, Empty), t) \<and> t_public_port row \<in> allocated_ports t
    \<and> toggle_tunnel x i t = (Ok (200, Empty), v) \<and> running v j
    \<and> fst (allocate_port (Some (t_public_port row')) v) = Some (t_public_port row')"
proof -
  let ?on = "row\<lparr>t_enabled := True\<rparr>" and ?k = "k\<lparr>tr_enabled := True\<rparr>"
  note k = toggled_row [OF assms(3)]
  have ids: "uuid_parse_str x (tr_id k) = Some tid" "uuid_parse_str x (tr_agent_id k) = Some a"
    using assms(4,5) by (simp_all add: k)
  obtain t where t: "toggle_tunnel x i s = (Ok (200, Empty), t)"
    "tabs (db t) = (tabs (db s))\<lparr>tunnels :=
       update_by t_id i (\<lambda>k. k\<lparr>t_enabled := True\<rparr>) (tunnels (tabs (db s)))\<rparr>"
    "\<And>j. j \<noteq> tid \<Longrightarrow> running t j = running s j"
    "allocated_ports t = insert (t_public_port row) (allocated_ports s)" "listeners_wf t"
    by (rule toggle_on [OF assms(1-3) ids assms(6,7)]) blast
  note kept = toggle_senders [OF assms(1-3) ids t(1)]
  have row: "lookup_by t_id i (tunnels (tabs (db t))) = Some ?on"
    using assms(2) by (simp add: t(2) lookup_by_update_by)
  obtain v where "toggle_tunnel x i t = (Ok (200, Empty), v)"
    "\<And>j. running v j \<longleftrightarrow> j \<noteq> tid \<and> running t j"
    "allocated_ports v = allocated_ports t - {t_public_port ?on}"
    by (rule toggle_off [OF kept(2) row k(1), where x = x and tid = tid and a = a])
      (use ids t(5) in auto)
  then show ?thesis
    using t assms(9,11-13) by (simp add: allocate_port_preferred)
qed

theorem toggling_frees_shared_port_witness:
  "\<exists>t v. toggle_tunnel sample_ext (uuid_text 22) (app online) = (Ok (200, Empty), t)
    \<and> toggle_tunnel sample_ext (uuid_text 22) t = (Ok (200, Empty), v) \<and> running v 21
    \<and> fst (allocate_port (Some 20001) v) = Some 20001"
proof -
  obtain k where k: "tunnel_of_row game = Ok k" by (simp add: game_def tunnel_of_row_def get_u64_def)
  have g: "uuid_parse_str sample_ext (t_id game) = Some 22" "\<not> t_enabled game"
    "uuid_parse_str sample_ext (t_agent_id game) = Some 11" "t_public_port game = 20001"
    by (simp_all add: game_def)
  have b: "blog \<in> set (tunnels (tabs (db (app online))))" "t_public_port blog = t_public_port game"
    "(21 :: uuid) \<noteq> 22" "running (app online) 21" "1024 \<le> t_public_port game"
    by (simp_all add: online_state g(4) blog_facts(5) running_def)
  from toggling_frees_shared_port [OF online_rows(4,2) k g(1,3,2) online_rows(6) b(1,2)
      blog_facts(2) b(3-5)]
  show ?thesis using g(4) blog_facts(5) by auto
qed

section \<open>Deletion and update\<close>

lemma served_reliable: "serve x c s = (r, t) \<Longrightarrow> reliable (db t) = reliable (db s)"
  using obeysD [OF sys_world.serve_R] by (fastforce simp: app_world.app_R_def same_world_reliable)


text \<open>
  C31: Deleting a tunnel stops its listener, tells the agent, removes exactly its row and makes its
  port available again. Afterwards toggling or updating it is answered with 404, and deleting
  it again is answered with 200 and changes no table.
\<close>

theorem deleted_tunnel_is_gone:
  assumes "reliable (db s)" "lookup_by t_id i (tunnels (tabs (db s))) = Some row"
    and "tunnel_of_row row = Ok k" "uuid_parse_str x (t_id row) = Some tid"
    and "uuid_parse_str x (t_agent_id row) = Some a" "listeners_wf s"
    and "agent_senders s a = Some ch" "outbox s ch = Some q" "1024 \<le> t_public_port row"
  shows "\<exists>t. delete_tunnel x i s = (Ok (200, Empty), t)
    \<and> tabs (db t) = (tabs (db s))\<lparr>tunnels := filter (\<lambda>r. t_id r \<noteq> i) (tunnels (tabs (db s)))\<rparr>
    \<and> (\<forall>j. running t j \<longleftrightarrow> j \<noteq> tid \<and> running s j) \<and> outbox t ch = Some (q @ [StopTunnel tid])
    \<and> fst (allocate_port (Some (t_public_port row)) t) = Some (t_public_port row)
    \<and> fst (toggle_tunnel x i t) = Err (404, ''Tunnel not found'')
    \<and> fst (update_tunnel x i b t) = Err (404, ''Tunnel not found'')
    \<and> (\<exists>v. delete_tunnel x i t = (Ok (200, Empty), v) \<and> tabs (db v) = tabs (db t))"
proof (rule delete_tunnel_run [OF assms(1-3) _ assms(6), where x = x and tid = tid])
  note k = toggled_row [OF assms(3)]
  show "uuid_parse_str x (tr_id k) = Some tid" using assms(4) by (simp add: k)
  fix t
  assume run: "delete_tunnel x i s = (Ok (200, Empty), t)"
    and rows: "tabs (db t) = (tabs (db s))\<lparr>tunnels := delete_by t_id i (tunnels (tabs (db s)))\<rparr>"
    and up: "\<And>j. running t j \<longleftrightarrow> j \<noteq> tid \<and> running s j"
    and al: "allocated_ports t = allocated_ports s - {t_public_port row}"
    and out: "\<And>a ch. uuid_parse_str x (tr_agent_id k) = Some a \<Longrightarrow> agent_senders s a = Some ch \<Longrightarrow>
       outbox t ch = map_option (\<lambda>q. q @ [StopTunnel tid]) (outbox s ch)"
  have "reliable (db t)" using served_reliable [of x "DeleteTunnel i" s] run assms(1) by simp
  moreover have "i \<notin> t_id ` set (tunnels (tabs (db t)))" by (auto simp: rows set_delete_by)
  ultimately show ?thesis
    using run up out assms(5,7-9) al
    by (simp add: tunnel_missing k allocate_port_preferred) (simp add: rows delete_by_def)
qed

definition move :: "string \<Rightarrow> update_tunnel_request" where
  "move sd = \<lparr>ut_name = ''site'', ut_local_port = 8000, ut_protocol = ''tcp'', ut_subdomain = Some sd\<rparr>"

theorem deleted_tunnel_is_gone_witness:
  "\<exists>t. delete_tunnel sample_ext (uuid_text 21) (app online) = (Ok (200, Empty), t)
    \<and> tunnels (tabs (db t)) = [game] \<and> \<not> running t 21
    \<and> fst (toggle_tunnel sample_ext (uuid_text 21) t) = Err (404, ''Tunnel not found'')"
proof -
  have o: "outbox (app online) 0 = Some (the (outbox (app online) 0))"
    by (simp add: outbox_def online_state)
  have p: "1024 \<le> t_public_port blog" by (simp add: blog_facts)
  have f: "filter (\<lambda>r. t_id r \<noteq> uuid_text 21) (tunnels (tabs (db (app online)))) = [game]"
    by (simp add: online_state sample_rows)
  from deleted_tunnel_is_gone [where b = "move ''www''", OF online_rows(4,1) blog_facts(1-3) online_rows(6,5) o p]
  show ?thesis by (auto simp: f)
qed

definition update_stored :: "ext \<Rightarrow> string \<Rightarrow> update_tunnel_request \<Rightarrow> app_state \<Rightarrow> bool" where
  "update_stored x i b s \<longleftrightarrow> fst (update_tunnel x i b s) = Ok (200, Empty)
     \<and> tabs (db (snd (update_tunnel x i b s))) = (tabs (db s))\<lparr>tunnels := map (\<lambda>k. if t_id k = i
       then k\<lparr>t_name := ut_name b, t_local_port := ut_local_port b, t_protocol := ut_protocol b,
              t_subdomain := clean_subdomain (ut_subdomain b)\<rparr> else k) (tunnels (tabs (db s)))\<rparr>"

text \<open>
  C32: Updating a stored tunnel is decided by its subdomain: 409 and no change when a tunnel other
  than itself has it (up to ASCII case), otherwise 200, and exactly the four editable columns
  of exactly this tunnel are stored; its port, owner, agent and state stay. A blank subdomain
  is stored as none.
\<close>

theorem update_decision:
  assumes "reliable (db s)" "lookup_by t_id i (tunnels (tabs (db s))) = Some row"
    and "tunnel_of_row row = Ok k"
  shows "case clean_subdomain (ut_subdomain b) of
      Some c \<Rightarrow> if \<exists>r. r \<in> set (tunnels (tabs (db s))) \<and> same_subdomain c r \<and> t_id r \<noteq> i
        then fst (update_tunnel x i b s) = Err (409, ''Subdomain '' @ quoted c @ '' is already taken'')
          \<and> tabs (db (snd (update_tunnel x i b s))) = tabs (db s)
        else update_stored x i b s
    | None \<Rightarrow> update_stored x i b s"
proof -
  let ?s1 = "s\<lparr>db := next_stmt (db s)\<rparr>" and ?c = "clean_subdomain (ut_subdomain b)"
  let ?rest = "\<lambda>tn. and_then (map_err (db_error_500 x) (on_db (db_update_tunnel i (ut_name b)
      (ut_local_port b) (ut_protocol b) ?c))) (\<lambda>_.
    and_then (resync_agent x (tr_agent_id tn)) (\<lambda>_. ret (200, Empty)))"
  have rel: "reliable (db ?s1)" and rows: "tabs (db ?s1) = tabs (db s)"
    using assms(1) by (simp_all add: reliable_def next_stmt_def)
  have run: "update_tunnel x i b s = and_then (check_free_subdomain i ?c) (\<lambda>_. ?rest k) ?s1"
    by (simp add: update_tunnel_def Let_def and_then_Ok map_err_Ok tunnel_row_run [OF assms])
  have stored: "update_stored x i b s"
    if "check_free_subdomain i ?c ?s1 = (Ok (), u)" "read_only ?s1 u" for u
  proof -
    have "reliable (db u)" using read_only_fields(12) [OF that(2)] rel by simp
    then obtain v where "on_db (db_update_tunnel i (ut_name b) (ut_local_port b) (ut_protocol b) ?c) u
        = (Ok (), v)"
      by (simp add: on_db_def db_update_tunnel_def reliable_exec)
    then have "\<exists>w. update_tunnel x i b s = (Ok (200, Empty), w)"
      by (simp add: run and_then_Ok that(1) map_err_Ok resync_run)
    then obtain w where w: "update_tunnel x i b s = (Ok (200, Empty), w)" ..
    show ?thesis using update_tunnel_stored [OF w assms(1)] w by (simp add: update_stored_def update_by_def)
  qed
  show ?thesis
  proof (cases ?c)
    case None
    then show ?thesis
      using stored [of ?s1] by (simp add: check_free_subdomain_def reading.R_refl)
  next
    case (Some c)
    note taken = taken_run [of c "Some i" ?s1] checked_reading [of ?s1 c "Some i"]
    have iff: "seen_taken c (Some i) ?s1 \<longleftrightarrow>
        (\<exists>r. r \<in> set (tunnels (tabs (db s))) \<and> same_subdomain c r \<and> t_id r \<noteq> i)"
      using seen_taken_iff [OF rel, of c "Some i"] by (auto simp: rows)
    show ?thesis
    proof (cases "seen_taken c (Some i) ?s1")
      case True
      then have "update_tunnel x i b s
        = (Err (409, ''Subdomain '' @ quoted c @ '' is already taken''), checked c (Some i) ?s1)"
        by (simp add: run Some check_free_subdomain_def and_then_assoc and_then_Ok taken(1))
      then show ?thesis
        using True iff read_only_fields(1) [OF taken(2)] Some rows by simp
    next
      case False
      then have "check_free_subdomain i ?c ?s1 = (Ok (), checked c (Some i) ?s1)"
        by (simp add: Some check_free_subdomain_def and_then_Ok taken(1))
      then have "update_stored x i b s" by (rule stored [OF _ taken(2)])
      moreover have "\<not> (\<exists>r. r \<in> set (tunnels (tabs (db s))) \<and> same_subdomain c r \<and> t_id r \<noteq> i)"
        using False iff by blast
      ultimately show ?thesis by (simp only: Some option.case if_False)
    qed
  qed
qed

lemma blog_trim: "str_trim ''blog'' = ''blog''"
  by (rule str_trim_graphic) (simp add: graphic_def)

theorem update_decision_witness:
  "fst (update_tunnel sample_ext (uuid_text 22) (move ''blog'') (app online))
     = Err (409, ''Subdomain '' @ quoted ''blog'' @ '' is already taken'')"
proof -
  obtain k where k: "tunnel_of_row game = Ok k" by (simp add: game_def tunnel_of_row_def get_u64_def)
  have "clean_subdomain (ut_subdomain (move ''blog'')) = Some ''blog''"
    by (simp add: move_def clean_subdomain_def blog_trim)
  moreover have "blog \<in> set (tunnels (tabs (db (app online)))) \<and> same_subdomain ''blog'' blog
      \<and> t_id blog \<noteq> uuid_text 22"
    by (simp add: online_state sample_rows same_subdomain_def ascii_lower_def lower_char_def)
  then have "\<exists>r. r \<in> set (tunnels (tabs (db (app online)))) \<and> same_subdomain ''blog'' r
      \<and> t_id r \<noteq> uuid_text 22" ..
  ultimately show ?thesis
    using update_decision [OF online_rows(4,2) k, where b = "move ''blog''" and x = sample_ext] by simp
qed



end
