(* ===== verification/Proxy_Props.thy ===== *)
theory Proxy_Props
  imports Sample_Run
begin

text \<open>
  Properties of what the tunnels run on: the listener registry (\<open>src/tunnel_manager.rs\<close>), the port
  pool and the traffic counters (\<open>src/state.rs\<close>), and the two proxies with the table that routes
  an agent's data to their connections (\<open>src/tcp_proxy.rs\<close>, \<open>src/udp_proxy.rs\<close>,
  \<open>src/ws_handler.rs\<close>).
\<close>

section \<open>Listeners and ports\<close>

text \<open>
  C34: Starting a tunnel's listener replaces the one it had: after any start the tunnel listens
  exactly if the start succeeded, and then on its own port and protocol; a failed start leaves
  it stopped, also if it was listening before. No other tunnel's listener is touched, and a
  start never panics.
\<close>

theorem listener_restart:
  assumes "listeners_wf s" and "start_tunnel_listener k ch s = (r, t)"
  shows "r \<noteq> Panic \<and> listeners_wf t \<and> (running t (tc_id k) \<longleftrightarrow> r = Ok ())
    \<and> (r = Ok () \<longleftrightarrow> \<not> (\<exists>h l. listeners s h = Some l \<and> l_status l = Running
          \<and> l_tunnel l \<noteq> tc_id k \<and> l_proto l = proto_of k \<and> l_port l = tc_public_port k)
        \<and> bind_error s (binds s) = None)
    \<and> (r = Ok () \<longleftrightarrow> (\<exists>h l. tunnel_tasks t (tc_id k) = Some h \<and> listeners t h = Some l
        \<and> l_status l = Running \<and> l_port l = tc_public_port k \<and> l_proto l = proto_of k
        \<and> l_sender l = ch))
    \<and> (\<forall>j. j = tc_id k \<or> running t j = running s j)"
proof -
  let ?s = "stop_tunnel_listener (tc_id k) s"
  have wf: "listeners_wf t" "r \<noteq> Panic" "running t (tc_id k) \<longleftrightarrow> r = Ok ()"
    "j = tc_id k \<or> running t j = running s j" for j
    using registry.wf_start [OF assms(1), of k ch] registry.no_panic [of k ch s] assms(2)
      registry.restart_or_down [OF assms(1), of k ch] registry.other_tunnels [OF assms(1), of j k ch]
    by auto
  have busy: "port_in_use (proto_of k) (tc_public_port k) ?s \<longleftrightarrow>
      (\<exists>h l. listeners s h = Some l \<and> l_status l = Running \<and> l_tunnel l \<noteq> tc_id k
         \<and> l_proto l = proto_of k \<and> l_port l = tc_public_port k)"
    unfolding port_in_use_iff [OF stop_wf [OF assms(1)]]
    using stop_running_listener [OF assms(1), of "tc_id k"] by blast
  have os: "bind_error ?s = bind_error s" "binds ?s = binds s"
    by (simp_all add: stop_tunnel_listener_def abort_task_def set_status_def split: option.split)
  have run: "r = Ok () \<longleftrightarrow> \<not> port_in_use (proto_of k) (tc_public_port k) ?s \<and> bind_error s (binds s) = None"
    using assms(2) by (auto simp: start_tunnel_listener_def proto_of_def bind_socket_def map_err_def
        and_then_def Let_def os split: if_splits option.splits)
  have own: "\<exists>h l. tunnel_tasks t (tc_id k) = Some h \<and> listeners t h = Some l
      \<and> l_status l = Running \<and> l_port l = tc_public_port k \<and> l_proto l = proto_of k \<and> l_sender l = ch"
    if "r = Ok ()"
    using that assms(2) by (cases rule: start_cases [of k ch s]) (auto simp: spawn_listener_def)
  show ?thesis
    using wf run busy own by (auto simp: running_def)
qed

theorem listener_restart_witness:
  "fst (start_tunnel_listener \<lparr>tc_id = 22, tc_agent_id = 11, tc_name = ''game'', tc_local_port = 4000,
      tc_protocol = ''TCP'', tc_public_port = 20001, tc_subdomain = None, tc_enabled = True\<rparr> 0
      (app online)) \<noteq> Ok ()"
proof -
  let ?k = "\<lparr>tc_id = 22, tc_agent_id = 11, tc_name = ''game'', tc_local_port = 4000,
      tc_protocol = ''TCP'', tc_public_port = 20001, tc_subdomain = None, tc_enabled = True\<rparr> :: tunnel_config"
  have wf: "listeners_wf (app online)"
    using sys_lis.reachable_R [OF sample_runs(1)] boot_lis by (simp add: lis_step_def)
  have "proto_of ?k = Tcp" by (simp add: proto_of_def ascii_lower_def lower_char_def char_of_eq_iff)
  then have "\<exists>h l. listeners (app online) h = Some l \<and> l_status l = Running
      \<and> l_tunnel l \<noteq> tc_id ?k \<and> l_proto l = proto_of ?k \<and> l_port l = tc_public_port ?k"
    by (intro exI [of _ 0]) (simp add: online_facts)
  with listener_restart [OF wf prod.collapse [symmetric], of ?k 0] show ?thesis by blast
qed

lemma free_all: "allocated_ports (fold free_port ps s) = allocated_ports s - set ps"
  by (induction ps arbitrary: s) auto

text \<open>
  C35: The port pool never gives a port away twice: whatever is asked for, preferred or dynamic, the
  granted ports are distinct, were free before, and are exactly what is allocated in addition
  afterwards; freeing them restores the pool. A dynamic request fails only when the whole
  configured range is allocated.
\<close>

theorem port_pool_exclusive:
  assumes "ports.alloc_all qs s = (ps, t)"
  shows "distinct ps \<and> set ps \<inter> allocated_ports s = {} \<and> allocated_ports t = set ps \<union> allocated_ports s
    \<and> allocated_ports (fold free_port ps t) = allocated_ports s
    \<and> (fst (allocate_port None t) = None
        \<longleftrightarrow> {fst (port_range t)..snd (port_range t)} \<subseteq> allocated_ports t)"
  using ports.alloc_all_distinct [OF assms] ports.dynamic_None [of t]
  by (cases "port_range t") (auto simp: free_all port_list_set)

theorem port_pool_exclusive_witness:
  "\<exists>t. ports.alloc_all [Some 20001, Some 80, None, Some 20001] sample_app = ([20001, 20000], t)
    \<and> allocated_ports t = {20001, 20000}"
proof -
  have "ports.alloc_all [Some 20001, Some 80, None, Some 20001] sample_app
      = ([20001, 20000], sample_app\<lparr>allocated_ports := {20001, 20000}\<rparr>)"
    by (simp add: allocate_port_def port_list_def insert_commute)
  with port_pool_exclusive [OF this] show ?thesis by simp
qed

section \<open>TCP connections\<close>

definition data_from_agent :: "ext \<Rightarrow> (uuid \<times> string) list \<Rightarrow> app_state \<Rightarrow> app_state" where
  "data_from_agent x ms = fold (\<lambda>(i, p). on_data x i p) ms"

definition meant_for :: "ext \<Rightarrow> uuid \<Rightarrow> (uuid \<times> string) list \<Rightarrow> bytes list" where
  "meant_for x i = List.map_filter (\<lambda>(j, p). if j = i then base64_decode x p else None)"

lemma data_routed:
  "data_from_agent x ms s = fold (\<lambda>(i, b). route_data i b)
     (List.map_filter (\<lambda>(i, p). map_option (Pair i) (base64_decode x p)) ms) s"
  by (induction ms arbitrary: s)
    (auto simp: data_from_agent_def on_data_route List.map_filter_simps split: option.split)

lemma meant_for_routed:
  "map snd (filter (\<lambda>m. fst m = i) (List.map_filter (\<lambda>(i, p). map_option (Pair i) (base64_decode x p)) ms))
     = meant_for x i ms"
  by (induction ms) (auto simp: meant_for_def List.map_filter_simps split: option.split)

lemma data_inbox:
  "conns_wf s \<Longrightarrow> inbox (data_from_agent x ms s) i = map_option (\<lambda>q. q @ meant_for x i ms) (inbox s i)"
  using router.route_interleaved
      [of s "List.map_filter (\<lambda>(i, p). map_option (Pair i) (base64_decode x p)) ms" i]
  by (simp add: data_routed meant_for_routed)

lemma data_senders: "tcp_conn_senders (data_from_agent x ms s) = tcp_conn_senders s"
  by (induction ms arbitrary: s)
    (auto simp: data_from_agent_def on_data_def split: option.split)

lemma tcp_deliver_senders:
  "tcp_conn_senders (snd (tcp_deliver True k s)) = tcp_conn_senders s"
  "tcp_conn_senders (snd (tcp_deliver_n n k s)) = tcp_conn_senders s"
proof -
  show one: "tcp_conn_senders (snd (tcp_deliver True k s)) = tcp_conn_senders s" for k s
    by (auto simp: tcp_deliver_def Let_def split: option.split list.split)
  show "tcp_conn_senders (snd (tcp_deliver_n n k s)) = tcp_conn_senders s"
    by (induction n arbitrary: k s) (simp_all add: case_prod_beta one)
qed

text \<open>
  C36: Data from the agent reaches the right client, complete and in order: after any sequence of data
  messages for any connections, draining an open connection's queue writes to its socket exactly
  the bytes of the well-formed payloads sent for this connection, in the order in which they
  were sent. Malformed payloads and those for other connections add nothing.
\<close>

theorem tcp_downstream_intact:
  assumes "conns_wf s" "k_open k" "tcp_conn_senders s (k_conn k) = Some (k_data k)"
    and "inbox s (k_conn k) = Some []"
  shows "k_out (fst (tcp_deliver_n (length (meant_for x (k_conn k) ms)) k (data_from_agent x ms s)))
      = k_out k @ concat (meant_for x (k_conn k) ms)
    \<and> inbox (snd (tcp_deliver_n (length (meant_for x (k_conn k) ms)) k (data_from_agent x ms s))) (k_conn k)
      = Some []"
proof -
  let ?ds = "meant_for x (k_conn k) ms" and ?s = "data_from_agent x ms s"
  have "inbox ?s (k_conn k) = Some ?ds" using data_inbox [OF assms(1), of x ms "k_conn k"] assms(4) by simp
  then obtain c where c: "data_chans ?s (k_data k) = Some c" "dq c = ?ds @ []"
    using assms(3) by (auto simp: inbox_def data_senders)
  from tcp_deliver_queue [OF assms(2) c] obtain t where
    t: "tcp_deliver_n (length ?ds) k ?s = (k\<lparr>k_out := k_out k @ concat ?ds\<rparr>, t)"
      "data_chans t (k_data k) = Some (c\<lparr>dq := []\<rparr>)" by blast
  moreover have "tcp_conn_senders t = tcp_conn_senders ?s"
    using tcp_deliver_senders(2) [of "length ?ds" k ?s] t(1) by simp
  ultimately show ?thesis using assms(3) by (simp add: inbox_def data_senders)
qed

lemma serving_channels:
  "data_chans (app serving) = [0 \<mapsto> \<lparr>dq = [], d_rx = True, d_tx = True\<rparr>]"
  "next_data_chan (app serving) = 1"
  "tcp_conns serving 0 = Some \<lparr>k_conn = 101, k_tunnel = 21, k_sender = 0, k_data = 0, k_open = True,
     k_out = [104, 105]\<rparr>"
  by (simp_all add: serving_def online_state run_simps)

theorem tcp_downstream_intact_witness:
  "map_option (\<lambda>k. k_out (fst (tcp_deliver_n 2 k (data_from_agent sample_ext
     [(101, ''ab''), (102, ''x''), (101, ''c'')] (app serving))))) (tcp_conns serving 0)
   = Some [104, 105, 97, 98, 99]"
proof -
  let ?k = "the (tcp_conns serving 0)" and ?ms = "[(101, ''ab''), (102, ''x''), (101, ''c'')]"
  have "conns_wf (app serving)" "k_open ?k"
    "tcp_conn_senders (app serving) (k_conn ?k) = Some (k_data ?k)"
    "inbox (app serving) (k_conn ?k) = Some []"
    by (simp_all add: conns_wf_def serving_facts(1) serving_channels inbox_def)
  note ok = tcp_downstream_intact [OF this, of sample_ext ?ms]
  have "meant_for sample_ext (k_conn ?k) ?ms = [[97, 98], [99]]"
    by (simp add: meant_for_def List.map_filter_simps serving_channels bytes_of_text_def)
  with ok show ?thesis by (simp add: serving_channels numeral_2_eq_2)
qed

definition read_all :: "ext \<Rightarrow> bytes list \<Rightarrow> tcp_conn \<Rightarrow> app_state \<Rightarrow> tcp_conn \<times> app_state" where
  "read_all x bs k s = fold (\<lambda>b (k, s). tcp_read x (ReadBytes b) k s) bs (k, s)"

lemma read_all_simps:
  "read_all x [] k s = (k, s)"
  "read_all x (b # bs) k s = (case tcp_read x (ReadBytes b) k s of (k', t) \<Rightarrow> read_all x bs k' t)"
  by (simp_all add: read_all_def case_prod_beta)

lemma open_outbox: "outbox s ch = Some q \<Longrightarrow> \<not> relay_closed ch s"
  by (auto simp: outbox_def relay_closed_def split: option.splits if_splits)

text \<open>
  C37: Everything a TCP client sends goes to the agent, complete and in order, and is counted: while
  the agent's channel is open, each chunk read becomes one data message under the connection's
  id, whose payload decodes to the chunk, and the tunnel's incoming counter grows by the number of
  bytes, modulo \<open>2 ^ 64\<close>. At the end of the stream one close message follows, and the connection
  is closed and no longer routed.
\<close>

theorem tcp_upstream_intact:
  assumes "base64_ok x" "k_open k" "outbox s (k_sender k) = Some q"
    and "live_traffic s (k_tunnel k) = Some (m, n)"
  shows "\<exists>t u. read_all x bs k s = (k, t)
    \<and> outbox t (k_sender k) = Some (q @ map (\<lambda>b. RelayData (k_conn k) (base64_encode x b)) bs)
    \<and> map (\<lambda>b. base64_decode x (base64_encode x b)) bs = map Some bs
    \<and> live_traffic t (k_tunnel k) = Some (m + of_nat (length (concat bs)), n)
    \<and> tcp_read x ReadEof k t = (k\<lparr>k_open := False\<rparr>, u)
    \<and> outbox u (k_sender k) = Some (q @ map (\<lambda>b. RelayData (k_conn k) (base64_encode x b)) bs
        @ [CloseConnection (k_conn k)])
    \<and> tcp_conn_senders u (k_conn k) = None"
proof -
  have "\<exists>t. read_all x bs k s = (k, t)
    \<and> outbox t (k_sender k) = Some (q @ map (\<lambda>b. RelayData (k_conn k) (base64_encode x b)) bs)
    \<and> live_traffic t (k_tunnel k) = Some (m + of_nat (length (concat bs)), n)"
    using assms(3,4)
  proof (induction bs arbitrary: s q m)
    case Nil
    then show ?case by (simp add: read_all_simps)
  next
    case (Cons b bs)
    let ?s = "record_traffic (k_tunnel k) (of_nat (length b)) 0 s"
    let ?t = "post (k_sender k) (RelayData (k_conn k) (base64_encode x b)) ?s"
    have "outbox ?s (k_sender k) = Some q" using Cons.prems(1) outbox_frame [of ?s s "k_sender k"] by simp
    then have out: "outbox ?t (k_sender k) = Some (q @ [RelayData (k_conn k) (base64_encode x b)])"
      by (simp add: outbox_post)
    have "live_traffic ?t (k_tunnel k) = Some (m + of_nat (length b), n)"
      using Cons.prems(2) by (simp add: record_traffic_lookup)
    from Cons.IH [OF out this] obtain t where t: "read_all x bs k ?t = (k, t)"
      "outbox t (k_sender k) = Some ((q @ [RelayData (k_conn k) (base64_encode x b)])
         @ map (\<lambda>b. RelayData (k_conn k) (base64_encode x b)) bs)"
      "live_traffic t (k_tunnel k) = Some (m + of_nat (length b) + of_nat (length (concat bs)), n)" by blast
    have "read_all x (b # bs) k s = (k, t)"
      using tcp_read_bytes [OF assms(2) open_outbox [OF Cons.prems(1)], of x b] t(1)
      by (simp only: read_all_simps prod.case)
    with t(2,3) show ?case by (intro exI [of _ t]) (simp add: add.assoc)
  qed
  then obtain t where t: "read_all x bs k s = (k, t)"
    "outbox t (k_sender k) = Some (q @ map (\<lambda>b. RelayData (k_conn k) (base64_encode x b)) bs)"
    "live_traffic t (k_tunnel k) = Some (m + of_nat (length (concat bs)), n)" by blast
  have eof: "tcp_read x ReadEof k t = (k\<lparr>k_open := False\<rparr>, snd (tcp_finish k t))"
    using assms(2) by (simp add: tcp_read_def tcp_finish_def)
  have "outbox (snd (tcp_finish k t)) (k_sender k)
      = outbox (post (k_sender k) (CloseConnection (k_conn k)) t) (k_sender k)"
    by (rule outbox_frame) (simp add: tcp_finish_def)
  then have "outbox (snd (tcp_finish k t)) (k_sender k) = Some (q
      @ map (\<lambda>b. RelayData (k_conn k) (base64_encode x b)) bs @ [CloseConnection (k_conn k)])"
    using t(2) by (simp add: outbox_post)
  then show ?thesis
    using t eof assms(1) tcp_finish_unregisters [of k t]
    by (intro exI [of _ t] exI [of _ "snd (tcp_finish k t)"]) simp
qed

theorem tcp_upstream_intact_witness:
  "\<exists>t q. read_all sample_ext [[65], [66, 67]] (the (tcp_conns serving 0)) (app serving)
      = (the (tcp_conns serving 0), t)
    \<and> outbox t 0 = Some (q @ [RelayData 101 ''A'', RelayData 101 ''BC''])
    \<and> live_traffic t 21 = Some (5, 2)"
proof -
  let ?k = "the (tcp_conns serving 0)"
  obtain q where q: "outbox (app serving) (k_sender ?k) = Some q"
    by (simp add: outbox_def serving_def online_state run_simps)
  have k: "k_open ?k" "k_sender ?k = 0" "k_conn ?k = 101" "k_tunnel ?k = 21"
    by (simp_all add: serving_channels)
  have l: "live_traffic (app serving) (k_tunnel ?k) = Some (2, 2)" by (simp add: k serving_facts)
  have chars: "text_of_bytes [65] = ''A''" "text_of_bytes [66, 67] = ''BC''"
    by (simp_all add: text_of_bytes_def char_of_eq_iff)
  from tcp_upstream_intact [OF sample_base64 k(1) q l, of "[[65], [66, 67]]"]
  show ?thesis by (elim exE) (simp add: k(2-4) chars)
qed

section \<open>UDP peers\<close>

text \<open>One datagram of a new peer and the agent's answer to it, from socket to socket.\<close>

definition udp_exchange ::
  "ext \<Rightarrow> socket_addr \<Rightarrow> bytes \<Rightarrow> uuid \<Rightarrow> string \<Rightarrow> udp_task \<Rightarrow> app_state \<Rightarrow> udp_task \<times> app_state" where
  "udp_exchange x a buf i payload u s =
     (let (u, s) = udp_recv x (Some (a, buf)) u s;
          (u, s) = udp_register i u s;
          (u, s) = udp_forward i u (on_data x i payload s)
      in udp_deliver u (loop_head (u_listener u) s))"

lemma set_waiting_fields [simp]:
  "listeners (set_waiting h w s) j =
     (if j = h then map_option (\<lambda>l. l\<lparr>l_waiting := w\<rparr>) (listeners s h) else listeners s j)"
  by (simp add: set_waiting_def split: option.split)

lemma udp_recv_new:
  assumes "udp_active u s" "addr_to_conn u a = None" "outbox s (u_sender u) = Some q"
    and "udp_recv x (Some (a, buf)) u s = (v, t)"
  defines "i \<equiv> next_uuid s"
  shows "v = u\<lparr>addr_to_conn := (addr_to_conn u)(a \<mapsto> i), conn_to_addr := (conn_to_addr u)(i \<mapsto> a),
      u_forwarders := (u_forwarders u)(i \<mapsto> (next_data_chan s, False))\<rparr>"
    "outbox t (u_sender u) = Some (q @ [NewConnection (u_tunnel u) i, RelayData i (base64_encode x buf)])"
    "listeners t j = (if j = u_listener u then map_option (\<lambda>l. l\<lparr>l_waiting := False\<rparr>) (listeners s j)
       else listeners s j)"
    "data_chans t = (data_chans s)(next_data_chan s \<mapsto> \<lparr>dq = [], d_rx = True, d_tx = True\<rparr>)"
    "tcp_conn_senders t = tcp_conn_senders s"
proof -
  let ?m = "snd (new_data_chan (post (u_sender u) (NewConnection (u_tunnel u) i) (snd (draw_uuid s))))"
  let ?r = "record_traffic (u_tunnel u) (of_nat (length buf)) 0 ?m"
  have run: "udp_recv x (Some (a, buf)) u s = (u\<lparr>addr_to_conn := (addr_to_conn u)(a \<mapsto> i),
      conn_to_addr := (conn_to_addr u)(i \<mapsto> a),
      u_forwarders := (u_forwarders u)(i \<mapsto> (next_data_chan s, False))\<rparr>,
      set_waiting (u_listener u) False (post (u_sender u) (RelayData i (base64_encode x buf)) ?r))"
    using assms(1) by (simp add: udp_recv_def udp_conn_for_new [OF assms(2)] i_def)
  have "outbox (snd (draw_uuid s)) (u_sender u) = Some q"
    using assms(3) outbox_frame [of "snd (draw_uuid s)" s] by simp
  moreover have "outbox ?r (u_sender u)
      = outbox (post (u_sender u) (NewConnection (u_tunnel u) i) (snd (draw_uuid s))) (u_sender u)"
    by (rule outbox_frame) (simp add: new_data_chan_def)
  ultimately have r: "outbox ?r (u_sender u) = Some (q @ [NewConnection (u_tunnel u) i])"
    by (simp add: outbox_post)
  have "outbox t (u_sender u) = outbox (post (u_sender u) (RelayData i (base64_encode x buf)) ?r) (u_sender u)"
    by (rule outbox_frame) (use run assms(4) in auto)
  with r show "outbox t (u_sender u) = Some (q @ [NewConnection (u_tunnel u) i, RelayData i (base64_encode x buf)])"
    by (simp add: outbox_post)
  have [simp]: "listeners (snd (new_data_chan w)) = listeners w" for w by (simp add: new_data_chan_def)
  show "v = u\<lparr>addr_to_conn := (addr_to_conn u)(a \<mapsto> i), conn_to_addr := (conn_to_addr u)(i \<mapsto> a),
      u_forwarders := (u_forwarders u)(i \<mapsto> (next_data_chan s, False))\<rparr>"
    "listeners t j = (if j = u_listener u then map_option (\<lambda>l. l\<lparr>l_waiting := False\<rparr>) (listeners s j)
       else listeners s j)"
    "data_chans t = (data_chans s)(next_data_chan s \<mapsto> \<lparr>dq = [], d_rx = True, d_tx = True\<rparr>)"
    "tcp_conn_senders t = tcp_conn_senders s"
    using run assms(4) by auto
qed

lemma insert_conn_sender_relays [simp]: "relay_chans (insert_conn_sender i tx s) = relay_chans s"
  by (simp add: insert_conn_sender_def drop_data_tx_def Let_def split: option.split)

lemma loop_head_ready:
  assumes "listeners s h = Some l" "l_status l = Running" "\<not> l_waiting l" "\<not> relay_closed (l_sender l) s"
  shows "loop_head h s = set_waiting h True s"
  using assms by (simp add: loop_head_def)

text \<open>
  C38: A datagram of a new UDP peer is announced to the agent under a fresh connection id and relayed
  with its payload, and the agent's answer to that id is sent back to exactly this peer's address.
  The peer keeps its id: its next datagram is relayed under the same one, without a second
  announcement.
\<close>

theorem udp_answer_reaches_peer:
  assumes "udp_active u s" "addr_to_conn u a = None" "outbox s (u_sender u) = Some q"
    and "listeners s (u_listener u) = Some l" "l_sender l = u_sender u" "u_inbox u = []"
    and "tcp_conn_senders s (next_uuid s) = None" "base64_decode x payload = Some data"
    and "udp_exchange x a buf (next_uuid s) payload u s = (v, t)"
  shows "u_sent v = u_sent u @ [(a, data)]
    \<and> outbox t (u_sender u) = Some (q @ [NewConnection (u_tunnel u) (next_uuid s),
        RelayData (next_uuid s) (base64_encode x buf)])
    \<and> udp_conn_for a v w = (next_uuid s, v, w)"
proof -
  let ?i = "next_uuid s" and ?n = "next_data_chan s" and ?h = "u_listener u"
  obtain u1 s1 where one: "udp_recv x (Some (a, buf)) u s = (u1, s1)" by fastforce
  note r = udp_recv_new [OF assms(1-3) one]
  let ?q = "q @ [NewConnection (u_tunnel u) ?i, RelayData ?i (base64_encode x buf)]"
  let ?u2 = "u1\<lparr>u_forwarders := (u_forwarders u1)(?i \<mapsto> (?n, True))\<rparr>"
  let ?s2 = "insert_conn_sender ?i ?n s1"
  have two: "udp_register ?i u1 s1 = (?u2, ?s2)" by (simp add: udp_register_def r(1))
  have chan2: "data_chans ?s2 ?n = Some \<lparr>dq = [], d_rx = True, d_tx = True\<rparr>"
    using assms(7) by (simp add: insert_conn_sender_chan r(4,5))
  let ?s3 = "?s2\<lparr>data_chans := (data_chans ?s2)(?n \<mapsto> \<lparr>dq = [data], d_rx = True, d_tx = True\<rparr>)\<rparr>"
  have three: "on_data x ?i payload ?s2 = ?s3"
    using assms(8) chan2 by (simp add: on_data_def send_data_def)
  have l: "l_status l = Running" using assms(1,4) by (simp add: udp_active_def)
  let ?s4 = "?s3\<lparr>data_chans := (data_chans ?s3)(?n \<mapsto> \<lparr>dq = [], d_rx = True, d_tx = True\<rparr>)\<rparr>"
  have four: "udp_forward ?i ?u2 ?s3 = (?u2\<lparr>u_inbox := [(?i, data)]\<rparr>, ?s4)"
    using assms(4,6) l by (simp add: udp_forward_def udp_alive_def r(1,3))
  have out4: "outbox ?s4 (u_sender u) = Some ?q"
    using r(2) outbox_frame [of ?s4 s1] by simp
  have five: "loop_head ?h ?s4 = set_waiting ?h True ?s4"
    by (rule loop_head_ready [where l = "l\<lparr>l_waiting := False\<rparr>"])
      (use assms(4,5) l open_outbox [OF out4] in \<open>simp_all add: r(3)\<close>)
  have six: "udp_deliver (?u2\<lparr>u_inbox := [(?i, data)]\<rparr>) (set_waiting ?h True ?s4)
      = (?u2\<lparr>u_inbox := [], u_sent := u_sent u @ [(a, data)]\<rparr>, record_traffic (u_tunnel u) 0
          (of_nat (length data)) (set_waiting ?h False (set_waiting ?h True ?s4)))"
    using assms(1,4) by (simp add: udp_deliver_def udp_active_def r(1,3) Let_def)
  have "u_listener (?u2\<lparr>u_inbox := [(?i, data)]\<rparr>) = ?h" by (simp add: r(1))
  with assms(9) have run: "?u2\<lparr>u_inbox := [], u_sent := u_sent u @ [(a, data)]\<rparr> = v"
    "record_traffic (u_tunnel u) 0 (of_nat (length data))
       (set_waiting ?h False (set_waiting ?h True ?s4)) = t"
    by (simp_all only: udp_exchange_def Let_def one two three four five six prod.case prod.inject)
  have "outbox t (u_sender u) = outbox ?s4 (u_sender u)" by (rule outbox_frame) (simp add: run(2) [symmetric])
  then show ?thesis using out4 by (simp add: run(1) [symmetric] udp_conn_for_known r(1))
qed

definition lobby :: relay where
  "lobby = fold (relay_step sample_ext) [Request (ToggleTunnel (uuid_text 22)), LoopHead 1] online"

definition game_listener :: listener where
  "game_listener = \<lparr>l_tunnel = 22, l_agent = 11, l_proto = Udp, l_port = 20001, l_sender = 0,
     l_waiting = True, l_status = Running\<rparr>"

lemma lobby_facts:
  "listeners (app lobby) (Suc 0) = Some game_listener" "tcp_conn_senders (app lobby) = Map.empty"
  "next_uuid (app lobby) = 101" "outbox (app lobby) 0 = Some (the (outbox (app lobby) 0))"
  by (simp_all add: lobby_def game_listener_def online_state run_simps next_uuid_def outbox_def)

theorem udp_answer_reaches_peer_witness:
  "\<exists>v t. udp_exchange sample_ext (7, 99) [5] 101 ''hi'' (new_udp_task 1 game_listener) (app lobby) = (v, t)
    \<and> u_sent v = [((7, 99), [104, 105])]"
proof -
  let ?u = "new_udp_task 1 game_listener"
  have u: "udp_active ?u (app lobby)" "addr_to_conn ?u (7, 99) = None" "u_sender ?u = 0"
    "listeners (app lobby) (u_listener ?u) = Some game_listener" "l_sender game_listener = u_sender ?u"
    "u_inbox ?u = []" "tcp_conn_senders (app lobby) (next_uuid (app lobby)) = None"
    "base64_decode sample_ext ''hi'' = Some [104, 105]" "u_sent ?u = []"
    by (simp_all add: udp_active_def new_udp_task_def lobby_facts(1,2) game_listener_def bytes_of_text_def)
  obtain v t where run: "udp_exchange sample_ext (7, 99) [5] (next_uuid (app lobby)) ''hi'' ?u (app lobby) = (v, t)"
    by fastforce
  from udp_answer_reaches_peer [OF u(1,2) lobby_facts(4) [folded u(3)] u(4-8) run]
  show ?thesis using run by (simp add: lobby_facts(3) new_udp_task_def)
qed

text \<open>
  C39: When the agent closes a UDP peer's connection, the peer goes silent for good: the relay only
  drops the data sender, the two address maps keep the id. The peer's next datagram is
  relayed under the closed id, without a new announcement, the forwarding task does not register
  again, and every answer to the id is dropped.
\<close>

theorem closed_udp_peer_goes_silent:
  assumes "json_agent_message x text = Some (AgentCloseConnection i)"
    and "udp_active u s" "addr_to_conn u a = Some i" "u_forwarders u i = Some (ch, True)"
    and "(on_frame x sess (WsText text) :: (app_state, ws_session option, unit) prog) s = (r, t)"
  shows "r = Ok (Some sess)
    \<and> udp_recv x (Some (a, buf)) u t = (u, set_waiting (u_listener u) False
        (post (u_sender u) (RelayData i (base64_encode x buf))
          (record_traffic (u_tunnel u) (of_nat (length buf)) 0 t)))
    \<and> udp_register i u t = (u, t) \<and> on_data x i payload t = t"
proof -
  have t: "r = Ok (Some sess)" "t = remove_conn_sender i s"
    using assms(1,5) by (auto simp: on_frame_def handle_text_def and_then_def)
  have "listeners (remove_conn_sender i s) = listeners s"
    by (simp add: remove_conn_sender_def drop_data_tx_def split: option.split)
  then have "udp_active u t" using assms(2) by (simp add: t udp_active_def)
  then show ?thesis
    using assms(3,4) t(1) udp_recv_known [OF _ assms(3)]
    by (simp add: udp_register_def on_data_def) (simp add: t split: option.split)
qed

theorem closed_udp_peer_goes_silent_witness:
  "\<exists>u r t. udp_tasks gaming 1 = Some u
    \<and> (on_frame sample_ext (the (sessions gaming 0)) (WsText ''close'')
         :: (app_state, ws_session option, unit) prog) (app (relay_step sample_ext (LoopHead 1) gaming)) = (r, t)
    \<and> on_data sample_ext 101 ''hi'' t = t"
proof -
  obtain u where u: "udp_tasks gaming 1 = Some u" "addr_to_conn u (7, 99) = Some 101"
    "u_forwarders u 101 = Some (0, True)" "udp_active u (app (relay_step sample_ext (LoopHead 1) gaming))"
    by (simp add: gaming_def online_state run_simps)
  obtain r t where run: "(on_frame sample_ext (the (sessions gaming 0)) (WsText ''close'')
      :: (app_state, ws_session option, unit) prog) (app (relay_step sample_ext (LoopHead 1) gaming)) = (r, t)"
    by fastforce
  from closed_udp_peer_goes_silent [OF sample_json(5) u(4,2,3) run] u(1) run
  show ?thesis by blast
qed

section \<open>Traffic\<close>

lemma bit_length_bounds: "0 < n \<Longrightarrow> 2 ^ (bit_length n - 1) \<le> n \<and> n < 2 ^ bit_length n"
proof (induction n rule: bit_length.induct)
  case (1 n)
  show ?case
  proof (cases "n = 1")
    case True
    then show ?thesis by (simp add: bit_length.simps [of "Suc 0"] bit_length.simps [of 0])
  next
    case False
    with 1 have h: "2 ^ (bit_length (n div 2) - 1) \<le> n div 2" "n div 2 < 2 ^ bit_length (n div 2)"
      "0 < n div 2" by auto
    then obtain b where b: "bit_length (n div 2) = Suc b" by (cases "bit_length (n div 2)") auto
    then have "bit_length n = Suc (Suc b)" using 1(2) by (simp add: bit_length.simps [of n])
    moreover have "n = 2 * (n div 2) + n mod 2" "n mod 2 < 2" by simp_all
    moreover have "2 ^ b \<le> n div 2" "n div 2 < 2 * 2 ^ b" using h b by simp_all
    ultimately have "2 * 2 ^ b \<le> n" "n < 4 * 2 ^ b" "bit_length n = Suc (Suc b)" by linarith+
    then show ?thesis by simp
  qed
qed

text \<open>Rounding to 53 significant bits is exact below \<open>2 ^ 53\<close> and within half a unit above.\<close>

lemma round_f64_error: "2 ^ 53 * \<bar>int (round_f64 n) - int n\<bar> \<le> int n"
proof (cases "bit_length n - 53")
  case 0
  then show ?thesis by (simp add: round_f64_def)
next
  case (Suc e)
  let ?p = "2 ^ Suc e :: nat"
  have "0 < n" using Suc by (cases n) (simp_all add: bit_length.simps [of 0])
  then have "2 ^ (bit_length n - 1) \<le> n" using bit_length_bounds by simp
  moreover have "bit_length n - 1 = 52 + Suc e" using Suc by simp
  ultimately have big: "2 ^ 52 * ?p \<le> n" by (simp add: power_add)
  have n: "int n = int (n div ?p) * int ?p + int (n mod ?p)"
    by (metis div_mult_mod_eq of_nat_add of_nat_mult)
  have half: "2 * \<bar>int p - int r\<bar> \<le> int p" if "r < p" "p \<le> r * 2" for p r :: nat
    using that by (simp add: abs_if)
  have half2: "2 * \<bar>- int r\<bar> \<le> int p" if "r * 2 \<le> p" for p r :: nat
    using that by (simp add: abs_if)
  have "2 * \<bar>int (round_f64 n) - int n\<bar> \<le> int ?p"
  proof (cases "n mod ?p * 2 > ?p \<or> (n mod ?p * 2 = ?p \<and> odd (n div ?p))")
    case True
    then have "round_f64 n = (n div ?p + 1) * ?p"
      by (simp add: round_f64_def Let_def Suc)
    then have "int (round_f64 n) - int n = int ?p - int (n mod ?p)"
      using n by (simp add: algebra_simps)
    moreover have "n mod ?p < ?p" "?p \<le> n mod ?p * 2" using True by auto
    ultimately show ?thesis using half by metis
  next
    case False
    then have "round_f64 n = n div ?p * ?p"
      by (simp add: round_f64_def Let_def Suc)
    then have "int (round_f64 n) - int n = - int (n mod ?p)" using n by simp
    moreover have "n mod ?p * 2 \<le> ?p" using False by auto
    ultimately show ?thesis using half2 by metis
  qed
  then have "2 ^ 53 * \<bar>int (round_f64 n) - int n\<bar> \<le> 2 ^ 52 * int ?p" by simp
  also have "\<dots> \<le> int n" using big by (metis of_nat_le_iff of_nat_mult of_nat_numeral of_nat_power)
  finally show ?thesis .
qed

lemma traffic_total:
  "live_traffic s i = Some (m, n) \<Longrightarrow>
    live_traffic (fold (\<lambda>(a, b). record_traffic i a b) ts s) i
      = Some (m + sum_list (map fst ts), n + sum_list (map snd ts))"
proof (induction ts arbitrary: s m n)
  case Nil
  then show ?case by simp
next
  case (Cons t ts)
  obtain a b where t: "t = (a, b)" by fastforce
  have "live_traffic (record_traffic i a b s) i = Some (m + a, n + b)"
    using Cons.prems by (simp add: record_traffic_lookup)
  from Cons.IH [OF this] show ?case by (simp add: t add.assoc)
qed

lemma traffic_other:
  "j \<noteq> i \<Longrightarrow> live_traffic (fold (\<lambda>(a, b). record_traffic i a b) ts s) j = live_traffic s j"
  by (induction ts arbitrary: s) (auto simp: record_traffic_lookup)

text \<open>
  C40: The telemetry counts every transfer: after any sequence of transfers of a tunnel its two
  counters have grown by their sums, modulo \<open>2 ^ 64\<close>, and no other tunnel's have changed. The
  total from which the megabytes are computed is the sum of the two counters, up to a relative
  error of \<open>2 ^ -53\<close> from the conversion to \<open>f64\<close>.
\<close>

theorem live_stats_accurate:
  assumes "live_traffic s i = Some (m, n)"
  shows "\<exists>t f st. t = fold (\<lambda>(a, b). record_traffic i a b) ts s
    \<and> get_live_stats t = (Ok (200, JStats f), t) \<and> f i = Some st
    \<and> ls_bytes_in st = m + sum_list (map fst ts) \<and> ls_bytes_out st = n + sum_list (map snd ts)
    \<and> 2 ^ 53 * \<bar>int (ls_total_bytes st) - uint (ls_bytes_in st + ls_bytes_out st)\<bar>
        \<le> uint (ls_bytes_in st + ls_bytes_out st)
    \<and> (\<forall>j. j = i \<or> f j = map_option stat_of (live_traffic s j))"
proof -
  let ?v = "(m + sum_list (map fst ts), n + sum_list (map snd ts))"
  let ?t = "fold (\<lambda>(a, b). record_traffic i a b) ts s"
  let ?f = "\<lambda>j. map_option stat_of (live_traffic ?t j)"
  have v: "live_traffic ?t i = Some ?v" by (rule traffic_total [OF assms(1)])
  have run: "get_live_stats ?t = (Ok (200, JStats ?f), ?t)"
    by (simp add: get_live_stats_def and_then_def reads_def)
  have other: "\<forall>j. j = i \<or> ?f j = map_option stat_of (live_traffic s j)"
    by (metis traffic_other)
  have st: "ls_bytes_in (stat_of ?v) = m + sum_list (map fst ts)"
    "ls_bytes_out (stat_of ?v) = n + sum_list (map snd ts)"
    by (simp_all add: stat_of_def)
  have "2 ^ 53 * \<bar>int (ls_total_bytes (stat_of ?v)) - uint (fst ?v + snd ?v)\<bar> \<le> uint (fst ?v + snd ?v)"
    using round_f64_error [of "unat (fst ?v + snd ?v)"] by (simp only: stat_of_def live_stat.simps of_nat_unat)
  then have "2 ^ 53 * \<bar>int (ls_total_bytes (stat_of ?v))
      - uint (ls_bytes_in (stat_of ?v) + ls_bytes_out (stat_of ?v))\<bar>
    \<le> uint (ls_bytes_in (stat_of ?v) + ls_bytes_out (stat_of ?v))"
    by (simp only: st fst_conv snd_conv)
  then show ?thesis
    using run v st other
    by (intro exI [of _ ?t] exI [of _ ?f] exI [of _ "stat_of ?v"]) simp
qed

theorem live_stats_accurate_witness:
  "\<exists>t f st. get_live_stats t = (Ok (200, JStats f), t) \<and> f 21 = Some st
    \<and> ls_bytes_in st = 12 \<and> ls_bytes_out st = 1"
proof -
  have l: "live_traffic (app serving) 21 = Some (2, 2)" by (simp add: serving_facts)
  from live_stats_accurate [OF this, of "[(4, 0), (6, 18446744073709551615)]"]
  show ?thesis by (elim exE conjE) (intro exI, auto)
qed

end
