(* ===== verification/Spec2Isabelle.thy ===== *)
theory Spec2Isabelle
  imports Account_Props Agent_Props Tunnel_Props Proxy_Props "HOL-Library.Multiset"
begin

text \<open>
  The tunnelit relay (\<open>src/src\<close>, Rust): a server that exposes tunnels of agents behind NAT on
  public TCP and UDP ports. Agents hold a WebSocket each; users and an administrator manage
  accounts, agents and tunnels through an HTTP API; an SQLite file keeps the tables.

  \<^bold>\<open>Parts and theories.\<close>
  \<^item> \<open>Relay_Prelude\<close>: programs \<open>'s \<Rightarrow> ('a, 'e) result \<times> 's\<close> with the results \<open>Ok\<close>, \<open>Err\<close> and \<open>Panic\<close>, their
    sequencing (\<open>and_then\<close> is \<open>?\<close> and \<open>await\<close>), relations obeyed by a program (locale \<open>step_rel\<close>), and
    lists of rows with a key (\<open>lookup_by\<close>, \<open>update_by\<close>, \<open>delete_by\<close>). \<open>Rust_Std\<close>: what the code
    uses of the standard library (\<open>trim\<close>, ASCII case, number formats, \<open>SipHash\<close>-1-3).
  \<^item> \<open>Protocol\<close>: the messages of \<open>protocol.rs\<close> as datatypes, and the record \<open>ext\<close> of the third-party
    functions the relay calls.
  \<^item> \<open>Db_Core\<close>, \<open>Db_Users\<close>, \<open>Db_Agents\<close>, \<open>Db_Tunnels\<close>: \<open>db.rs\<close>, every function on three lists of rows,
    each statement with its constraints and its possible I/O failure; \<open>Db_Invariants\<close> has the
    relations that all of them obey.
  \<^item> \<open>App_State\<close>: \<open>state.rs\<close>; the fields of \<open>AppState\<close> as maps, channels and listener tasks in
    stores indexed by number, since handlers share them. Locale \<open>port_pool\<close>.
  \<^item> \<open>Tunnel_Manager\<close>: \<open>tunnel_manager.rs\<close>; locale \<open>listener_registry\<close>. \<open>Ws_Handler\<close>: \<open>ws_handler.rs\<close>.
    \<open>Conn_Router\<close>: the table from connection ids to data channels; locale \<open>conn_router\<close>.
    \<open>Tcp_Proxy\<close>, \<open>Udp_Proxy\<close>: \<open>tcp_proxy.rs\<close>, \<open>udp_proxy.rs\<close>.
  \<^item> \<open>Admin_Auth\<close>, \<open>Admin_Tunnels\<close>, \<open>Admin_Scripts\<close>: the handlers of \<open>admin.rs\<close>.
  \<^item> \<open>Main_Program\<close>: arguments and initial state of \<open>main.rs\<close>. \<open>Relay_System\<close>: the relay as a
    whole; an \<open>event\<close> is a request, a frame, an iteration of the send task, or one step of a proxy
    task, \<open>relay_step\<close> composes the parts as the tasks do, and \<open>reachable\<close> is every interleaving.

  \<^bold>\<open>Lemma groups.\<close> \<open>Handler_Steps\<close> (locales \<open>handler_rel\<close>, \<open>updating_rel\<close>, \<open>creating_rel\<close>) and
  \<open>system_rel\<close> of \<open>Relay_System\<close> lift a relation from statements to handlers, and to every run of the
  relay; each invariant is one interpretation. \<open>Session_Facts\<close> and \<open>Admin_Facts\<close> give the result
  of every handler on every branch. \<open>Fresh_Ids\<close> says which identifiers have been drawn, \<open>Routing\<close>
  proves the routing table sound from it, \<open>Subdomains\<close> keeps subdomains unique. \<open>Sample\<close> and
  \<open>Sample_Run\<close> are one concrete database, outside world and run, on which every property with a
  hypothesis is applied.

  \<^bold>\<open>Properties.\<close> Here: the invariants of all reachable states (C1 to C7).
  \<open>Account_Props\<close>: accounts, sessions, bans and dedicated ports (C8 to C16). \<open>Agent_Props\<close>: claiming,
  authentication and clean-up (C17 to C24). \<open>Tunnel_Props\<close>: creation, switching, update and deletion
  (C25 to C33). \<open>Proxy_Props\<close>: listeners, ports, both proxies and telemetry (C34 to C40). Several
  properties state behaviour that the code has and hardly intends: C11, C16, C21, C27, C28, C30,
  C33 and C39.

  \<^bold>\<open>Conventions.\<close> Ports, counters and identifiers are words of 16, 64 and 128 bits; \<open>+\<close> on
  counters wraps as the release build does. Strings are lists of characters, read as bytes of
  UTF-8. A handler's answer is \<open>Ok (status, body)\<close> or \<open>Err (status, text)\<close>. Random numbers, the
  clock and I/O errors are streams in the state (\<open>entropy\<close>, \<open>clock\<close>, \<open>io_failure\<close>), so every theorem
  holds for all of them unless a hypothesis restricts them: \<open>reliable\<close> (no statement fails),
  \<open>clock_ok\<close> (the clock is not before 1970), \<open>no_repeat\<close> (the ids drawn so far are distinct). What
  is assumed of third-party code is \<open>uuid_text_ok\<close>, \<open>uuid_text_graphic\<close> and \<open>base64_ok\<close>: printing and
  parsing, or encoding and decoding, round-trip, and identifiers print as visible characters.

  \<^bold>\<open>Bounds.\<close> \<open>random_port\<close> makes the 1000 attempts of the code's loop and then falls through to the
  search of the whole range, so no fuel is needed and the search is total (C15). All other
  loops run over finite lists of rows, and each iteration of the endless loops of the tasks is an
  event.

  \<^bold>\<open>Atomicity.\<close> A handler is one event. The locks of \<open>AppState\<close> are not modelled; what happens
  between two awaits of one handler is taken as not interleaved with other handlers, while the
  tasks of sessions, listeners and connections interleave freely. Aborting a listener task takes
  effect at once; that the old socket may still be open when the port is bound again is one of the
  reasons for which \<open>bind_error\<close> lets a bind fail.

  \<^bold>\<open>Not modelled.\<close> The JSON text of the messages (serde, a parameter), the text of the two HTML
  pages (constants), logging, argument parsing (clap), the two HTTP servers and their CORS layer,
  and the browser code.
\<close>

section \<open>Invariants of every reachable state\<close>

text \<open>
  C1: The constraints of the three tables (primary keys, \<open>UNIQUE\<close> columns) hold in every state
  the relay reaches, through any interleaving of requests, session frames and proxy steps and
  any I/O failures of the database, if they held when the relay started.
\<close>

theorem tables_stay_wf:
  assumes "tables_wf (tabs c)" and "reachable x (boot a c os) r"
  shows "tables_wf (tabs (db (app r)))"
  using sys_wf.reachable_R [OF assms(2)] assms(1)
  by (simp add: app_wf.app_R_def wf_step_def)

theorem tables_stay_wf_witness: "tables_wf (tabs (db (app serving)))"
  by (rule tables_stay_wf [OF _ sample_runs(2)]) simp



text \<open>
  C3: With foreign keys enforced, every stored reference stays valid: a tunnel's agent and the
  user of an agent or a tunnel exist, also after agents and tunnels have been deleted.
\<close>

theorem references_stay_valid:
  assumes "fk_enforced c" "refs_wf (tabs c)" and "reachable x (boot a c os) r"
  shows "refs_wf (tabs (db (app r)))"
  using sys_refs.reachable_R [OF assms(3)] assms(1,2)
  by (simp add: app_refs.app_R_def refs_step_def)

theorem references_stay_valid_witness: "refs_wf (tabs (db (app gaming)))"
  by (rule references_stay_valid [OF _ _ sample_runs(3)]) simp_all

text \<open>
  C4: Every tunnel of a reachable state belongs to a registered user and is exposed on that
  user's dedicated port. With C1 (dedicated ports are unique) two users never share a public port.
\<close>

theorem tunnels_on_owner_port:
  assumes "tables_wf (tabs c)" "port_owner (tabs c)" and "reachable x (boot a c os) r"
    and "k \<in> set (tunnels (tabs (db (app r))))" "l \<in> set (tunnels (tabs (db (app r))))"
  shows "(\<exists>u \<in> set (users (tabs (db (app r)))). t_user_id k = Some (ur_id u)
      \<and> t_public_port k = ur_dedicated_port u)
    \<and> (t_public_port k = t_public_port l \<longleftrightarrow> t_user_id k = t_user_id l)"
proof -
  let ?t = "tabs (db (app r))"
  have wf: "tables_wf ?t"
    using sys_wf.reachable_R [OF assms(3)] assms(1) by (simp add: app_wf.app_R_def wf_step_def)
  have "port_owner ?t"
    using sys_owner.reachable_R [OF assms(3)] assms(2)
    by (simp add: owner.app_R_def inv_step_def)
  then obtain u v where
    "u \<in> set (users ?t)" "t_user_id k = Some (ur_id u)" "t_public_port k = ur_dedicated_port u"
    "v \<in> set (users ?t)" "t_user_id l = Some (ur_id v)" "t_public_port l = ur_dedicated_port v"
    using assms(4,5) unfolding port_owner_def by metis
  then show ?thesis
    using user_ids.same_key_same_row [OF wf] dedicated_ports.same_key_same_row [OF wf] by auto
qed

theorem tunnels_on_owner_port_witness:
  "t_public_port blog = t_public_port game \<longleftrightarrow> t_user_id blog = t_user_id game"
  using tunnels_on_owner_port [where c = sample_conn and k = blog and l = game,
      OF _ _ reachable.here [where x = sample_ext]] by simp



text \<open>
  C6: The routing table is sound in every reachable state, provided the random connection ids
  drawn so far are distinct: a registered connection id leads to an open channel, two ids never
  lead to the same one, and every route belongs to exactly the TCP connection, or the UDP peer,
  that the id was drawn for. Data for one client cannot reach another.
\<close>

theorem routing_sound:
  assumes "reachable x (boot a c os) r" and "no_repeat (app r)"
    and "tcp_conn_senders (app r) i = Some ch"
  shows "(\<exists>q. data_chans (app r) ch = Some q \<and> d_rx q)
    \<and> (\<forall>j. tcp_conn_senders (app r) j = Some ch \<longrightarrow> j = i)
    \<and> (\<exists>!p. map_option fst (owned r p) = Some i)
    \<and> (\<exists>p. owned r p = Some (i, ch, True))"
proof -
  have wf: "routes_wf r" by (rule reachable_routes [OF assms(1) boot_routes assms(2)])
  then have w: "routes (owned r) (tcp_conn_senders (app r)) (rx_of (app r))
      (next_data_chan (app r)) (drawn (app r))" by (simp add: routes_wf_def)
  obtain p where p: "owned r p = Some (i, ch, True)" using routesD(6) [OF w assms(3)] ..
  have "\<exists>!p. map_option fst (owned r p) = Some i"
  proof (rule ex1I [of _ p])
    fix q
    assume "map_option fst (owned r q) = Some i"
    then obtain z where "owned r q = Some (i, z)" by auto
    then show "q = p" using routesD(4) [OF w p] by (metis prod.collapse)
  qed (simp add: p)
  with p assms(3) conns_wf_routes [OF wf] show ?thesis
    by (metis conns_chan conns_inj)
qed

theorem routing_sound_witness:
  "\<exists>p. owned serving p = Some (101, 0, True)"
proof -
  have "no_repeat (app serving)"
    by (simp add: no_repeat_def serving_facts inj_on_def lessThan_Suc numeral_2_eq_2)
  then show ?thesis
    using routing_sound [OF sample_runs(2), of 101 0] by (simp add: serving_facts)
qed

text \<open>
  C7: In every reachable state the administrator can list the tunnels: the answer is 200 with
  every stored tunnel exactly once. The stored byte counters, which the running relay never
  changes, stay readable; a counter outside the range of \<open>i64\<close> would make the listing empty.
\<close>

theorem admin_lists_all_tunnels:
  assumes "reliable c" "counters_zero (tabs c)" and "reachable x (boot a c os) r"
    and "is_admin x h (app r)"
  shows "\<exists>ts t. list_tunnels x h (app r) = (Ok (200, JTunnels ts), t)
    \<and> mset (map tr_id ts) = mset (map t_id (tunnels (tabs (db (app r)))))"
proof -
  let ?s = "app r"
  let ?f = "\<lambda>k. \<lparr>tr_id = t_id k, tr_agent_id = t_agent_id k, tr_user_id = t_user_id k,
      tr_name = t_name k, tr_local_port = t_local_port k, tr_protocol = t_protocol k,
      tr_public_port = t_public_port k, tr_subdomain = t_subdomain k, tr_enabled = t_enabled k,
      tr_bytes_in = 0, tr_bytes_out = 0, tr_created_at = t_created_at k\<rparr>"
  let ?rows = "sort_key (\<lambda>k. - t_created_at k) (tunnels (tabs (db ?s)))"
  have "counters_zero (tabs (db ?s))"
    using sys_zeros.reachable_R [OF assms(3)] assms(2) by (simp add: zeros.app_R_def inv_step_def)
  then have "tunnel_of_row k = Ok (?f k)" if "k \<in> set ?rows" for k
    using that by (simp add: counters_zero_def tunnel_of_row_def get_u64_def)
  then have "collect tunnel_of_row ?rows = Ok (map ?f ?rows)" by (rule collect_total)
  moreover have "reliable (db ?s)"
    using sys_world.reachable_R [OF assms(3)] assms(1)
    by (simp add: app_world.app_R_def same_world_reliable)
  ultimately have "on_db list_all_tunnels ?s = (Ok (map ?f ?rows), ?s\<lparr>db := next_stmt (db ?s)\<rparr>)"
    by (simp add: on_db_def list_all_tunnels_def)
  then have "list_tunnels x h ?s = (Ok (200, JTunnels (map ?f ?rows)), ?s\<lparr>db := next_stmt (db ?s)\<rparr>)"
    using assms(4) by (simp add: list_tunnels_def and_then_Ok unwrap_or_Ok)
  moreover have "mset (map tr_id (map ?f ?rows)) = mset (map t_id (tunnels (tabs (db ?s))))"
    by (simp add: comp_def)
  ultimately show ?thesis by blast
qed

theorem admin_lists_all_tunnels_witness:
  "\<exists>ts t. list_tunnels sample_ext as_new_admin (app administered) = (Ok (200, JTunnels ts), t)
    \<and> mset (map tr_id ts) = {#uuid_text 21, uuid_text 22#}"
  using admin_lists_all_tunnels [OF _ _ sample_runs(4) administered_facts(1)]
  by (simp add: administered_facts(2)) (simp add: sample_rows)

end
